theory Spec2Isabelle
  imports Complex_Main "HOL-Library.Word" "HOL-Library.Monad_Syntax"
begin

section \<open>Numbers and the values of the math library\<close>

text \<open>
  The C++ types \<^verbatim>\<open>double\<close> and \<^verbatim>\<open>float\<close> are idealised as rationals: there is no NaN
  and no infinity, so the test \<^verbatim>\<open>!math::equal(value, value)\<close> of \<^verbatim>\<open>Parse\<close> never fires.
  The fixed-width integers of the message fields are words; \<^verbatim>\<open>int\<close> and
  \<^verbatim>\<open>unsigned int\<close> arguments are 32-bit words read through \<open>sint\<close> and \<open>uint\<close>.
\<close>

type_synonym double = rat

datatype Vector3d = Vector3d (vX: double) (vY: double) (vZ: double)
datatype Quaterniond = Quaterniond (qW: double) (qX: double) (qY: double) (qZ: double)
datatype Pose3d = Pose3d (Pos: Vector3d) (Rot: Quaterniond)
datatype Color = Color (cR: double) (cG: double) (cB: double) (cA: double)

text \<open>The default-constructed values \<^verbatim>\<open>math::Vector3d()\<close>, \<^verbatim>\<open>math::Pose3d()\<close>, \<^verbatim>\<open>math::Color()\<close>.\<close>

definition Vector3d_Zero :: Vector3d where
  "Vector3d_Zero = Vector3d 0 0 0"

definition Pose3d_Zero :: Pose3d where
  "Pose3d_Zero = Pose3d (Vector3d 0 0 0) (Quaterniond 1 0 0 0)"

definition Color_Default :: Color where
  "Color_Default = Color 0 0 0 1"

text \<open>
  Functions the file calls but does not define (the helpers of \<^verbatim>\<open>Helpers.hh\<close> and the math
  and common libraries) are parameters of the model.
\<close>

record Helpers =
  rangeFromKey :: "string \<Rightarrow> double \<times> double"
  Vector3d_equal :: "Vector3d \<Rightarrow> Vector3d \<Rightarrow> bool"
  Euler :: "Quaterniond \<Rightarrow> Vector3d"
  FromEuler :: "Vector3d \<Rightarrow> Quaterniond"
  Nearest :: "double \<Rightarrow> double"

section \<open>The toolkit's child widgets\<close>

text \<open>
  Only what \<^verbatim>\<open>MessageWidget.cc\<close> reads and writes is kept of a child widget: the range,
  precision and value of a spin box, the text of an edit, the items and current index of
  a combo box, the checked state of a radio button. Labels, layouts, style sheets and
  signal connections are left out. A group box keeps the addresses of the property
  widgets laid out in it.
\<close>

datatype QWidget =
    QSpinBox int int int
  | QDoubleSpinBox double double nat double
  | QLineEdit string
  | QPlainTextEdit string
  | QComboBox "string list" int
  | QRadioButton bool
  | QPushButton
  | QGroupBox "nat list"

definition bound :: "'a::linorder \<Rightarrow> 'a \<Rightarrow> 'a \<Rightarrow> 'a" where
  "bound lo hi v = (if v < lo then lo else if hi < v then hi else v)"

text \<open>
  A double spin box rounds what it is given to its number of decimals. Doubles are
  idealised as rationals and a tie is rounded up; the toolkit rounds the binary double
  through its decimal text, which can differ at a tie. The properties below are stated
  for values the spin box represents, where no rounding takes place.
\<close>

definition round_dec :: "nat \<Rightarrow> double \<Rightarrow> double" where
  "round_dec d x = of_int \<lfloor>x * 10 ^ d + 1 / 2\<rfloor> / 10 ^ d"

text \<open>\<^verbatim>\<open>new QSpinBox; setRange(lo, hi)\<close>: a new spin box holds 0.\<close>

definition new_QSpinBox :: "int \<Rightarrow> int \<Rightarrow> QWidget" where
  "new_QSpinBox lo hi = QSpinBox lo (max lo hi) (bound lo (max lo hi) 0)"

text \<open>\<^verbatim>\<open>new QDoubleSpinBox; setRange(lo, hi); setDecimals(d)\<close>.\<close>

definition new_QDoubleSpinBox :: "double \<Rightarrow> double \<Rightarrow> nat \<Rightarrow> QWidget" where
  "new_QDoubleSpinBox lo hi d =
     (let lo' = round_dec d lo; hi' = max lo' (round_dec d hi)
      in QDoubleSpinBox lo' hi' d (bound lo' hi' 0))"

text \<open>
  The calls made through \<^verbatim>\<open>qobject_cast\<close>: the cast of a widget of another class is null,
  and the call on it is a null dereference, \<open>None\<close> here.
\<close>

fun QSpinBox_setValue :: "int \<Rightarrow> QWidget \<Rightarrow> QWidget option" where
  "QSpinBox_setValue v (QSpinBox lo hi _) = Some (QSpinBox lo hi (bound lo hi v))"
| "QSpinBox_setValue v _ = None"

fun QSpinBox_value :: "QWidget \<Rightarrow> int option" where
  "QSpinBox_value (QSpinBox _ _ v) = Some v"
| "QSpinBox_value _ = None"

fun QDoubleSpinBox_setValue :: "double \<Rightarrow> QWidget \<Rightarrow> QWidget option" where
  "QDoubleSpinBox_setValue v (QDoubleSpinBox lo hi d _) =
     Some (QDoubleSpinBox lo hi d (bound lo hi (round_dec d v)))"
| "QDoubleSpinBox_setValue v _ = None"

fun QDoubleSpinBox_value :: "QWidget \<Rightarrow> double option" where
  "QDoubleSpinBox_value (QDoubleSpinBox _ _ _ v) = Some v"
| "QDoubleSpinBox_value _ = None"

fun findText_from :: "int \<Rightarrow> string list \<Rightarrow> string \<Rightarrow> int" where
  "findText_from i [] t = -1"
| "findText_from i (x # xs) t = (if x = t then i else findText_from (i + 1) xs t)"

fun QComboBox_findText :: "QWidget \<Rightarrow> string \<Rightarrow> int option" where
  "QComboBox_findText (QComboBox its _) t = Some (findText_from 0 its t)"
| "QComboBox_findText _ t = None"

fun QComboBox_setCurrentIndex :: "int \<Rightarrow> QWidget \<Rightarrow> QWidget option" where
  "QComboBox_setCurrentIndex i (QComboBox its _) =
     Some (QComboBox its (if 0 \<le> i \<and> i < int (length its) then i else -1))"
| "QComboBox_setCurrentIndex i _ = None"

fun QComboBox_currentText :: "QWidget \<Rightarrow> string option" where
  "QComboBox_currentText (QComboBox its i) =
     Some (if 0 \<le> i \<and> i < int (length its) then its ! nat i else [])"
| "QComboBox_currentText _ = None"

fun QComboBox_count :: "QWidget \<Rightarrow> int option" where
  "QComboBox_count (QComboBox its _) = Some (int (length its))"
| "QComboBox_count _ = None"

text \<open>
  \<^verbatim>\<open>QLineEdit::setText\<close>: a line edit keeps its default \<^verbatim>\<open>maxLength\<close> of 32767 and
  truncates a longer text.
\<close>

definition QLineEdit_maxLength :: int where
  "QLineEdit_maxLength = 32767"

fun QString_left :: "int \<Rightarrow> string \<Rightarrow> string" where
  "QString_left n [] = []"
| "QString_left n (c # cs) = (if n \<le> 0 then [] else c # QString_left (n - 1) cs)"

fun QLineEdit_setText :: "string \<Rightarrow> QWidget \<Rightarrow> QWidget option" where
  "QLineEdit_setText t (QLineEdit _) = Some (QLineEdit (QString_left QLineEdit_maxLength t))"
| "QLineEdit_setText t _ = None"

text \<open>
  \<^verbatim>\<open>tr(s.c_str())\<close>, the text the widgets are given for a \<^verbatim>\<open>std::string\<close>: the C string
  ends at the first NUL character. No translation is installed, so \<^verbatim>\<open>tr\<close> returns the
  text of its argument; the characters are taken one for one (the text is ASCII).
\<close>

definition tr_c_str :: "string \<Rightarrow> string" where
  "tr_c_str s = takeWhile (\<lambda>c. c \<noteq> CHR 0x00) s"

fun QLineEdit_text :: "QWidget \<Rightarrow> string option" where
  "QLineEdit_text (QLineEdit t) = Some t"
| "QLineEdit_text _ = None"

fun QRadioButton_setChecked :: "bool \<Rightarrow> QWidget \<Rightarrow> QWidget option" where
  "QRadioButton_setChecked b (QRadioButton _) = Some (QRadioButton b)"
| "QRadioButton_setChecked b _ = None"

fun QRadioButton_isChecked :: "QWidget \<Rightarrow> bool option" where
  "QRadioButton_isChecked (QRadioButton b) = Some b"
| "QRadioButton_isChecked _ = None"

text \<open>\<^verbatim>\<open>v[i]\<close> of a \<^verbatim>\<open>std::vector\<close>: out of range is undefined behaviour, \<open>None\<close> here.\<close>

definition vat :: "'a list \<Rightarrow> nat \<Rightarrow> 'a option" where
  "vat xs i = (if i < length xs then Some (xs ! i) else None)"

section \<open>Property widgets\<close>

text \<open>
  \<^verbatim>\<open>PropertyWidget\<close> and its subclasses. \<open>cls\<close> is the dynamic class, which
  \<^verbatim>\<open>qobject_cast\<close> tests. \<open>unitLabel\<close> says whether \<^verbatim>\<open>mapWidgetToUnit\<close> holds a label for
  the first child widget. \<open>groupWidget\<close> is the \<^verbatim>\<open>GroupWidget\<close> wrapped around the widget,
  if any, as its visible and enabled flags.
\<close>

datatype WidgetClass =
  PropertyWidgetC | GeometryWidgetC | EnumWidgetC | DensityWidgetC | BoolWidgetC

record PropertyWidget =
  cls :: WidgetClass
  widgets :: "QWidget list"
  scopedName :: string
  key :: string
  unitLabel :: bool
  groupWidget :: "(bool \<times> bool) option"
  visible :: bool
  enabled :: bool
  density :: double

text \<open>\<^verbatim>\<open>new PropertyWidget()\<close>: no child widgets, no group, shown and enabled.\<close>

definition new_PropertyWidget :: "WidgetClass \<Rightarrow> PropertyWidget" where
  "new_PropertyWidget c =
     \<lparr>cls = c, widgets = [], scopedName = [], key = [], unitLabel = False,
      groupWidget = None, visible = True, enabled = True, density = 0\<rparr>"

text \<open>Writing through \<^verbatim>\<open>_widget->widgets[i]\<close>.\<close>

definition set_child :: "nat \<Rightarrow> QWidget \<Rightarrow> PropertyWidget \<Rightarrow> PropertyWidget" where
  "set_child i c w = w\<lparr>widgets := (widgets w)[i := c]\<rparr>"

section \<open>The widget and its registry\<close>

text \<open>
  \<^verbatim>\<open>MessageWidgetPrivate\<close> and the objects it points to. \<open>configWidgets\<close> is the
  \<^verbatim>\<open>std::map\<close> from scoped names to \<^verbatim>\<open>PropertyWidget *\<close>; \<open>heap\<close> holds the property
  widgets by address and \<open>messages\<close> the message objects of the program by address, the
  caller's among them (a new object takes the next address); \<open>msg\<close> is the pointer to
  the message copy, null before \<^verbatim>\<open>Load\<close>.
\<close>

datatype FieldValue =
    TYPE_DOUBLE double
  | TYPE_FLOAT double
  | TYPE_INT64 "64 word"
  | TYPE_UINT64 "64 word"
  | TYPE_INT32 "32 word"
  | TYPE_UINT32 "32 word"
  | TYPE_BOOL bool
  | TYPE_STRING string
  | TYPE_MESSAGE string "Field list"
  | TYPE_ENUM "string list" nat
  | TYPE_OTHER
and Field = Field (fname: string) (is_repeated: bool) (HasField: bool) (fval: FieldValue)

type_synonym Message = "Field list"

record MessageWidget =
  configWidgets :: "(string \<times> nat) list"
  heap :: "PropertyWidget list"
  messages :: "Message list"
  msg :: "nat option"

text \<open>The constructor, in a program that holds the message objects \<open>ms\<close>.\<close>

definition MessageWidget_new :: "Message list \<Rightarrow> MessageWidget" where
  "MessageWidget_new ms = \<lparr>configWidgets = [], heap = [], messages = ms, msg = None\<rparr>"

definition find_widget :: "MessageWidget \<Rightarrow> string \<Rightarrow> nat option" where
  "find_widget st name = map_of (configWidgets st) name"

definition deref :: "MessageWidget \<Rightarrow> nat \<Rightarrow> PropertyWidget option" where
  "deref st p = vat (heap st) p"

definition store :: "nat \<Rightarrow> PropertyWidget \<Rightarrow> MessageWidget \<Rightarrow> MessageWidget" where
  "store p w st = st\<lparr>heap := (heap st)[p := w]\<rparr>"

definition alloc :: "PropertyWidget \<Rightarrow> MessageWidget \<Rightarrow> nat \<times> MessageWidget" where
  "alloc w st = (length (heap st), st\<lparr>heap := heap st @ [w]\<rparr>)"


definition modify ::
  "MessageWidget \<Rightarrow> nat \<Rightarrow> (PropertyWidget \<Rightarrow> (bool \<times> PropertyWidget) option)
     \<Rightarrow> (bool \<times> MessageWidget) option" where
  "modify st p f = do { w \<leftarrow> deref st p; (b, w') \<leftarrow> f w; Some (b, store p w' st) }"

text \<open>Calling \<open>f\<close> on the child widget \<^verbatim>\<open>_widget->widgets[i]\<close>.\<close>

definition upd_child ::
  "nat \<Rightarrow> (QWidget \<Rightarrow> QWidget option) \<Rightarrow> PropertyWidget \<Rightarrow> PropertyWidget option" where
  "upd_child i f w = do { c \<leftarrow> vat (widgets w) i; c' \<leftarrow> f c; Some (set_child i c' w) }"

definition get_child :: "nat \<Rightarrow> (QWidget \<Rightarrow> 'a option) \<Rightarrow> PropertyWidget \<Rightarrow> 'a option" where
  "get_child i f w = do { c \<leftarrow> vat (widgets w) i; f c }"

section \<open>Reading a property widget\<close>

definition IntWidgetValue_w :: "PropertyWidget \<Rightarrow> int option" where
  "IntWidgetValue_w w =
     (if length (widgets w) = 1 then get_child 0 QSpinBox_value w else Some 0)"

definition UIntWidgetValue_w :: "PropertyWidget \<Rightarrow> 32 word option" where
  "UIntWidgetValue_w w =
     (if length (widgets w) = 1
      then do { v \<leftarrow> get_child 0 QSpinBox_value w; Some (word_of_int v) }
      else Some 0)"

definition DoubleWidgetValue_w :: "PropertyWidget \<Rightarrow> double option" where
  "DoubleWidgetValue_w w =
     (if length (widgets w) = 1 then get_child 0 QDoubleSpinBox_value w else Some 0)"

definition StringWidgetValue_w :: "PropertyWidget \<Rightarrow> string option" where
  "StringWidgetValue_w w =
     (if length (widgets w) = 1
      then (case widgets w ! 0 of
              QLineEdit t \<Rightarrow> Some t
            | QPlainTextEdit t \<Rightarrow> Some t
            | _ \<Rightarrow> Some [])
      else Some [])"

definition Vector3dWidgetValue_w :: "PropertyWidget \<Rightarrow> Vector3d option" where
  "Vector3dWidgetValue_w w =
     (if length (widgets w) = 4
      then do {
        x \<leftarrow> get_child 0 QDoubleSpinBox_value w;
        y \<leftarrow> get_child 1 QDoubleSpinBox_value w;
        z \<leftarrow> get_child 2 QDoubleSpinBox_value w;
        Some (Vector3d x y z) }
      else Some Vector3d_Zero)"

definition ColorWidgetValue_w :: "PropertyWidget \<Rightarrow> Color option" where
  "ColorWidgetValue_w w =
     (if length (widgets w) = 4
      then do {
        r \<leftarrow> get_child 0 QDoubleSpinBox_value w;
        g \<leftarrow> get_child 1 QDoubleSpinBox_value w;
        b \<leftarrow> get_child 2 QDoubleSpinBox_value w;
        a \<leftarrow> get_child 3 QDoubleSpinBox_value w;
        Some (Color r g b a) }
      else Some Color_Default)"

definition PoseWidgetValue_w :: "Helpers \<Rightarrow> PropertyWidget \<Rightarrow> Pose3d option" where
  "PoseWidgetValue_w h w =
     (if length (widgets w) = 6
      then do {
        x \<leftarrow> get_child 0 QDoubleSpinBox_value w;
        y \<leftarrow> get_child 1 QDoubleSpinBox_value w;
        z \<leftarrow> get_child 2 QDoubleSpinBox_value w;
        rx \<leftarrow> get_child 3 QDoubleSpinBox_value w;
        ry \<leftarrow> get_child 4 QDoubleSpinBox_value w;
        rz \<leftarrow> get_child 5 QDoubleSpinBox_value w;
        Some (Pose3d (Vector3d x y z) (FromEuler h (Vector3d rx ry rz))) }
      else Some Pose3d_Zero)"

text \<open>
  \<^verbatim>\<open>GeometryWidgetValue\<close> returns the type and writes the dimensions and the uri through
  its reference arguments: the model takes their old values and returns the new ones.
\<close>

definition GeometryWidgetValue_w ::
  "PropertyWidget \<Rightarrow> Vector3d \<Rightarrow> string \<Rightarrow> (string \<times> Vector3d \<times> string) option" where
  "GeometryWidgetValue_w w dimensions uri =
     (if length (widgets w) \<noteq> 8 then Some ([], dimensions, uri)
      else do {
        val \<leftarrow> get_child 0 QComboBox_currentText w;
        let isMesh = (val = ''mesh'');
        dims \<leftarrow>
          (if val = ''box'' \<or> isMesh then do {
             x \<leftarrow> get_child 1 QDoubleSpinBox_value w;
             y \<leftarrow> get_child 2 QDoubleSpinBox_value w;
             z \<leftarrow> get_child 3 QDoubleSpinBox_value w;
             Some (Vector3d x y z) }
           else if val = ''cylinder'' then do {
             r \<leftarrow> get_child 4 QDoubleSpinBox_value w;
             l \<leftarrow> get_child 5 QDoubleSpinBox_value w;
             Some (Vector3d (r * 2) (r * 2) l) }
           else if val = ''sphere'' then do {
             r \<leftarrow> get_child 4 QDoubleSpinBox_value w;
             Some (Vector3d (r * 2) (r * 2) (r * 2)) }
           else Some dimensions);
        uri' \<leftarrow> (if isMesh then get_child 6 QLineEdit_text w else Some uri);
        Some (val, dims, uri') })"

definition EnumWidgetValue_w :: "PropertyWidget \<Rightarrow> string option" where
  "EnumWidgetValue_w w =
     (if length (widgets w) \<noteq> 1 then Some []
      else get_child 0 QComboBox_currentText w)"

section \<open>Writing a property widget\<close>

definition UpdateIntWidget :: "PropertyWidget \<Rightarrow> 32 word \<Rightarrow> (bool \<times> PropertyWidget) option" where
  "UpdateIntWidget w v =
     (if length (widgets w) = 1
      then do { w' \<leftarrow> upd_child 0 (QSpinBox_setValue (sint v)) w; Some (True, w') }
      else Some (False, w))"

text \<open>The \<^verbatim>\<open>unsigned int\<close> is converted to the \<^verbatim>\<open>int\<close> that \<^verbatim>\<open>QSpinBox::setValue\<close> takes.\<close>

definition UpdateUIntWidget :: "PropertyWidget \<Rightarrow> 32 word \<Rightarrow> (bool \<times> PropertyWidget) option" where
  "UpdateUIntWidget w v =
     (if length (widgets w) = 1
      then do { w' \<leftarrow> upd_child 0 (QSpinBox_setValue (sint v)) w; Some (True, w') }
      else Some (False, w))"

definition UpdateStringWidget :: "PropertyWidget \<Rightarrow> string \<Rightarrow> (bool \<times> PropertyWidget) option" where
  "UpdateStringWidget w v =
     (if length (widgets w) = 1
      then (case widgets w ! 0 of
              QLineEdit _ \<Rightarrow> Some (True, set_child 0 (QLineEdit (QString_left QLineEdit_maxLength (tr_c_str v))) w)
            | QPlainTextEdit _ \<Rightarrow> Some (True, set_child 0 (QPlainTextEdit (tr_c_str v)) w)
            | _ \<Rightarrow> Some (False, w))
      else Some (False, w))"

definition Vector3d_preset :: "Helpers \<Rightarrow> Vector3d \<Rightarrow> int" where
  "Vector3d_preset h v =
     (if Vector3d_equal h v (Vector3d 1 0 0) then 1
      else if Vector3d_equal h v (Vector3d (-1) 0 0) then 2
      else if Vector3d_equal h v (Vector3d 0 1 0) then 3
      else if Vector3d_equal h v (Vector3d 0 (-1) 0) then 4
      else if Vector3d_equal h v (Vector3d 0 0 1) then 5
      else if Vector3d_equal h v (Vector3d 0 0 (-1)) then 6
      else 0)"

definition UpdateVector3dWidget ::
  "Helpers \<Rightarrow> PropertyWidget \<Rightarrow> Vector3d \<Rightarrow> (bool \<times> PropertyWidget) option" where
  "UpdateVector3dWidget h w v =
     (if length (widgets w) = 4
      then do {
        w1 \<leftarrow> upd_child 0 (QDoubleSpinBox_setValue (vX v)) w;
        w2 \<leftarrow> upd_child 1 (QDoubleSpinBox_setValue (vY v)) w1;
        w3 \<leftarrow> upd_child 2 (QDoubleSpinBox_setValue (vZ v)) w2;
        w4 \<leftarrow> upd_child 3 (QComboBox_setCurrentIndex (Vector3d_preset h v)) w3;
        Some (True, w4) }
      else Some (False, w))"

definition UpdateColorWidget :: "PropertyWidget \<Rightarrow> Color \<Rightarrow> (bool \<times> PropertyWidget) option" where
  "UpdateColorWidget w c =
     (if length (widgets w) = 4
      then do {
        w1 \<leftarrow> upd_child 0 (QDoubleSpinBox_setValue (cR c)) w;
        w2 \<leftarrow> upd_child 1 (QDoubleSpinBox_setValue (cG c)) w1;
        w3 \<leftarrow> upd_child 2 (QDoubleSpinBox_setValue (cB c)) w2;
        w4 \<leftarrow> upd_child 3 (QDoubleSpinBox_setValue (cA c)) w3;
        Some (True, w4) }
      else Some (False, w))"

definition UpdatePoseWidget ::
  "Helpers \<Rightarrow> PropertyWidget \<Rightarrow> Pose3d \<Rightarrow> (bool \<times> PropertyWidget) option" where
  "UpdatePoseWidget h w p =
     (if length (widgets w) = 6
      then do {
        w1 \<leftarrow> upd_child 0 (QDoubleSpinBox_setValue (vX (Pos p))) w;
        w2 \<leftarrow> upd_child 1 (QDoubleSpinBox_setValue (vY (Pos p))) w1;
        w3 \<leftarrow> upd_child 2 (QDoubleSpinBox_setValue (vZ (Pos p))) w2;
        let rot = Euler h (Rot p);
        w4 \<leftarrow> upd_child 3 (QDoubleSpinBox_setValue (vX rot)) w3;
        w5 \<leftarrow> upd_child 4 (QDoubleSpinBox_setValue (vY rot)) w4;
        w6 \<leftarrow> upd_child 5 (QDoubleSpinBox_setValue (vZ rot)) w5;
        Some (True, w6) }
      else Some (False, w))"

definition UpdateGeometryWidget ::
  "PropertyWidget \<Rightarrow> string \<Rightarrow> Vector3d \<Rightarrow> string \<Rightarrow> (bool \<times> PropertyWidget) option" where
  "UpdateGeometryWidget w val dimensions uri =
     (if length (widgets w) \<noteq> 8 then Some (False, w)
      else do {
        index \<leftarrow> get_child 0 (\<lambda>c. QComboBox_findText c (tr_c_str val)) w;
        if index < 0 then Some (False, w)
        else do {
          w0 \<leftarrow> upd_child 0 (QComboBox_setCurrentIndex index) w;
          let isMesh = (val = ''mesh'');
          w1 \<leftarrow>
            (if val = ''box'' \<or> isMesh then do {
               a \<leftarrow> upd_child 1 (QDoubleSpinBox_setValue (vX dimensions)) w0;
               b \<leftarrow> upd_child 2 (QDoubleSpinBox_setValue (vY dimensions)) a;
               upd_child 3 (QDoubleSpinBox_setValue (vZ dimensions)) b }
             else if val = ''cylinder'' then do {
               a \<leftarrow> upd_child 4 (QDoubleSpinBox_setValue (vX dimensions * (1 / 2))) w0;
               upd_child 5 (QDoubleSpinBox_setValue (vZ dimensions)) a }
             else if val = ''sphere'' then
               upd_child 4 (QDoubleSpinBox_setValue (vX dimensions * (1 / 2))) w0
             else Some w0);
          w2 \<leftarrow> (if isMesh then upd_child 6 (QLineEdit_setText (tr_c_str uri)) w1 else Some w1);
          Some (True, w2) } })"

definition UpdateEnumWidget :: "PropertyWidget \<Rightarrow> string \<Rightarrow> (bool \<times> PropertyWidget) option" where
  "UpdateEnumWidget w val =
     (if length (widgets w) \<noteq> 1 then Some (False, w)
      else (case widgets w ! 0 of
              QComboBox its i \<Rightarrow>
                (let index = findText_from 0 its (tr_c_str val)
                 in if index < 0 then Some (False, w)
                    else do { w' \<leftarrow> upd_child 0 (QComboBox_setCurrentIndex index) w;
                              Some (True, w') })
            | _ \<Rightarrow> Some (False, w)))"

text \<open>
  \<^verbatim>\<open>DensityWidget::SetDensity\<close>. The members \<^verbatim>\<open>comboBox\<close> and \<^verbatim>\<open>spinBox\<close> are the child
  widgets 0 and 1, as \<^verbatim>\<open>CreateDensityWidget\<close> sets them; signals are blocked during the call.
\<close>

definition SetDensity :: "Helpers \<Rightarrow> PropertyWidget \<Rightarrow> double \<Rightarrow> PropertyWidget option" where
  "SetDensity h w d = do {
     w1 \<leftarrow> (if Nearest h d \<ge> 0
            then do { _ \<leftarrow> get_child 0 QComboBox_count w; Some w }
            else do { n \<leftarrow> get_child 0 QComboBox_count w;
                      upd_child 0 (QComboBox_setCurrentIndex (n - 1)) w });
     w2 \<leftarrow> upd_child 1 (QDoubleSpinBox_setValue d) w1;
     Some (w2\<lparr>density := d\<rparr>) }"

definition UpdateDensityWidget ::
  "Helpers \<Rightarrow> PropertyWidget \<Rightarrow> double \<Rightarrow> (bool \<times> PropertyWidget) option" where
  "UpdateDensityWidget h w d =
     (if cls w = DensityWidgetC
      then do { w' \<leftarrow> SetDensity h w d; Some (True, w') }
      else Some (False, w))"

text \<open>
  Modelled from the spec: \<^verbatim>\<open>BoolWidget\<close> (\<^verbatim>\<open>BoolWidget.hh\<close> is not among the sources). Its
  constructor, \<^verbatim>\<open>SetValue\<close> and \<^verbatim>\<open>Value\<close> are modelled after the use \<^verbatim>\<open>MessageWidget.cc\<close>
  makes of them: \<^verbatim>\<open>UpdateMsg\<close> reads the first child widget as the radio button that is
  checked when the value is true; the second is the radio button of false.
\<close>

definition BoolWidget_new :: PropertyWidget where
  "BoolWidget_new =
     (new_PropertyWidget BoolWidgetC)\<lparr>widgets := [QRadioButton False, QRadioButton True]\<rparr>"

definition BoolWidget_SetValue :: "PropertyWidget \<Rightarrow> bool \<Rightarrow> (bool \<times> PropertyWidget) option" where
  "BoolWidget_SetValue w v = do {
     w1 \<leftarrow> upd_child 0 (QRadioButton_setChecked v) w;
     w2 \<leftarrow> upd_child 1 (QRadioButton_setChecked (\<not> v)) w1;
     Some (True, w2) }"

definition BoolWidget_Value :: "PropertyWidget \<Rightarrow> bool option" where
  "BoolWidget_Value w = get_child 0 QRadioButton_isChecked w"


section \<open>The accessors by name\<close>

definition EnumWidgetValue :: "MessageWidget \<Rightarrow> string \<Rightarrow> string option" where
  "EnumWidgetValue st name =
     (case find_widget st name of
        Some p \<Rightarrow> do { w \<leftarrow> deref st p; EnumWidgetValue_w w }
      | None \<Rightarrow> Some [])"

text \<open>
  \<^verbatim>\<open>UpdateDoubleWidget\<close> sets the spin box, then looks the enum widget named \<^verbatim>\<open>type\<close> up
  for the unit and writes the unit label found in \<^verbatim>\<open>mapWidgetToUnit\<close>: the lookup fails
  when that widget is no enum widget, the write when there is no label.
\<close>

definition UpdateDoubleWidget ::
  "MessageWidget \<Rightarrow> nat \<Rightarrow> double \<Rightarrow> (bool \<times> MessageWidget) option" where
  "UpdateDoubleWidget st p v = do {
     w \<leftarrow> deref st p;
     if length (widgets w) = 1
     then do {
       w' \<leftarrow> upd_child 0 (QDoubleSpinBox_setValue v) w;
       let st' = store p w' st;
       jointType \<leftarrow> EnumWidgetValue st' ''type'';
       if unitLabel w' then Some (True, st') else None }
     else Some (False, st) }"

definition WidgetVisible :: "MessageWidget \<Rightarrow> string \<Rightarrow> bool option" where
  "WidgetVisible st name =
     (case find_widget st name of
        Some p \<Rightarrow> do {
          w \<leftarrow> deref st p;
          Some (case groupWidget w of Some (vis, en) \<Rightarrow> vis | None \<Rightarrow> visible w) }
      | None \<Rightarrow> Some False)"

definition SetWidgetVisible :: "MessageWidget \<Rightarrow> string \<Rightarrow> bool \<Rightarrow> MessageWidget option" where
  "SetWidgetVisible st name v =
     (case find_widget st name of
        Some p \<Rightarrow> do {
          w \<leftarrow> deref st p;
          Some (case groupWidget w of
                  Some (vis, en) \<Rightarrow> store p (w\<lparr>groupWidget := Some (v, en)\<rparr>) st
                | None \<Rightarrow> store p (w\<lparr>visible := v\<rparr>) st) }
      | None \<Rightarrow> Some st)"

definition WidgetReadOnly :: "MessageWidget \<Rightarrow> string \<Rightarrow> bool option" where
  "WidgetReadOnly st name =
     (case find_widget st name of
        Some p \<Rightarrow> do {
          w \<leftarrow> deref st p;
          Some (case groupWidget w of Some (vis, en) \<Rightarrow> \<not> en | None \<Rightarrow> \<not> enabled w) }
      | None \<Rightarrow> Some False)"

text \<open>
  The property widgets found below a property widget by \<^verbatim>\<open>findChildren\<close>: itself and,
  through its group boxes, the widgets laid out in them. The fuel bounds the depth.
\<close>

fun descendants :: "nat \<Rightarrow> PropertyWidget list \<Rightarrow> nat \<Rightarrow> nat list" where
  "descendants 0 hp p = []"
| "descendants (Suc n) hp p =
     p # (case vat hp p of
            None \<Rightarrow> []
          | Some w \<Rightarrow>
              concat (map (\<lambda>c. case c of
                                 QGroupBox ps \<Rightarrow> concat (map (\<lambda>q. descendants n hp q) ps)
                               | _ \<Rightarrow> []) (widgets w)))"

definition setEnabled :: "bool \<Rightarrow> PropertyWidget \<Rightarrow> PropertyWidget" where
  "setEnabled e w =
     w\<lparr>enabled := e,
       groupWidget := (case groupWidget w of Some (vis, _) \<Rightarrow> Some (vis, e) | None \<Rightarrow> None)\<rparr>"

definition setEnabled_all :: "bool \<Rightarrow> nat list \<Rightarrow> PropertyWidget list \<Rightarrow> PropertyWidget list" where
  "setEnabled_all e ps hp =
     map (\<lambda>(i, w). if i \<in> set ps then setEnabled e w else w) (zip [0 ..< length hp] hp)"

text \<open>
  \<^verbatim>\<open>SetWidgetReadOnly\<close>: with a group, the group and every widget below it are enabled or
  disabled; without, the widget alone. (That the toolkit reports a widget below a
  disabled one as disabled is not modelled.)
\<close>

definition SetWidgetReadOnly :: "MessageWidget \<Rightarrow> string \<Rightarrow> bool \<Rightarrow> MessageWidget option" where
  "SetWidgetReadOnly st name readOnly =
     (case find_widget st name of
        Some p \<Rightarrow> do {
          w \<leftarrow> deref st p;
          Some (case groupWidget w of
                  Some (vis, en) \<Rightarrow>
                    st\<lparr>heap := setEnabled_all (\<not> readOnly)
                                  (descendants (length (heap st)) (heap st) p) (heap st)\<rparr>
                | None \<Rightarrow> store p (w\<lparr>enabled := \<not> readOnly\<rparr>) st) }
      | None \<Rightarrow> Some st)"

definition SetIntWidgetValue ::
  "MessageWidget \<Rightarrow> string \<Rightarrow> 32 word \<Rightarrow> (bool \<times> MessageWidget) option" where
  "SetIntWidgetValue st name v =
     (case find_widget st name of
        Some p \<Rightarrow> modify st p (\<lambda>w. UpdateIntWidget w v)
      | None \<Rightarrow> Some (False, st))"

definition SetUIntWidgetValue ::
  "MessageWidget \<Rightarrow> string \<Rightarrow> 32 word \<Rightarrow> (bool \<times> MessageWidget) option" where
  "SetUIntWidgetValue st name v =
     (case find_widget st name of
        Some p \<Rightarrow> modify st p (\<lambda>w. UpdateUIntWidget w v)
      | None \<Rightarrow> Some (False, st))"

definition SetDoubleWidgetValue ::
  "MessageWidget \<Rightarrow> string \<Rightarrow> double \<Rightarrow> (bool \<times> MessageWidget) option" where
  "SetDoubleWidgetValue st name v =
     (case find_widget st name of
        Some p \<Rightarrow> UpdateDoubleWidget st p v
      | None \<Rightarrow> Some (False, st))"

definition SetBoolWidgetValue ::
  "MessageWidget \<Rightarrow> string \<Rightarrow> bool \<Rightarrow> (bool \<times> MessageWidget) option" where
  "SetBoolWidgetValue st name v =
     (case find_widget st name of
        None \<Rightarrow> Some (False, st)
      | Some p \<Rightarrow> do {
          w \<leftarrow> deref st p;
          if cls w \<noteq> BoolWidgetC then Some (False, st)
          else modify st p (\<lambda>w. BoolWidget_SetValue w v) })"

definition SetStringWidgetValue ::
  "MessageWidget \<Rightarrow> string \<Rightarrow> string \<Rightarrow> (bool \<times> MessageWidget) option" where
  "SetStringWidgetValue st name v =
     (case find_widget st name of
        Some p \<Rightarrow> modify st p (\<lambda>w. UpdateStringWidget w v)
      | None \<Rightarrow> Some (False, st))"

definition SetVector3dWidgetValue ::
  "Helpers \<Rightarrow> MessageWidget \<Rightarrow> string \<Rightarrow> Vector3d \<Rightarrow> (bool \<times> MessageWidget) option" where
  "SetVector3dWidgetValue h st name v =
     (case find_widget st name of
        Some p \<Rightarrow> modify st p (\<lambda>w. UpdateVector3dWidget h w v)
      | None \<Rightarrow> Some (False, st))"

definition SetColorWidgetValue ::
  "MessageWidget \<Rightarrow> string \<Rightarrow> Color \<Rightarrow> (bool \<times> MessageWidget) option" where
  "SetColorWidgetValue st name v =
     (case find_widget st name of
        Some p \<Rightarrow> modify st p (\<lambda>w. UpdateColorWidget w v)
      | None \<Rightarrow> Some (False, st))"

definition SetPoseWidgetValue ::
  "Helpers \<Rightarrow> MessageWidget \<Rightarrow> string \<Rightarrow> Pose3d \<Rightarrow> (bool \<times> MessageWidget) option" where
  "SetPoseWidgetValue h st name v =
     (case find_widget st name of
        Some p \<Rightarrow> modify st p (\<lambda>w. UpdatePoseWidget h w v)
      | None \<Rightarrow> Some (False, st))"

definition SetGeometryWidgetValue ::
  "MessageWidget \<Rightarrow> string \<Rightarrow> string \<Rightarrow> Vector3d \<Rightarrow> string
     \<Rightarrow> (bool \<times> MessageWidget) option" where
  "SetGeometryWidgetValue st name val dimensions uri =
     (case find_widget st name of
        Some p \<Rightarrow> modify st p (\<lambda>w. UpdateGeometryWidget w val dimensions uri)
      | None \<Rightarrow> Some (False, st))"

definition SetDensityWidgetValue ::
  "Helpers \<Rightarrow> MessageWidget \<Rightarrow> string \<Rightarrow> double \<Rightarrow> (bool \<times> MessageWidget) option" where
  "SetDensityWidgetValue h st name v =
     (case find_widget st name of
        Some p \<Rightarrow> modify st p (\<lambda>w. UpdateDensityWidget h w v)
      | None \<Rightarrow> Some (False, st))"

definition SetEnumWidgetValue ::
  "MessageWidget \<Rightarrow> string \<Rightarrow> string \<Rightarrow> (bool \<times> MessageWidget) option" where
  "SetEnumWidgetValue st name v =
     (case find_widget st name of
        Some p \<Rightarrow> modify st p (\<lambda>w. UpdateEnumWidget w v)
      | None \<Rightarrow> Some (False, st))"

definition IntWidgetValue :: "MessageWidget \<Rightarrow> string \<Rightarrow> int option" where
  "IntWidgetValue st name =
     (case find_widget st name of
        Some p \<Rightarrow> do { w \<leftarrow> deref st p; IntWidgetValue_w w }
      | None \<Rightarrow> Some 0)"

definition UIntWidgetValue :: "MessageWidget \<Rightarrow> string \<Rightarrow> 32 word option" where
  "UIntWidgetValue st name =
     (case find_widget st name of
        Some p \<Rightarrow> do { w \<leftarrow> deref st p; UIntWidgetValue_w w }
      | None \<Rightarrow> Some 0)"

definition DoubleWidgetValue :: "MessageWidget \<Rightarrow> string \<Rightarrow> double option" where
  "DoubleWidgetValue st name =
     (case find_widget st name of
        Some p \<Rightarrow> do { w \<leftarrow> deref st p; DoubleWidgetValue_w w }
      | None \<Rightarrow> Some 0)"

definition BoolWidgetValue :: "MessageWidget \<Rightarrow> string \<Rightarrow> bool option" where
  "BoolWidgetValue st name =
     (case find_widget st name of
        None \<Rightarrow> Some False
      | Some p \<Rightarrow> do {
          w \<leftarrow> deref st p;
          if cls w \<noteq> BoolWidgetC then Some False else BoolWidget_Value w })"

definition StringWidgetValue :: "MessageWidget \<Rightarrow> string \<Rightarrow> string option" where
  "StringWidgetValue st name =
     (case find_widget st name of
        Some p \<Rightarrow> do { w \<leftarrow> deref st p; StringWidgetValue_w w }
      | None \<Rightarrow> Some [])"

definition Vector3dWidgetValue :: "MessageWidget \<Rightarrow> string \<Rightarrow> Vector3d option" where
  "Vector3dWidgetValue st name =
     (case find_widget st name of
        Some p \<Rightarrow> do { w \<leftarrow> deref st p; Vector3dWidgetValue_w w }
      | None \<Rightarrow> Some Vector3d_Zero)"

definition ColorWidgetValue :: "MessageWidget \<Rightarrow> string \<Rightarrow> Color option" where
  "ColorWidgetValue st name =
     (case find_widget st name of
        Some p \<Rightarrow> do { w \<leftarrow> deref st p; ColorWidgetValue_w w }
      | None \<Rightarrow> Some Color_Default)"

definition PoseWidgetValue :: "Helpers \<Rightarrow> MessageWidget \<Rightarrow> string \<Rightarrow> Pose3d option" where
  "PoseWidgetValue h st name =
     (case find_widget st name of
        Some p \<Rightarrow> do { w \<leftarrow> deref st p; PoseWidgetValue_w h w }
      | None \<Rightarrow> Some Pose3d_Zero)"

definition DensityWidgetValue :: "MessageWidget \<Rightarrow> string \<Rightarrow> double option" where
  "DensityWidgetValue st name =
     (case find_widget st name of
        Some p \<Rightarrow> do {
          w \<leftarrow> deref st p;
          Some (if cls w = DensityWidgetC then density w else 0) }
      | None \<Rightarrow> Some 0)"

definition GeometryWidgetValue ::
  "MessageWidget \<Rightarrow> string \<Rightarrow> Vector3d \<Rightarrow> string \<Rightarrow> (string \<times> Vector3d \<times> string) option" where
  "GeometryWidgetValue st name dimensions uri =
     (case find_widget st name of
        Some p \<Rightarrow> do { w \<leftarrow> deref st p; GeometryWidgetValue_w w dimensions uri }
      | None \<Rightarrow> Some ([], dimensions, uri))"

section \<open>The registry\<close>

text \<open>
  \<^verbatim>\<open>AddPropertyWidget\<close>: the child is a pointer, null (\<open>None\<close>) or an address. The name is
  written into the widget, and the pair is inserted into the map.
\<close>

definition AddPropertyWidget ::
  "MessageWidget \<Rightarrow> string \<Rightarrow> nat option \<Rightarrow> (bool \<times> MessageWidget) option" where
  "AddPropertyWidget st name child =
     (if name = [] \<or> child = None then Some (False, st)
      else if find_widget st name \<noteq> None then Some (False, st)
      else do {
        w \<leftarrow> deref st (the child);
        Some (True, (store (the child) (w\<lparr>scopedName := name\<rparr>) st)
                      \<lparr>configWidgets := (name, the child) # configWidgets st\<rparr>) })"

definition PropertyWidgetCount :: "MessageWidget \<Rightarrow> nat" where
  "PropertyWidgetCount st = length (configWidgets st)"

definition PropertyWidgetByName :: "MessageWidget \<Rightarrow> string \<Rightarrow> nat option" where
  "PropertyWidgetByName st name = find_widget st name"


section \<open>Creating property widgets\<close>

text \<open>
  \<^verbatim>\<open>new QDoubleSpinBox; setRange(lo, hi); setDecimals(d)\<close>, step by step: a new double
  spin box has the range 0 to 99.99, two decimals and the value 0, and each call rounds
  and bounds what is there.
\<close>

definition QDoubleSpinBox_create :: "double \<Rightarrow> double \<Rightarrow> nat \<Rightarrow> QWidget" where
  "QDoubleSpinBox_create lo hi d =
     (let lo2 = round_dec 2 lo; hi2 = max lo2 (round_dec 2 hi); v1 = bound lo2 hi2 0;
          lo' = round_dec d lo; hi' = max lo' (round_dec d hi)
      in QDoubleSpinBox lo' hi' d (bound lo' hi' (round_dec d v1)))"

text \<open>The same followed by \<^verbatim>\<open>setValue(v)\<close>.\<close>

definition QDoubleSpinBox_create_val :: "double \<Rightarrow> double \<Rightarrow> nat \<Rightarrow> double \<Rightarrow> QWidget" where
  "QDoubleSpinBox_create_val lo hi d v =
     (let lo' = round_dec d lo; hi' = max lo' (round_dec d hi)
      in QDoubleSpinBox lo' hi' d (bound lo' hi' (round_dec d v)))"

text \<open>A combo box filled by \<^verbatim>\<open>addItem\<close>: its first item becomes the current one.\<close>

definition QComboBox_create :: "string list \<Rightarrow> QWidget" where
  "QComboBox_create its = QComboBox its (if its = [] then -1 else 0)"

definition CreateUIntWidget :: "string \<Rightarrow> int \<Rightarrow> PropertyWidget" where
  "CreateUIntWidget k level =
     (new_PropertyWidget PropertyWidgetC)\<lparr>widgets := [new_QSpinBox 0 100000000]\<rparr>"

definition CreateIntWidget :: "string \<Rightarrow> int \<Rightarrow> PropertyWidget" where
  "CreateIntWidget k level =
     (new_PropertyWidget PropertyWidgetC)\<lparr>widgets := [new_QSpinBox (-100000000) 100000000]\<rparr>"

text \<open>\<^verbatim>\<open>CreateDoubleWidget\<close> looks the enum widget named \<^verbatim>\<open>type\<close> up for the unit.\<close>

definition CreateDoubleWidget ::
  "Helpers \<Rightarrow> MessageWidget \<Rightarrow> string \<Rightarrow> int \<Rightarrow> PropertyWidget option" where
  "CreateDoubleWidget h st k level = do {
     jointType \<leftarrow> EnumWidgetValue st ''type'';
     Some ((new_PropertyWidget PropertyWidgetC)
             \<lparr>widgets := [QDoubleSpinBox_create (fst (rangeFromKey h k)) (snd (rangeFromKey h k)) 8],
              key := k, unitLabel := True\<rparr>) }"

text \<open>\<^verbatim>\<open>CreateStringWidget\<close> returns a null pointer (\<open>None\<close>) for an unknown type.\<close>

definition CreateStringWidget :: "string \<Rightarrow> int \<Rightarrow> string \<Rightarrow> PropertyWidget option" where
  "CreateStringWidget k level ty =
     (if ty = ''plain''
      then Some ((new_PropertyWidget PropertyWidgetC)\<lparr>widgets := [QPlainTextEdit []]\<rparr>)
      else if ty = ''line''
      then Some ((new_PropertyWidget PropertyWidgetC)\<lparr>widgets := [QLineEdit []]\<rparr>)
      else None)"

definition CreateVector3dWidget :: "Helpers \<Rightarrow> string \<Rightarrow> int \<Rightarrow> PropertyWidget" where
  "CreateVector3dWidget h k level =
     (let lo = fst (rangeFromKey h k); hi = snd (rangeFromKey h k)
      in (new_PropertyWidget PropertyWidgetC)
           \<lparr>widgets := [QDoubleSpinBox_create lo hi 6, QDoubleSpinBox_create lo hi 6,
                        QDoubleSpinBox_create lo hi 6,
                        QComboBox_create [''Custom'', '' X'', ''-X'', '' Y'', ''-Y'', '' Z'', ''-Z'']]\<rparr>)"

definition CreateColorWidget :: "Helpers \<Rightarrow> string \<Rightarrow> int \<Rightarrow> PropertyWidget" where
  "CreateColorWidget h k level =
     (new_PropertyWidget PropertyWidgetC)
       \<lparr>widgets := [QDoubleSpinBox_create 0 1 3, QDoubleSpinBox_create 0 1 3,
                    QDoubleSpinBox_create 0 1 3, QDoubleSpinBox_create 0 1 3]\<rparr>"

definition CreatePoseWidget :: "Helpers \<Rightarrow> string \<Rightarrow> int \<Rightarrow> PropertyWidget" where
  "CreatePoseWidget h k level =
     (let lo = fst (rangeFromKey h []); hi = snd (rangeFromKey h [])
      in (new_PropertyWidget PropertyWidgetC)
           \<lparr>widgets := replicate 6 (QDoubleSpinBox_create lo hi 6)\<rparr>)"

definition CreateGeometryWidget :: "Helpers \<Rightarrow> string \<Rightarrow> int \<Rightarrow> PropertyWidget" where
  "CreateGeometryWidget h k level =
     (let lo = fst (rangeFromKey h ''length''); hi = snd (rangeFromKey h ''length'')
      in (new_PropertyWidget GeometryWidgetC)
           \<lparr>widgets := [QComboBox_create [''box'', ''cylinder'', ''sphere'', ''mesh'', ''polyline''],
                        QDoubleSpinBox_create_val lo hi 6 1,
                        QDoubleSpinBox_create_val lo hi 6 1,
                        QDoubleSpinBox_create_val lo hi 6 1,
                        QDoubleSpinBox_create_val lo hi 6 (1 / 2),
                        QDoubleSpinBox_create_val lo hi 6 1,
                        QLineEdit [],
                        QPushButton]\<rparr>)"

definition CreateEnumWidget :: "string \<Rightarrow> string list \<Rightarrow> int \<Rightarrow> PropertyWidget" where
  "CreateEnumWidget k vals level =
     (new_PropertyWidget EnumWidgetC)\<lparr>widgets := [QComboBox_create (map tr_c_str vals)]\<rparr>"

text \<open>
  \<^verbatim>\<open>CreateDensityWidget\<close> leaves the member \<^verbatim>\<open>density\<close> uninitialised; \<^verbatim>\<open>Parse\<close> sets it
  at once through \<^verbatim>\<open>UpdateDensityWidget\<close>. The model starts it at 0.
\<close>

definition CreateDensityWidget :: "Helpers \<Rightarrow> string \<Rightarrow> int \<Rightarrow> PropertyWidget" where
  "CreateDensityWidget h k level =
     (let lo = fst (rangeFromKey h ''density''); hi = snd (rangeFromKey h ''density'')
      in (new_PropertyWidget DensityWidgetC)
           \<lparr>widgets := [QComboBox_create [''Custom...''], QDoubleSpinBox_create_val lo hi 1 1]\<rparr>)"

text \<open>
  \<^verbatim>\<open>CreateGroupWidget\<close> wraps the child in a new group widget, which starts collapsed:
  \<^verbatim>\<open>Toggle(false)\<close> hides the child.
\<close>

definition CreateGroupWidget :: "string \<Rightarrow> PropertyWidget \<Rightarrow> int \<Rightarrow> PropertyWidget" where
  "CreateGroupWidget name childWidget level =
     childWidget\<lparr>groupWidget := Some (True, True), visible := False\<rparr>"

section \<open>Messages and their reflection\<close>

text \<open>
  A message is the list of the fields of its descriptor, each with its name, its label,
  its has-bit and its value; the constructor of the value is the field's type. A field
  of message type carries the name of the message type and the sub-message, present in
  the tree whether the has-bit is set or not, as \<^verbatim>\<open>MutableMessage\<close> would return it. An
  enum field carries the value names of its enum type and the index of its value.
  \<open>TYPE_OTHER\<close> stands for the field types the file has no case for. The value of a
  repeated field is not looked at.

  The reflection calls fail fatally on a field of another type or label: \<open>None\<close>.
\<close>

fun FindFieldByName :: "Message \<Rightarrow> string \<Rightarrow> nat option" where
  "FindFieldByName [] n = None"
| "FindFieldByName (f # fs) n =
     (if fname f = n then Some 0 else map_option Suc (FindFieldByName fs n))"

definition GetDouble :: "Field \<Rightarrow> double option" where
  "GetDouble f =
     (if is_repeated f then None
      else case fval f of TYPE_DOUBLE d \<Rightarrow> Some d | _ \<Rightarrow> None)"

definition GetFloat :: "Field \<Rightarrow> double option" where
  "GetFloat f =
     (if is_repeated f then None
      else case fval f of TYPE_FLOAT d \<Rightarrow> Some d | _ \<Rightarrow> None)"

text \<open>\<^verbatim>\<open>GetEnum\<close>: the name of the value, or a null value descriptor (\<open>Some None\<close>).\<close>

definition GetEnum :: "Field \<Rightarrow> string option option" where
  "GetEnum f =
     (if is_repeated f then None
      else case fval f of
             TYPE_ENUM names i \<Rightarrow> Some (if i < length names then Some (names ! i) else None)
           | _ \<Rightarrow> None)"

text \<open>\<^verbatim>\<open>MutableMessage\<close> returns the sub-message and sets the has-bit of the field.\<close>

definition MutableMessage :: "Field \<Rightarrow> Message option" where
  "MutableMessage f =
     (if is_repeated f then None
      else case fval f of TYPE_MESSAGE t sub \<Rightarrow> Some sub | _ \<Rightarrow> None)"

definition message_type :: "Field \<Rightarrow> string" where
  "message_type f = (case fval f of TYPE_MESSAGE t sub \<Rightarrow> t | _ \<Rightarrow> [])"

definition is_message :: "Field \<Rightarrow> bool" where
  "is_message f = (case fval f of TYPE_MESSAGE t sub \<Rightarrow> True | _ \<Rightarrow> False)"

text \<open>The field after \<^verbatim>\<open>MutableMessage\<close> and the writes made to the sub-message.\<close>

definition with_sub :: "Field \<Rightarrow> Message \<Rightarrow> Field" where
  "with_sub f sub = Field (fname f) (is_repeated f) True (TYPE_MESSAGE (message_type f) sub)"

definition SetDouble :: "double \<Rightarrow> Field \<Rightarrow> Field option" where
  "SetDouble d f =
     (if is_repeated f then None
      else case fval f of
             TYPE_DOUBLE _ \<Rightarrow> Some (Field (fname f) False True (TYPE_DOUBLE d))
           | _ \<Rightarrow> None)"

definition SetFloat :: "double \<Rightarrow> Field \<Rightarrow> Field option" where
  "SetFloat d f =
     (if is_repeated f then None
      else case fval f of
             TYPE_FLOAT _ \<Rightarrow> Some (Field (fname f) False True (TYPE_FLOAT d))
           | _ \<Rightarrow> None)"

definition SetString :: "string \<Rightarrow> Field \<Rightarrow> Field option" where
  "SetString s f =
     (if is_repeated f then None
      else case fval f of
             TYPE_STRING _ \<Rightarrow> Some (Field (fname f) False True (TYPE_STRING s))
           | _ \<Rightarrow> None)"

text \<open>\<^verbatim>\<open>FindValueByName\<close> of an enum descriptor: the index of the name, if any.\<close>

fun FindValueByName :: "string list \<Rightarrow> string \<Rightarrow> nat option" where
  "FindValueByName [] n = None"
| "FindValueByName (x # xs) n =
     (if x = n then Some 0 else map_option Suc (FindValueByName xs n))"

text \<open>
  \<^verbatim>\<open>SetEnum\<close> with the value descriptor found by \<^verbatim>\<open>FindValueByName\<close>; a null descriptor is
  dereferenced by the call.
\<close>

definition SetEnum :: "string \<Rightarrow> Field \<Rightarrow> Field option" where
  "SetEnum n f =
     (if is_repeated f then None
      else case fval f of
             TYPE_ENUM names _ \<Rightarrow>
               (case FindValueByName names n of
                  Some i \<Rightarrow> Some (Field (fname f) False True (TYPE_ENUM names i))
                | None \<Rightarrow> None)
           | _ \<Rightarrow> None)"

text \<open>Writing the field at an index of a message.\<close>

definition upd_field :: "nat \<Rightarrow> (Field \<Rightarrow> Field option) \<Rightarrow> Message \<Rightarrow> Message option" where
  "upd_field i g m = do { f \<leftarrow> vat m i; f' \<leftarrow> g f; Some (m[i := f']) }"

text \<open>\<^verbatim>\<open>toLower\<close> and \<^verbatim>\<open>toUpper\<close> of a \<^verbatim>\<open>QString\<close>, on the letters of ASCII.\<close>

definition toLower :: "string \<Rightarrow> string" where
  "toLower s =
     map (\<lambda>c. let n = (of_char c :: nat) in if 65 \<le> n \<and> n \<le> 90 then char_of (n + 32) else c) s"

definition toUpper :: "string \<Rightarrow> string" where
  "toUpper s =
     map (\<lambda>c. let n = (of_char c :: nat) in if 97 \<le> n \<and> n \<le> 122 then char_of (n - 32) else c) s"

definition scoped :: "string \<Rightarrow> string \<Rightarrow> string" where
  "scoped name n = (if name = [] then n else name @ ''::'' @ n)"

section \<open>Parse: from the message to the widgets\<close>

definition ParseVector3d :: "Message \<Rightarrow> Vector3d option" where
  "ParseVector3d m = do {
     f0 \<leftarrow> vat m 0; x \<leftarrow> GetDouble f0;
     f1 \<leftarrow> vat m 1; y \<leftarrow> GetDouble f1;
     f2 \<leftarrow> vat m 2; z \<leftarrow> GetDouble f2;
     Some (Vector3d x y z) }"

text \<open>
  The loop over the fields of a geometry message that finds the dimensions. It stops at
  the first box, mesh, cylinder or sphere sub-message that is set. Reading the size of a
  box or mesh goes through \<^verbatim>\<open>MutableMessage\<close>, which sets the has-bit of the size.
\<close>

fun geometry_dimensions :: "Message \<Rightarrow> (Vector3d \<times> Message) option" where
  "geometry_dimensions [] = Some (Vector3d 0 0 0, [])"
| "geometry_dimensions (g # gs) =
     (if is_repeated g \<or> \<not> is_message g \<or> \<not> HasField g
      then do { (d, gs') \<leftarrow> geometry_dimensions gs; Some (d, g # gs') }
      else do {
        geomValueMsg \<leftarrow> MutableMessage g;
        let geomMsgName = message_type g;
        if geomMsgName = ''BoxGeom'' \<or> geomMsgName = ''MeshGeom'' then do {
          let fieldIdx = (if geomMsgName = ''BoxGeom'' then 0 else 1);
          sizeField \<leftarrow> vat geomValueMsg fieldIdx;
          geomDimMsg \<leftarrow> MutableMessage sizeField;
          d \<leftarrow> ParseVector3d geomDimMsg;
          Some (d, with_sub g (geomValueMsg[fieldIdx := with_sub sizeField geomDimMsg]) # gs) }
        else if geomMsgName = ''CylinderGeom'' then do {
          ri \<leftarrow> FindFieldByName geomValueMsg ''radius'';
          rf \<leftarrow> vat geomValueMsg ri;
          radius \<leftarrow> GetDouble rf;
          li \<leftarrow> FindFieldByName geomValueMsg ''length'';
          lf \<leftarrow> vat geomValueMsg li;
          len \<leftarrow> GetDouble lf;
          Some (Vector3d (radius * 2) (radius * 2) len, with_sub g geomValueMsg # gs) }
        else if geomMsgName = ''SphereGeom'' then do {
          ri \<leftarrow> FindFieldByName geomValueMsg ''radius'';
          rf \<leftarrow> vat geomValueMsg ri;
          radius \<leftarrow> GetDouble rf;
          Some (Vector3d (radius * 2) (radius * 2) (radius * 2), with_sub g geomValueMsg # gs) }
        else do {
          (d, gs') \<leftarrow> geometry_dimensions gs;
          Some (d, with_sub g geomValueMsg # gs') } })"

text \<open>
  The geometry case of \<^verbatim>\<open>Parse\<close>: the type and the dimensions to show, or nothing when
  the type field is not set, and the message after the reads.
\<close>

definition Parse_Geometry :: "Message \<Rightarrow> ((string \<times> Vector3d) option \<times> Message) option" where
  "Parse_Geometry valueMsg = do {
     ti \<leftarrow> FindFieldByName valueMsg ''type'';
     typeField \<leftarrow> vat valueMsg ti;
     if is_repeated typeField then None
     else if HasField typeField then do {
       typeValue \<leftarrow> GetEnum typeField;
       let geometryTypeStr = (case typeValue of Some n \<Rightarrow> toLower n | None \<Rightarrow> []);
       (dimensions, valueMsg') \<leftarrow> geometry_dimensions valueMsg;
       Some (Some (geometryTypeStr, dimensions), valueMsg') }
     else Some (None, valueMsg) }"

text \<open>The pose case: the loop over the fields of the pose message.\<close>

fun Parse_Pose :: "Message \<Rightarrow> Pose3d \<Rightarrow> (Pose3d \<times> Message) option" where
  "Parse_Pose [] v = Some (v, [])"
| "Parse_Pose (f # fs) v =
     (if \<not> is_message f
      then do { (v', fs') \<leftarrow> Parse_Pose fs v; Some (v', f # fs') }
      else if message_type f = ''Vector3d'' then do {
        posValueMsg \<leftarrow> MutableMessage f;
        vec3 \<leftarrow> ParseVector3d posValueMsg;
        (v', fs') \<leftarrow> Parse_Pose fs (Pose3d vec3 (Rot v));
        Some (v', with_sub f posValueMsg # fs') }
      else if message_type f = ''Quaternion'' then do {
        quatValueMsg \<leftarrow> MutableMessage f;
        f0 \<leftarrow> vat quatValueMsg 0; q0 \<leftarrow> GetDouble f0;
        f1 \<leftarrow> vat quatValueMsg 1; q1 \<leftarrow> GetDouble f1;
        f2 \<leftarrow> vat quatValueMsg 2; q2 \<leftarrow> GetDouble f2;
        f3 \<leftarrow> vat quatValueMsg 3; q3 \<leftarrow> GetDouble f3;
        (v', fs') \<leftarrow> Parse_Pose fs (Pose3d (Pos v) (Quaterniond q3 q0 q1 q2));
        Some (v', with_sub f quatValueMsg # fs') }
      else do { (v', fs') \<leftarrow> Parse_Pose fs v; Some (v', f # fs') })"

text \<open>
  The color case reads as many fields as the widget has child widgets, an unset field as
  0, and then the first four values.
\<close>

fun Parse_Color_values :: "Message \<Rightarrow> nat \<Rightarrow> nat \<Rightarrow> double list option" where
  "Parse_Color_values m j 0 = Some []"
| "Parse_Color_values m j (Suc n) = do {
     valueField \<leftarrow> vat m j;
     v \<leftarrow> (if is_repeated valueField then None
           else if HasField valueField then GetFloat valueField else Some 0);
     vs \<leftarrow> Parse_Color_values m (Suc j) n;
     Some (v # vs) }"

definition Parse_Color :: "Message \<Rightarrow> nat \<Rightarrow> Color option" where
  "Parse_Color m n = do {
     vals \<leftarrow> Parse_Color_values m 0 n;
     r \<leftarrow> vat vals 0; g \<leftarrow> vat vals 1; b \<leftarrow> vat vals 2; a \<leftarrow> vat vals 3;
     Some (Color r g b a) }"

text \<open>The density case: the value of the field named \<^verbatim>\<open>density\<close>, 1 without one.\<close>

fun Parse_Density :: "Message \<Rightarrow> double \<Rightarrow> double option" where
  "Parse_Density [] d = Some d"
| "Parse_Density (f # fs) d =
     (if fname f = ''density'' then do { d' \<leftarrow> GetDouble f; Parse_Density fs d' }
      else Parse_Density fs d)"

text \<open>
  What every case of the switch of \<^verbatim>\<open>Parse\<close> does with its widget. A field whose scoped
  name is in the map updates the widget found there and adds nothing. Otherwise the
  widget is created (\<open>create\<close> is the result of the constructor, \<open>None\<close> when it fails),
  updated, wrapped in a group widget if the field is of message type, put among the new
  widgets and added to the map under the scoped name.
\<close>

definition group_widget :: "MessageWidget \<Rightarrow> nat \<Rightarrow> string \<Rightarrow> int \<Rightarrow> MessageWidget option" where
  "group_widget st p name level = do {
     w \<leftarrow> deref st p;
     Some (store p (CreateGroupWidget name w level) st) }"

definition Parse_leaf ::
  "MessageWidget \<Rightarrow> string \<Rightarrow> string \<Rightarrow> int \<Rightarrow> bool \<Rightarrow> PropertyWidget option
     \<Rightarrow> (MessageWidget \<Rightarrow> nat \<Rightarrow> (bool \<times> MessageWidget) option)
     \<Rightarrow> (nat option \<times> MessageWidget) option" where
  "Parse_leaf st name n level grouped create update =
     (case find_widget st (scoped name n) of
        Some p \<Rightarrow> do { (_, st1) \<leftarrow> update st p; Some (None, st1) }
      | None \<Rightarrow> do {
          w \<leftarrow> create;
          (p, st1) \<leftarrow> Some (alloc w st);
          (_, st2) \<leftarrow> update st1 p;
          st3 \<leftarrow> (if grouped then group_widget st2 p n level else Some st2);
          (_, st4) \<leftarrow> AddPropertyWidget st3 (scoped name n) (Some p);
          Some (Some p, st4) })"

text \<open>The cases of the scalar, string and enum types; the other types have no case.\<close>

definition Parse_scalar ::
  "Helpers \<Rightarrow> MessageWidget \<Rightarrow> string \<Rightarrow> string \<Rightarrow> int \<Rightarrow> FieldValue
     \<Rightarrow> (nat option \<times> MessageWidget) option" where
  "Parse_scalar h st name n level v =
     (case v of
        TYPE_DOUBLE d \<Rightarrow>
          Parse_leaf st name n level False (CreateDoubleWidget h st n level)
            (\<lambda>s p. UpdateDoubleWidget s p d)
      | TYPE_FLOAT d \<Rightarrow>
          Parse_leaf st name n level False (CreateDoubleWidget h st n level)
            (\<lambda>s p. UpdateDoubleWidget s p d)
      | TYPE_INT64 i \<Rightarrow>
          Parse_leaf st name n level False (Some (CreateIntWidget n level))
            (\<lambda>s p. modify s p (\<lambda>w. UpdateIntWidget w (ucast i)))
      | TYPE_UINT64 i \<Rightarrow>
          Parse_leaf st name n level False (Some (CreateUIntWidget n level))
            (\<lambda>s p. modify s p (\<lambda>w. UpdateUIntWidget w (ucast i)))
      | TYPE_INT32 i \<Rightarrow>
          Parse_leaf st name n level False (Some (CreateIntWidget n level))
            (\<lambda>s p. modify s p (\<lambda>w. UpdateIntWidget w i))
      | TYPE_UINT32 i \<Rightarrow>
          Parse_leaf st name n level False (Some (CreateUIntWidget n level))
            (\<lambda>s p. modify s p (\<lambda>w. UpdateUIntWidget w i))
      | TYPE_BOOL b \<Rightarrow>
          Parse_leaf st name n level False (Some BoolWidget_new)
            (\<lambda>s p. do {
               w \<leftarrow> deref s p;
               if cls w = BoolWidgetC then modify s p (\<lambda>w. BoolWidget_SetValue w b)
               else Some (False, s) })
      | TYPE_STRING t \<Rightarrow>
          Parse_leaf st name n level False
            (CreateStringWidget n level (if n = ''innerxml'' then ''plain'' else ''line''))
            (\<lambda>s p. modify s p (\<lambda>w. UpdateStringWidget w t))
      | TYPE_ENUM names i \<Rightarrow>
          (if i < length names
           then Parse_leaf st name n level False (Some (CreateEnumWidget n names level))
                  (\<lambda>s p. modify s p (\<lambda>w. UpdateEnumWidget w (names ! i)))
           else Some (None, st))
      | _ \<Rightarrow> Some (None, st))"

text \<open>The message types with a widget of their own.\<close>

definition special_types :: "string list" where
  "special_types = [''Geometry'', ''Pose'', ''Vector3d'', ''Color'', ''Density'']"

definition Parse_special ::
  "Helpers \<Rightarrow> MessageWidget \<Rightarrow> string \<Rightarrow> string \<Rightarrow> int \<Rightarrow> string \<Rightarrow> Message
     \<Rightarrow> (Message \<times> nat option \<times> MessageWidget) option" where
  "Parse_special h st name n level t valueMsg =
     (if t = ''Geometry'' then do {
        (shown, valueMsg') \<leftarrow> Parse_Geometry valueMsg;
        (nw, st') \<leftarrow>
          Parse_leaf st name n level True (Some (CreateGeometryWidget h n level))
            (\<lambda>s p. case shown of
                     None \<Rightarrow> Some (False, s)
                   | Some (ty, dims) \<Rightarrow> modify s p (\<lambda>w. UpdateGeometryWidget w ty dims []));
        Some (valueMsg', nw, st') }
      else if t = ''Pose'' then do {
        (pose, valueMsg') \<leftarrow> Parse_Pose valueMsg Pose3d_Zero;
        (nw, st') \<leftarrow>
          Parse_leaf st name n level True (Some (CreatePoseWidget h n level))
            (\<lambda>s p. modify s p (\<lambda>w. UpdatePoseWidget h w pose));
        Some (valueMsg', nw, st') }
      else if t = ''Vector3d'' then do {
        vec3 \<leftarrow> ParseVector3d valueMsg;
        (nw, st') \<leftarrow>
          Parse_leaf st name n level True (Some (CreateVector3dWidget h n level))
            (\<lambda>s p. modify s p (\<lambda>w. UpdateVector3dWidget h w vec3));
        Some (valueMsg, nw, st') }
      else if t = ''Color'' then do {
        (nw, st') \<leftarrow>
          Parse_leaf st name n level True (Some (CreateColorWidget h n level))
            (\<lambda>s p. do {
               w \<leftarrow> deref s p;
               color \<leftarrow> Parse_Color valueMsg (length (widgets w));
               modify s p (\<lambda>w. UpdateColorWidget w color) });
        Some (valueMsg, nw, st') }
      else do {
        d \<leftarrow> Parse_Density valueMsg 1;
        (nw, st') \<leftarrow>
          Parse_leaf st name n level True (Some (CreateDensityWidget h n level))
            (\<lambda>s p. modify s p (\<lambda>w. UpdateDensityWidget h w d));
        Some (valueMsg, nw, st') })"

text \<open>
  \<^verbatim>\<open>Parse\<close> walks the fields of the message; \<open>Parse_field\<close> is the body of its loop. The
  result is the message after the walk (\<^verbatim>\<open>MutableMessage\<close> sets has-bits), the new widgets
  in the order of their creation (the group box returned holds them; the null pointer is
  returned when there is none) and the state. A repeated field is skipped, and so is, in
  update mode, a field that is not set. A message type without a widget of its own is
  walked recursively under the scoped name, one level deeper; if that walk made new
  widgets, a property widget is made around its group box.
\<close>

fun Parse ::
  "Helpers \<Rightarrow> bool \<Rightarrow> string \<Rightarrow> int \<Rightarrow> Message \<Rightarrow> MessageWidget
     \<Rightarrow> (Message \<times> nat list \<times> MessageWidget) option"
and Parse_field ::
  "Helpers \<Rightarrow> bool \<Rightarrow> string \<Rightarrow> int \<Rightarrow> Field \<Rightarrow> MessageWidget
     \<Rightarrow> (Field \<times> nat option \<times> MessageWidget) option" where
  "Parse h update name level [] st = Some ([], [], st)"
| "Parse h update name level (f # fs) st = do {
     (f', nw, st1) \<leftarrow> Parse_field h update name level f st;
     (fs', nws, st2) \<leftarrow> Parse h update name level fs st1;
     Some (f' # fs', (case nw of Some p \<Rightarrow> p # nws | None \<Rightarrow> nws), st2) }"
| "Parse_field h update name level (Field n rep has (TYPE_MESSAGE t sub)) st =
     (if rep \<or> (update \<and> \<not> has) then Some (Field n rep has (TYPE_MESSAGE t sub), None, st)
      else if t \<in> set special_types then do {
        (sub', nw, st') \<leftarrow> Parse_special h st name n level t sub;
        Some (Field n rep True (TYPE_MESSAGE t sub'), nw, st') }
      else do {
        (sub', nws, st1) \<leftarrow> Parse h update (scoped name n) (level + 1) sub st;
        if nws = [] then Some (Field n rep True (TYPE_MESSAGE t sub'), None, st1)
        else do {
          (p, st2) \<leftarrow>
            Some (alloc ((new_PropertyWidget PropertyWidgetC)\<lparr>widgets := [QGroupBox nws]\<rparr>) st1);
          if find_widget st (scoped name n) = None then do {
            st3 \<leftarrow> group_widget st2 p n level;
            (_, st4) \<leftarrow> AddPropertyWidget st3 (scoped name n) (Some p);
            Some (Field n rep True (TYPE_MESSAGE t sub'), Some p, st4) }
          else Some (Field n rep True (TYPE_MESSAGE t sub'), None, st2) } })"
| "Parse_field h update name level (Field n rep has v) st =
     (if rep \<or> (update \<and> \<not> has) then Some (Field n rep has v, None, st)
      else do {
        (nw, st') \<leftarrow> Parse_scalar h st name n level v;
        Some (Field n rep has v, nw, st') })"

text \<open>
  The descriptor of a message: its fields with their names, labels and types, down the
  sub-messages, the values and has-bits erased. \<^verbatim>\<open>CopyFrom\<close> needs a message of the same
  descriptor.
\<close>

fun erase_value :: "FieldValue \<Rightarrow> FieldValue"
and erase_field :: "Field \<Rightarrow> Field" where
  "erase_value (TYPE_DOUBLE _) = TYPE_DOUBLE 0"
| "erase_value (TYPE_FLOAT _) = TYPE_FLOAT 0"
| "erase_value (TYPE_INT64 _) = TYPE_INT64 0"
| "erase_value (TYPE_UINT64 _) = TYPE_UINT64 0"
| "erase_value (TYPE_INT32 _) = TYPE_INT32 0"
| "erase_value (TYPE_UINT32 _) = TYPE_UINT32 0"
| "erase_value (TYPE_BOOL _) = TYPE_BOOL False"
| "erase_value (TYPE_STRING _) = TYPE_STRING []"
| "erase_value (TYPE_MESSAGE t sub) = TYPE_MESSAGE t (map erase_field sub)"
| "erase_value (TYPE_ENUM names _) = TYPE_ENUM names 0"
| "erase_value TYPE_OTHER = TYPE_OTHER"
| "erase_field (Field n rep has v) = Field n rep False (erase_value v)"

definition GetDescriptor :: "Message \<Rightarrow> Message" where
  "GetDescriptor m = map erase_field m"

definition same_descriptor :: "Message \<Rightarrow> Message \<Rightarrow> bool" where
  "same_descriptor m m' = (GetDescriptor m = GetDescriptor m')"

text \<open>
  \<^verbatim>\<open>Load\<close> makes a new message object, copies the caller's message into it and parses
  the copy, in place. \<^verbatim>\<open>UpdateFromMsg\<close> copies the caller's message over the copy held,
  which fails without a copy and on a message of another descriptor, and parses the copy
  in update mode.
\<close>

definition Load :: "Helpers \<Rightarrow> MessageWidget \<Rightarrow> nat \<Rightarrow> MessageWidget option" where
  "Load h st a = do {
     m \<leftarrow> vat (messages st) a;
     let b = length (messages st);
     (m', nws, st') \<leftarrow> Parse h False [] 0 m (st\<lparr>messages := messages st @ [m], msg := Some b\<rparr>);
     Some (st'\<lparr>messages := (messages st')[b := m']\<rparr>) }"

definition UpdateFromMsg :: "Helpers \<Rightarrow> MessageWidget \<Rightarrow> nat \<Rightarrow> MessageWidget option" where
  "UpdateFromMsg h st a = do {
     b \<leftarrow> msg st;
     m0 \<leftarrow> vat (messages st) b;
     m \<leftarrow> vat (messages st) a;
     if \<not> same_descriptor m0 m then None
     else do {
       (m', nws, st') \<leftarrow> Parse h True [] 0 m st;
       Some (st'\<lparr>messages := (messages st')[b := m']\<rparr>) } }"

section \<open>UpdateMsg: from the widgets to the message\<close>

definition UpdateVector3dMsg :: "Message \<Rightarrow> Vector3d \<Rightarrow> Message option" where
  "UpdateVector3dMsg m v = do {
     m1 \<leftarrow> upd_field 0 (SetDouble (vX v)) m;
     m2 \<leftarrow> upd_field 1 (SetDouble (vY v)) m1;
     upd_field 2 (SetDouble (vZ v)) m2 }"

text \<open>
  The geometry case of \<^verbatim>\<open>UpdateMsg\<close>: the type shown by the combo box decides what is
  written. The enum value is found by the upper-case name, the sub-message by the name
  of the type, and their fields by index.
\<close>

definition UpdateMsg_Geometry :: "PropertyWidget \<Rightarrow> Message \<Rightarrow> Message option" where
  "UpdateMsg_Geometry w valueMsg = do {
     geomType \<leftarrow> get_child 0 QComboBox_currentText w;
     ti \<leftarrow> FindFieldByName valueMsg ''type'';
     if geomType = ''box'' \<or> geomType = ''mesh'' then do {
       sizeX \<leftarrow> get_child 1 QDoubleSpinBox_value w;
       sizeY \<leftarrow> get_child 2 QDoubleSpinBox_value w;
       sizeZ \<leftarrow> get_child 3 QDoubleSpinBox_value w;
       m1 \<leftarrow> upd_field ti (SetEnum (toUpper geomType)) valueMsg;
       gi \<leftarrow> FindFieldByName m1 geomType;
       gf \<leftarrow> vat m1 gi;
       geomValueMsg \<leftarrow> MutableMessage gf;
       let fieldIdx = (if geomType = ''box'' then 0 else 1);
       df \<leftarrow> vat geomValueMsg fieldIdx;
       geomDimensionMsg \<leftarrow> MutableMessage df;
       dims \<leftarrow> UpdateVector3dMsg geomDimensionMsg (Vector3d sizeX sizeY sizeZ);
       let gvm1 = geomValueMsg[fieldIdx := with_sub df dims];
       gvm2 \<leftarrow>
         (if geomType = ''mesh''
          then do { uri \<leftarrow> get_child 6 QLineEdit_text w; upd_field 0 (SetString uri) gvm1 }
          else Some gvm1);
       Some (m1[gi := with_sub gf gvm2]) }
     else if geomType = ''cylinder'' then do {
       radius \<leftarrow> get_child 4 QDoubleSpinBox_value w;
       len \<leftarrow> get_child 5 QDoubleSpinBox_value w;
       m1 \<leftarrow> upd_field ti (SetEnum ''CYLINDER'') valueMsg;
       gi \<leftarrow> FindFieldByName m1 geomType;
       gf \<leftarrow> vat m1 gi;
       geomValueMsg \<leftarrow> MutableMessage gf;
       gvm1 \<leftarrow> upd_field 0 (SetDouble radius) geomValueMsg;
       gvm2 \<leftarrow> upd_field 1 (SetDouble len) gvm1;
       Some (m1[gi := with_sub gf gvm2]) }
     else if geomType = ''sphere'' then do {
       radius \<leftarrow> get_child 4 QDoubleSpinBox_value w;
       m1 \<leftarrow> upd_field ti (SetEnum ''SPHERE'') valueMsg;
       gi \<leftarrow> FindFieldByName m1 geomType;
       gf \<leftarrow> vat m1 gi;
       geomValueMsg \<leftarrow> MutableMessage gf;
       gvm1 \<leftarrow> upd_field 0 (SetDouble radius) geomValueMsg;
       Some (m1[gi := with_sub gf gvm1]) }
     else if geomType = ''polyline'' then upd_field ti (SetEnum ''POLYLINE'') valueMsg
     else Some valueMsg }"

fun UpdateMsg_Pose :: "Helpers \<Rightarrow> PropertyWidget \<Rightarrow> Message \<Rightarrow> Message option" where
  "UpdateMsg_Pose h w [] = Some []"
| "UpdateMsg_Pose h w (f # fs) =
     (if \<not> is_message f
      then do { fs' \<leftarrow> UpdateMsg_Pose h w fs; Some (f # fs') }
      else if message_type f = ''Vector3d'' then do {
        posValueMsg \<leftarrow> MutableMessage f;
        x \<leftarrow> get_child 0 QDoubleSpinBox_value w;
        y \<leftarrow> get_child 1 QDoubleSpinBox_value w;
        z \<leftarrow> get_child 2 QDoubleSpinBox_value w;
        m' \<leftarrow> UpdateVector3dMsg posValueMsg (Vector3d x y z);
        fs' \<leftarrow> UpdateMsg_Pose h w fs;
        Some (with_sub f m' # fs') }
      else if message_type f = ''Quaternion'' then do {
        quatValueMsg \<leftarrow> MutableMessage f;
        r0 \<leftarrow> get_child 3 QDoubleSpinBox_value w;
        r1 \<leftarrow> get_child 4 QDoubleSpinBox_value w;
        r2 \<leftarrow> get_child 5 QDoubleSpinBox_value w;
        let quat = FromEuler h (Vector3d r0 r1 r2);
        m1 \<leftarrow> upd_field 0 (SetDouble (qX quat)) quatValueMsg;
        m2 \<leftarrow> upd_field 1 (SetDouble (qY quat)) m1;
        m3 \<leftarrow> upd_field 2 (SetDouble (qZ quat)) m2;
        m4 \<leftarrow> upd_field 3 (SetDouble (qW quat)) m3;
        fs' \<leftarrow> UpdateMsg_Pose h w fs;
        Some (with_sub f m4 # fs') }
      else do { fs' \<leftarrow> UpdateMsg_Pose h w fs; Some (f # fs') })"

text \<open>The color case writes one field for each child widget of the widget.\<close>

fun UpdateMsg_Color :: "PropertyWidget \<Rightarrow> nat \<Rightarrow> nat \<Rightarrow> Message \<Rightarrow> Message option" where
  "UpdateMsg_Color w j 0 m = Some m"
| "UpdateMsg_Color w j (Suc k) m = do {
     v \<leftarrow> get_child j QDoubleSpinBox_value w;
     m' \<leftarrow> upd_field j (SetFloat v) m;
     UpdateMsg_Color w (Suc j) k m' }"

definition UpdateMsg_Density :: "PropertyWidget \<Rightarrow> Message \<Rightarrow> Message option" where
  "UpdateMsg_Density w valueMsg =
     (if cls w \<noteq> DensityWidgetC then None
      else do {
        di \<leftarrow> FindFieldByName valueMsg ''density'';
        upd_field di (SetDouble (density w)) valueMsg })"

definition UpdateMsg_special ::
  "Helpers \<Rightarrow> PropertyWidget \<Rightarrow> string \<Rightarrow> Message \<Rightarrow> Message option" where
  "UpdateMsg_special h w t valueMsg =
     (if t = ''Geometry'' then UpdateMsg_Geometry w valueMsg
      else if t = ''Pose'' then UpdateMsg_Pose h w valueMsg
      else if t = ''Vector3d'' then do {
        x \<leftarrow> get_child 0 QDoubleSpinBox_value w;
        y \<leftarrow> get_child 1 QDoubleSpinBox_value w;
        z \<leftarrow> get_child 2 QDoubleSpinBox_value w;
        UpdateVector3dMsg valueMsg (Vector3d x y z) }
      else if t = ''Color'' then UpdateMsg_Color w 0 (length (widgets w)) valueMsg
      else UpdateMsg_Density w valueMsg)"

text \<open>The cases of the scalar, string and enum types: the field as the widget shows it.\<close>

definition UpdateMsg_scalar :: "PropertyWidget \<Rightarrow> string \<Rightarrow> FieldValue \<Rightarrow> (bool \<times> FieldValue) option" where
  "UpdateMsg_scalar w n v =
     (case v of
        TYPE_DOUBLE _ \<Rightarrow> do { d \<leftarrow> get_child 0 QDoubleSpinBox_value w; Some (True, TYPE_DOUBLE d) }
      | TYPE_FLOAT _ \<Rightarrow> do { d \<leftarrow> get_child 0 QDoubleSpinBox_value w; Some (True, TYPE_FLOAT d) }
      | TYPE_INT64 _ \<Rightarrow>
          do { i \<leftarrow> get_child 0 QSpinBox_value w; Some (True, TYPE_INT64 (word_of_int i)) }
      | TYPE_UINT64 _ \<Rightarrow>
          do { i \<leftarrow> get_child 0 QSpinBox_value w; Some (True, TYPE_UINT64 (word_of_int i)) }
      | TYPE_INT32 _ \<Rightarrow>
          do { i \<leftarrow> get_child 0 QSpinBox_value w; Some (True, TYPE_INT32 (word_of_int i)) }
      | TYPE_UINT32 _ \<Rightarrow>
          do { i \<leftarrow> get_child 0 QSpinBox_value w; Some (True, TYPE_UINT32 (word_of_int i)) }
      | TYPE_BOOL _ \<Rightarrow>
          do { b \<leftarrow> get_child 0 QRadioButton_isChecked w; Some (True, TYPE_BOOL b) }
      | TYPE_STRING _ \<Rightarrow> do {
          c \<leftarrow> vat (widgets w) 0;
          Some (case c of
                  QLineEdit t \<Rightarrow> (True, TYPE_STRING t)
                | QPlainTextEdit t \<Rightarrow> (True, TYPE_STRING t)
                | _ \<Rightarrow> (False, v)) }
      | TYPE_ENUM names _ \<Rightarrow> do {
          c \<leftarrow> vat (widgets w) 0;
          (case c of
             QComboBox its idx \<Rightarrow> do {
               valueStr \<leftarrow> QComboBox_currentText c;
               Some (case FindValueByName names valueStr of
                       Some k \<Rightarrow> (True, TYPE_ENUM names k)
                     | None \<Rightarrow> (False, v)) }
           | _ \<Rightarrow> Some (False, v)) }
      | _ \<Rightarrow> Some (False, v))"

text \<open>
  \<^verbatim>\<open>UpdateMsg\<close> walks the fields of the message; \<open>UpdateMsg_field\<close> is the body of its
  loop. It reads the widgets and writes the message only. A repeated field, a field
  whose scoped name is not in the map, and a field whose widget is read-only are left
  as they are.
\<close>

fun UpdateMsg :: "Helpers \<Rightarrow> MessageWidget \<Rightarrow> string \<Rightarrow> Message \<Rightarrow> Message option"
and UpdateMsg_field :: "Helpers \<Rightarrow> MessageWidget \<Rightarrow> string \<Rightarrow> Field \<Rightarrow> Field option" where
  "UpdateMsg h st name [] = Some []"
| "UpdateMsg h st name (f # fs) = do {
     f' \<leftarrow> UpdateMsg_field h st name f;
     fs' \<leftarrow> UpdateMsg h st name fs;
     Some (f' # fs') }"
| "UpdateMsg_field h st name (Field n rep has (TYPE_MESSAGE t sub)) =
     (if rep then Some (Field n rep has (TYPE_MESSAGE t sub))
      else case find_widget st (scoped name n) of
             None \<Rightarrow> Some (Field n rep has (TYPE_MESSAGE t sub))
           | Some p \<Rightarrow> do {
               readOnly \<leftarrow> WidgetReadOnly st (scoped name n);
               if readOnly then Some (Field n rep has (TYPE_MESSAGE t sub))
               else do {
                 childWidget \<leftarrow> deref st p;
                 sub' \<leftarrow> (if t \<in> set special_types then UpdateMsg_special h childWidget t sub
                          else UpdateMsg h st (scoped name n) sub);
                 Some (Field n rep True (TYPE_MESSAGE t sub')) } })"
| "UpdateMsg_field h st name (Field n rep has v) =
     (if rep then Some (Field n rep has v)
      else case find_widget st (scoped name n) of
             None \<Rightarrow> Some (Field n rep has v)
           | Some p \<Rightarrow> do {
               readOnly \<leftarrow> WidgetReadOnly st (scoped name n);
               if readOnly then Some (Field n rep has v)
               else do {
                 childWidget \<leftarrow> deref st p;
                 (written, v') \<leftarrow> UpdateMsg_scalar childWidget n v;
                 Some (Field n rep (has \<or> written) v') } })"

text \<open>\<^verbatim>\<open>Msg\<close> updates the copy from the widgets, in place, and returns the pointer to it.\<close>

definition Msg :: "Helpers \<Rightarrow> MessageWidget \<Rightarrow> (nat \<times> MessageWidget) option" where
  "Msg h st = do {
     b \<leftarrow> msg st;
     m \<leftarrow> vat (messages st) b;
     m' \<leftarrow> UpdateMsg h st [] m;
     Some (b, st\<lparr>messages := (messages st)[b := m']\<rparr>) }"

section \<open>Notions used to state the properties\<close>

text \<open>A value is representable by a spin box when the box holds it unchanged.\<close>

definition representable :: "QWidget \<Rightarrow> double \<Rightarrow> bool" where
  "representable c x = (Option.bind (QDoubleSpinBox_setValue x c) QDoubleSpinBox_value = Some x)"

fun combo_items :: "QWidget \<Rightarrow> string list option" where
  "combo_items (QComboBox its _) = Some its"
| "combo_items _ = None"

definition geometry_types :: "string list" where
  "geometry_types = [''box'', ''cylinder'', ''sphere'', ''mesh'', ''polyline'']"

text \<open>
  A geometry widget as \<^verbatim>\<open>CreateGeometryWidget\<close> builds it: the combo box of the five
  types, five double spin boxes, the line edit of the uri and the file button.
\<close>

definition is_geometry_widget :: "PropertyWidget \<Rightarrow> bool" where
  "is_geometry_widget w =
     (length (widgets w) = 8
      \<and> combo_items (widgets w ! 0) = Some geometry_types
      \<and> QDoubleSpinBox_value (widgets w ! 1) \<noteq> None
      \<and> QDoubleSpinBox_value (widgets w ! 2) \<noteq> None
      \<and> QDoubleSpinBox_value (widgets w ! 3) \<noteq> None
      \<and> QDoubleSpinBox_value (widgets w ! 4) \<noteq> None
      \<and> QDoubleSpinBox_value (widgets w ! 5) \<noteq> None
      \<and> QLineEdit_text (widgets w ! 6) \<noteq> None)"

text \<open>
  The shape of a child widget is the widget without the value it shows; the shape of a
  property widget is its class and the shapes of its child widgets.
\<close>

fun shape :: "QWidget \<Rightarrow> QWidget" where
  "shape (QSpinBox lo hi v) = QSpinBox lo hi 0"
| "shape (QDoubleSpinBox lo hi d v) = QDoubleSpinBox lo hi d 0"
| "shape (QLineEdit t) = QLineEdit []"
| "shape (QPlainTextEdit t) = QPlainTextEdit []"
| "shape (QComboBox its i) = QComboBox its 0"
| "shape (QRadioButton b) = QRadioButton False"
| "shape QPushButton = QPushButton"
| "shape (QGroupBox ps) = QGroupBox ps"

definition widget_shape :: "PropertyWidget \<Rightarrow> WidgetClass \<times> QWidget list" where
  "widget_shape w = (cls w, map shape (widgets w))"

text \<open>The widget \<^verbatim>\<open>Parse\<close> creates for a message type with a widget of its own.\<close>

definition dedicated_widget :: "Helpers \<Rightarrow> string \<Rightarrow> string \<Rightarrow> int \<Rightarrow> PropertyWidget" where
  "dedicated_widget h t n level =
     (if t = ''Geometry'' then CreateGeometryWidget h n level
      else if t = ''Pose'' then CreatePoseWidget h n level
      else if t = ''Vector3d'' then CreateVector3dWidget h n level
      else if t = ''Color'' then CreateColorWidget h n level
      else CreateDensityWidget h n level)"

text \<open>
  The class of a child widget, and the dedicated widgets of the five message types as
  the dispatch claim means them: the class of the property widget and the classes of
  its child widgets, in order. Geometry: the combo box of the types, three size spin
  boxes, the radius and length spin boxes, the line edit of the uri and the file
  button. Pose: six spin boxes. Vector3d: three spin boxes and the preset combo box.
  Color: four spin boxes. Density: the combo box of the materials and a spin box.
\<close>

fun kind :: "QWidget \<Rightarrow> string" where
  "kind (QSpinBox lo hi v) = ''QSpinBox''"
| "kind (QDoubleSpinBox lo hi d v) = ''QDoubleSpinBox''"
| "kind (QLineEdit t) = ''QLineEdit''"
| "kind (QPlainTextEdit t) = ''QPlainTextEdit''"
| "kind (QComboBox its i) = ''QComboBox''"
| "kind (QRadioButton b) = ''QRadioButton''"
| "kind QPushButton = ''QPushButton''"
| "kind (QGroupBox ps) = ''QGroupBox''"

definition layout :: "PropertyWidget \<Rightarrow> WidgetClass \<times> string list" where
  "layout w = (cls w, map kind (widgets w))"

definition composite_layout :: "string \<Rightarrow> WidgetClass \<times> string list" where
  "composite_layout t =
     (if t = ''Geometry''
      then (GeometryWidgetC,
            [''QComboBox'', ''QDoubleSpinBox'', ''QDoubleSpinBox'', ''QDoubleSpinBox'',
             ''QDoubleSpinBox'', ''QDoubleSpinBox'', ''QLineEdit'', ''QPushButton''])
      else if t = ''Pose''
      then (PropertyWidgetC,
            [''QDoubleSpinBox'', ''QDoubleSpinBox'', ''QDoubleSpinBox'',
             ''QDoubleSpinBox'', ''QDoubleSpinBox'', ''QDoubleSpinBox''])
      else if t = ''Vector3d''
      then (PropertyWidgetC,
            [''QDoubleSpinBox'', ''QDoubleSpinBox'', ''QDoubleSpinBox'', ''QComboBox''])
      else if t = ''Color''
      then (PropertyWidgetC,
            [''QDoubleSpinBox'', ''QDoubleSpinBox'', ''QDoubleSpinBox'', ''QDoubleSpinBox''])
      else (DensityWidgetC, [''QComboBox'', ''QDoubleSpinBox'']))"

text \<open>The names bound in the map.\<close>

definition registered :: "MessageWidget \<Rightarrow> string set" where
  "registered st = fst ` set (configWidgets st)"

text \<open>Example values for the closed theorems.\<close>

definition Helpers_example :: Helpers where
  "Helpers_example =
     \<lparr>rangeFromKey = (\<lambda>k. if k = ''length'' \<or> k = ''density'' then (0, 1000000) else (-1000000, 1000000)),
      Vector3d_equal = (=),
      Euler = (\<lambda>q. Vector3d 0 0 0),
      FromEuler = (\<lambda>v. Quaterniond 1 0 0 0),
      Nearest = (\<lambda>d. -1)\<rparr>"

definition Vector3d_msg :: "double \<Rightarrow> double \<Rightarrow> double \<Rightarrow> Message" where
  "Vector3d_msg x y z =
     [Field ''x'' False True (TYPE_DOUBLE x), Field ''y'' False True (TYPE_DOUBLE y),
      Field ''z'' False True (TYPE_DOUBLE z)]"

definition Geometry_msg :: Message where
  "Geometry_msg =
     [Field ''type'' False True (TYPE_ENUM [''BOX'', ''CYLINDER'', ''SPHERE'', ''MESH'', ''POLYLINE''] 0),
      Field ''box'' False True
        (TYPE_MESSAGE ''BoxGeom'' [Field ''size'' False True (TYPE_MESSAGE ''Vector3d'' (Vector3d_msg 1 2 3))]),
      Field ''cylinder'' False False
        (TYPE_MESSAGE ''CylinderGeom''
           [Field ''radius'' False False (TYPE_DOUBLE 0), Field ''length'' False False (TYPE_DOUBLE 0)]),
      Field ''sphere'' False False
        (TYPE_MESSAGE ''SphereGeom'' [Field ''radius'' False False (TYPE_DOUBLE 0)]),
      Field ''mesh'' False False
        (TYPE_MESSAGE ''MeshGeom''
           [Field ''filename'' False False (TYPE_STRING []),
            Field ''scale'' False False (TYPE_MESSAGE ''Vector3d'' (Vector3d_msg 0 0 0))]),
      Field ''points'' True False (TYPE_MESSAGE ''Vector3d'' (Vector3d_msg 0 0 0))]"

definition Visual_msg :: Message where
  "Visual_msg =
     [Field ''name'' False True (TYPE_STRING ''link''),
      Field ''id'' False True (TYPE_UINT32 7),
      Field ''geometry'' False True (TYPE_MESSAGE ''Geometry'' Geometry_msg)]"

definition Visual_widget :: MessageWidget where
  "Visual_widget = the (Load Helpers_example (MessageWidget_new [Visual_msg]) 0)"

section \<open>Notions used in the proofs\<close>

definition keeps_shape :: "(QWidget \<Rightarrow> QWidget option) \<Rightarrow> bool" where
  "keeps_shape f = (\<forall>c c'. f c = Some c' \<longrightarrow> shape c' = shape c)"

definition same_widget :: "PropertyWidget \<Rightarrow> PropertyWidget \<Rightarrow> bool" where
  "same_widget w w' =
     (widget_shape w' = widget_shape w \<and> scopedName w' = scopedName w \<and> key w' = key w
      \<and> unitLabel w' = unitLabel w \<and> enabled w' = enabled w
      \<and> groupWidget w' = groupWidget w \<and> visible w' = visible w)"

definition frame :: "MessageWidget \<Rightarrow> MessageWidget \<Rightarrow> bool" where
  "frame st st' =
     (configWidgets st' = configWidgets st \<and> messages st' = messages st \<and> msg st' = msg st
      \<and> length (heap st') = length (heap st))"

definition only :: "nat \<Rightarrow> MessageWidget \<Rightarrow> MessageWidget \<Rightarrow> bool" where
  "only p st st' =
     (frame st st' \<and> (\<forall>q. q \<noteq> p \<longrightarrow> heap st' ! q = heap st ! q)
      \<and> same_widget (heap st ! p) (heap st' ! p))"

definition grows :: "MessageWidget \<Rightarrow> MessageWidget \<Rightarrow> bool" where
  "grows st st' =
     ((\<exists>ext. configWidgets st' = ext @ configWidgets st
            \<and> (\<forall>(s, p) \<in> set ext. s \<notin> registered st \<and> length (heap st) \<le> p \<and> p < length (heap st')))
      \<and> messages st' = messages st \<and> msg st' = msg st
      \<and> length (heap st) \<le> length (heap st')
      \<and> (\<forall>q < length (heap st). same_widget (heap st ! q) (heap st' ! q)))"

text \<open>What \<open>Parse_leaf\<close> has done when it made a widget for the name \<open>s\<close> from \<open>w\<close>.\<close>

definition created :: "MessageWidget \<Rightarrow> string \<Rightarrow> bool \<Rightarrow> PropertyWidget \<Rightarrow> MessageWidget \<Rightarrow> bool" where
  "created st s grouped w st' =
     (length (heap st') = Suc (length (heap st))
      \<and> (\<forall>q < length (heap st). heap st' ! q = heap st ! q)
      \<and> widget_shape (heap st' ! length (heap st)) = widget_shape w
      \<and> scopedName (heap st' ! length (heap st)) = (if s = [] then scopedName w else s)
      \<and> (groupWidget (heap st' ! length (heap st)) =
           (if grouped then Some (True, True) else groupWidget w))
      \<and> enabled (heap st' ! length (heap st)) = enabled w
      \<and> messages st' = messages st \<and> msg st' = msg st
      \<and> configWidgets st' =
           (if s = [] then configWidgets st else (s, length (heap st)) # configWidgets st))"

definition leaf_post ::
  "MessageWidget \<Rightarrow> string \<Rightarrow> bool \<Rightarrow> PropertyWidget option \<Rightarrow> nat option \<Rightarrow> MessageWidget \<Rightarrow> bool" where
  "leaf_post st s grouped create nw st' =
     (case find_widget st s of
        Some p \<Rightarrow> nw = None \<and> only p st st'
      | None \<Rightarrow> nw = Some (length (heap st)) \<and> (\<exists>w. create = Some w \<and> created st s grouped w st'))"

text \<open>
  The field types with a case in the switch of \<^verbatim>\<open>Parse\<close> other than the message case, and
  the widget that case creates. An enum field whose value descriptor is null has none.
\<close>

definition has_widget :: "FieldValue \<Rightarrow> bool" where
  "has_widget v =
     (case v of
        TYPE_ENUM names i \<Rightarrow> i < length names
      | TYPE_OTHER \<Rightarrow> False
      | TYPE_MESSAGE t sub \<Rightarrow> False
      | _ \<Rightarrow> True)"

definition scalar_widget ::
  "Helpers \<Rightarrow> MessageWidget \<Rightarrow> string \<Rightarrow> int \<Rightarrow> FieldValue \<Rightarrow> PropertyWidget option" where
  "scalar_widget h st n level v =
     (case v of
        TYPE_DOUBLE _ \<Rightarrow> CreateDoubleWidget h st n level
      | TYPE_FLOAT _ \<Rightarrow> CreateDoubleWidget h st n level
      | TYPE_INT64 _ \<Rightarrow> Some (CreateIntWidget n level)
      | TYPE_UINT64 _ \<Rightarrow> Some (CreateUIntWidget n level)
      | TYPE_INT32 _ \<Rightarrow> Some (CreateIntWidget n level)
      | TYPE_UINT32 _ \<Rightarrow> Some (CreateUIntWidget n level)
      | TYPE_BOOL _ \<Rightarrow> Some BoolWidget_new
      | TYPE_STRING _ \<Rightarrow> CreateStringWidget n level (if n = ''innerxml'' then ''plain'' else ''line'')
      | TYPE_ENUM names i \<Rightarrow> Some (CreateEnumWidget n names level)
      | _ \<Rightarrow> None)"

text \<open>
  What the generic case of \<^verbatim>\<open>Parse\<close> has done after the walk of the sub-message, from
  the state \<open>st1\<close> the walk ended in, when the walk made the new widgets \<open>nws\<close>.
\<close>

definition wrapped :: "MessageWidget \<Rightarrow> string \<Rightarrow> nat list \<Rightarrow> MessageWidget \<Rightarrow> bool" where
  "wrapped st1 s nws st' =
     (length (heap st') = Suc (length (heap st1))
      \<and> (\<forall>q < length (heap st1). heap st' ! q = heap st1 ! q)
      \<and> widgets (heap st' ! length (heap st1)) = [QGroupBox nws]
      \<and> cls (heap st' ! length (heap st1)) = PropertyWidgetC
      \<and> groupWidget (heap st' ! length (heap st1)) = Some (True, True)
      \<and> enabled (heap st' ! length (heap st1))
      \<and> scopedName (heap st' ! length (heap st1)) = (if s = [] \<or> find_widget st1 s \<noteq> None then [] else s)
      \<and> messages st' = messages st1 \<and> msg st' = msg st1
      \<and> configWidgets st' =
           (if s = [] \<or> find_widget st1 s \<noteq> None then configWidgets st1
            else (s, length (heap st1)) # configWidgets st1))"

definition wrapper_post ::
  "MessageWidget \<Rightarrow> MessageWidget \<Rightarrow> string \<Rightarrow> nat list \<Rightarrow> nat option \<Rightarrow> MessageWidget \<Rightarrow> bool" where
  "wrapper_post st st1 s nws nw st' =
     (if nws = [] then nw = None \<and> st' = st1
      else if find_widget st s = None then nw = Some (length (heap st1)) \<and> wrapped st1 s nws st'
      else nw = None
           \<and> st' = st1\<lparr>heap := heap st1 @ [(new_PropertyWidget PropertyWidgetC)\<lparr>widgets := [QGroupBox nws]\<rparr>]\<rparr>)"

definition Header_msg :: Message where
  "Header_msg =
     [Field ''stamp'' False False
        (TYPE_MESSAGE ''Time''
           [Field ''sec'' False False (TYPE_INT64 0), Field ''nsec'' False False (TYPE_INT32 0)]),
      Field ''data'' True False TYPE_OTHER]"

text \<open>
  A message as the message library builds it: every field has a name, and the value of
  an enum field is one of the values of its enum type.
\<close>

fun wf_message :: "Message \<Rightarrow> bool"
and wf_field :: "Field \<Rightarrow> bool" where
  "wf_message [] = True"
| "wf_message (f # fs) = (wf_field f \<and> wf_message fs)"
| "wf_field (Field n rep has (TYPE_MESSAGE t sub)) = (n \<noteq> [] \<and> wf_message sub)"
| "wf_field (Field n rep has (TYPE_ENUM names i)) = (n \<noteq> [] \<and> i < length names)"
| "wf_field (Field n rep has v) = (n \<noteq> [])"

text \<open>The field types with a case of their own in the switch, the message type apart.\<close>

definition typed_widget :: "FieldValue \<Rightarrow> bool" where
  "typed_widget v = (case v of TYPE_OTHER \<Rightarrow> False | TYPE_MESSAGE t sub \<Rightarrow> False | _ \<Rightarrow> True)"

text \<open>
  The names \<open>R\<close> cover a message under a prefix when every singular field that \<^verbatim>\<open>Parse\<close>
  can make a widget for has its scoped name in \<open>R\<close>, down the sub-messages that are
  walked.
\<close>

fun covered :: "string set \<Rightarrow> string \<Rightarrow> Message \<Rightarrow> bool"
and covered_field :: "string set \<Rightarrow> string \<Rightarrow> Field \<Rightarrow> bool" where
  "covered R prefix [] = True"
| "covered R prefix (f # fs) = (covered_field R prefix f \<and> covered R prefix fs)"
| "covered_field R prefix (Field n rep has (TYPE_MESSAGE t sub)) =
     (rep \<or> (if t \<in> set special_types then scoped prefix n \<in> R
             else covered R (scoped prefix n) sub))"
| "covered_field R prefix (Field n rep has v) =
     (rep \<or> \<not> typed_widget v \<or> scoped prefix n \<in> R)"

text \<open>A message with its has-bits cleared, down the sub-messages.\<close>

fun strip_value :: "FieldValue \<Rightarrow> FieldValue"
and strip_field :: "Field \<Rightarrow> Field" where
  "strip_value (TYPE_MESSAGE t sub) = TYPE_MESSAGE t (map strip_field sub)"
| "strip_value v = v"
| "strip_field (Field n rep has v) = Field n rep False (strip_value v)"

definition ignoring_has :: "Message \<Rightarrow> Message" where
  "ignoring_has m = map strip_field m"

definition Visual_msg_other :: Message where
  "Visual_msg_other =
     [Field ''name'' False True (TYPE_STRING ''wheel''),
      Field ''id'' False True (TYPE_UINT32 9),
      Field ''geometry'' False False (TYPE_MESSAGE ''Geometry'' Geometry_msg)]"

section \<open>The walk over the descriptors\<close>

text \<open>
  In the message tree above a message field that is not set holds the sub-message that
  \<^verbatim>\<open>MutableMessage\<close> creates for it, so the tree is the message type unfolded, and a
  message type that contains itself has no such tree. The calls \<^verbatim>\<open>Parse\<close> makes
  are given here over the descriptors instead: a message type is a name of the pool, and
  an instance holds the message fields that are set. \<open>Parse_walk pool update t inst i\<close> is
  the loop of \<^verbatim>\<open>Parse\<close> on an instance of type \<open>t\<close> from field \<open>i\<close> on, with the work
  on the widgets left out; it is \<open>None\<close> when the walk does not return.
\<close>

datatype FieldDescriptor =
  FieldDescriptor (fd_name: string) (fd_repeated: bool) (fd_message_type: "string option")

type_synonym DescriptorPool = "string \<Rightarrow> FieldDescriptor list"

datatype Instance = Instance (set_messages: "(string \<times> Instance) list")

definition HasField_walk :: "Instance \<Rightarrow> FieldDescriptor \<Rightarrow> bool" where
  "HasField_walk inst field = (map_of (set_messages inst) (fd_name field) \<noteq> None)"

definition MutableMessage_walk :: "Instance \<Rightarrow> FieldDescriptor \<Rightarrow> Instance" where
  "MutableMessage_walk inst field =
     (case map_of (set_messages inst) (fd_name field) of
        Some sub \<Rightarrow> sub
      | None \<Rightarrow> Instance [])"

partial_function (option) Parse_walk ::
  "DescriptorPool \<Rightarrow> bool \<Rightarrow> string \<Rightarrow> Instance \<Rightarrow> nat \<Rightarrow> unit option" where
  "Parse_walk pool update t inst i =
     (if length (pool t) \<le> i then Some ()
      else if fd_repeated (pool t ! i) \<or> update \<and> \<not> HasField_walk inst (pool t ! i)
      then Parse_walk pool update t inst (Suc i)
      else case fd_message_type (pool t ! i) of
             None \<Rightarrow> Parse_walk pool update t inst (Suc i)
           | Some t' \<Rightarrow>
               if t' \<in> set special_types then Parse_walk pool update t inst (Suc i)
               else do {
                 _ \<leftarrow> Parse_walk pool update t' (MutableMessage_walk inst (pool t ! i)) 0;
                 Parse_walk pool update t inst (Suc i)
               })"

text \<open>
  The calls of \<^verbatim>\<open>UpdateMsg\<close> in the same way: \<open>names\<close> are the names in the map of
  widgets and \<open>readOnly\<close> those whose widget is read-only. A field that is repeated, not
  in the map or read-only is passed over; a message field of another type than the
  five special ones is walked under its scoped name.
\<close>

partial_function (option) UpdateMsg_walk ::
  "DescriptorPool \<Rightarrow> string list \<Rightarrow> string list \<Rightarrow> string \<Rightarrow> string \<Rightarrow> nat \<Rightarrow> unit option" where
  "UpdateMsg_walk pool names readOnly name t i =
     (if length (pool t) \<le> i then Some ()
      else if fd_repeated (pool t ! i) then UpdateMsg_walk pool names readOnly name t (Suc i)
      else if scoped name (fd_name (pool t ! i)) \<notin> set names
      then UpdateMsg_walk pool names readOnly name t (Suc i)
      else if scoped name (fd_name (pool t ! i)) \<in> set readOnly
      then UpdateMsg_walk pool names readOnly name t (Suc i)
      else case fd_message_type (pool t ! i) of
             None \<Rightarrow> UpdateMsg_walk pool names readOnly name t (Suc i)
           | Some t' \<Rightarrow>
               if t' \<in> set special_types then UpdateMsg_walk pool names readOnly name t (Suc i)
               else do {
                 _ \<leftarrow> UpdateMsg_walk pool names readOnly (scoped name (fd_name (pool t ! i))) t' 0;
                 UpdateMsg_walk pool names readOnly name t (Suc i)
               })"

text \<open>
  The message type \<open>t\<close> nests singular message fields to a depth below \<open>d\<close>: each of its
  singular fields of a message type other than the five special ones has a type that
  nests to a depth below \<open>d - 1\<close>. A message type that contains itself does so for no \<open>d\<close>.
\<close>

fun nests :: "DescriptorPool \<Rightarrow> nat \<Rightarrow> string \<Rightarrow> bool" where
  "nests pool 0 t = False"
| "nests pool (Suc d) t =
     list_all (\<lambda>field. fd_repeated field
                       \<or> (case fd_message_type field of
                             None \<Rightarrow> True
                           | Some t' \<Rightarrow> t' \<in> set special_types \<or> nests pool d t'))
       (pool t)"

text \<open>
  The descriptors of a header with a time stamp and a repeated field, and a message
  type with one optional field, of its own type.
\<close>

definition Header_pool :: DescriptorPool where
  "Header_pool t =
     (if t = ''Header''
      then [FieldDescriptor ''stamp'' False (Some ''Time''), FieldDescriptor ''data'' True None]
      else if t = ''Time''
      then [FieldDescriptor ''sec'' False None, FieldDescriptor ''nsec'' False None]
      else [])"

definition Node_pool :: DescriptorPool where
  "Node_pool t = (if t = ''Node'' then [FieldDescriptor ''child'' False (Some ''Node'')] else [])"

section \<open>Sequences of calls\<close>

text \<open>
  The calls a client makes on a message widget that change its state, and, last, the
  client making a property widget object of its own (to pass to \<^verbatim>\<open>AddPropertyWidget\<close>).
  A state is reachable when a sequence of calls leads to it from the new widget.
\<close>

datatype Call =
    Call_Load nat
  | Call_UpdateFromMsg nat
  | Call_Msg
  | Call_SetWidgetVisible string bool
  | Call_SetWidgetReadOnly string bool
  | Call_SetIntWidgetValue string "32 word"
  | Call_SetUIntWidgetValue string "32 word"
  | Call_SetDoubleWidgetValue string double
  | Call_SetBoolWidgetValue string bool
  | Call_SetStringWidgetValue string string
  | Call_SetVector3dWidgetValue string Vector3d
  | Call_SetColorWidgetValue string Color
  | Call_SetPoseWidgetValue string Pose3d
  | Call_SetGeometryWidgetValue string string Vector3d string
  | Call_SetDensityWidgetValue string double
  | Call_SetEnumWidgetValue string string
  | Call_AddPropertyWidget string "nat option"
  | Call_new_PropertyWidget PropertyWidget

fun call :: "Helpers \<Rightarrow> Call \<Rightarrow> MessageWidget \<Rightarrow> MessageWidget option" where
  "call h (Call_Load a) st = Load h st a"
| "call h (Call_UpdateFromMsg a) st = UpdateFromMsg h st a"
| "call h Call_Msg st = map_option snd (Msg h st)"
| "call h (Call_SetWidgetVisible name v) st = SetWidgetVisible st name v"
| "call h (Call_SetWidgetReadOnly name v) st = SetWidgetReadOnly st name v"
| "call h (Call_SetIntWidgetValue name v) st = map_option snd (SetIntWidgetValue st name v)"
| "call h (Call_SetUIntWidgetValue name v) st = map_option snd (SetUIntWidgetValue st name v)"
| "call h (Call_SetDoubleWidgetValue name v) st = map_option snd (SetDoubleWidgetValue st name v)"
| "call h (Call_SetBoolWidgetValue name v) st = map_option snd (SetBoolWidgetValue st name v)"
| "call h (Call_SetStringWidgetValue name v) st = map_option snd (SetStringWidgetValue st name v)"
| "call h (Call_SetVector3dWidgetValue name v) st = map_option snd (SetVector3dWidgetValue h st name v)"
| "call h (Call_SetColorWidgetValue name v) st = map_option snd (SetColorWidgetValue st name v)"
| "call h (Call_SetPoseWidgetValue name v) st = map_option snd (SetPoseWidgetValue h st name v)"
| "call h (Call_SetGeometryWidgetValue name v d u) st =
     map_option snd (SetGeometryWidgetValue st name v d u)"
| "call h (Call_SetDensityWidgetValue name v) st = map_option snd (SetDensityWidgetValue h st name v)"
| "call h (Call_SetEnumWidgetValue name v) st = map_option snd (SetEnumWidgetValue st name v)"
| "call h (Call_AddPropertyWidget name child) st = map_option snd (AddPropertyWidget st name child)"
| "call h (Call_new_PropertyWidget w) st = Some (snd (alloc w st))"

fun calls :: "Helpers \<Rightarrow> Call list \<Rightarrow> MessageWidget \<Rightarrow> MessageWidget option" where
  "calls h [] st = Some st"
| "calls h (c # cs) st = do { st1 \<leftarrow> call h c st; calls h cs st1 }"

text \<open>
  The registry binds every name once, to a widget object that exists and whose stored
  scoped name is bound to it.
\<close>

definition registry_inv :: "MessageWidget \<Rightarrow> bool" where
  "registry_inv st =
     (distinct (map fst (configWidgets st))
      \<and> (\<forall>(s, p) \<in> set (configWidgets st).
            p < length (heap st) \<and> find_widget st (scopedName (heap st ! p)) = Some p))"

text \<open>No widget object is bound to two names.\<close>

definition registry_inj :: "MessageWidget \<Rightarrow> bool" where
  "registry_inj st = distinct (map snd (configWidgets st))"

definition keeps_inv :: "MessageWidget \<Rightarrow> MessageWidget \<Rightarrow> bool" where
  "keeps_inv st st' =
     ((registry_inv st \<longrightarrow> registry_inv st')
      \<and> (registry_inv st \<and> registry_inj st \<longrightarrow> registry_inj st'))"

text \<open>A step that leaves the registry, the messages and every stored scoped name alone.\<close>

definition edits :: "MessageWidget \<Rightarrow> MessageWidget \<Rightarrow> bool" where
  "edits st st' =
     (frame st st' \<and> (\<forall>q. scopedName (heap st' ! q) = scopedName (heap st ! q)))"

text \<open>
  The message objects at the addresses below \<open>n\<close> are the caller's: the internal copy, if
  there is one, is at an address from \<open>n\<close> on.
\<close>

definition internal_from :: "nat \<Rightarrow> MessageWidget \<Rightarrow> bool" where
  "internal_from n st = (n \<le> length (messages st) \<and> (\<forall>b. msg st = Some b \<longrightarrow> n \<le> b))"

definition keeps_messages :: "nat \<Rightarrow> MessageWidget \<Rightarrow> MessageWidget \<Rightarrow> bool" where
  "keeps_messages n st st' =
     (internal_from n st \<longrightarrow>
        internal_from n st' \<and> (\<forall>c < n. messages st' ! c = messages st ! c))"

section \<open>The names of the widget tree\<close>

text \<open>
  The scoped names of the fields of a message that \<^verbatim>\<open>Parse\<close> makes a property widget
  for: a singular field of a type with a case in the switch; of the message fields, one
  of the five types with a widget of their own (whose fields are not walked), and any
  other whose sub-message has a field with a widget, after the names of that sub-message.
  A repeated field has none.
\<close>

fun widget_names :: "string \<Rightarrow> Message \<Rightarrow> string list"
and field_names :: "string \<Rightarrow> Field \<Rightarrow> string list" where
  "widget_names prefix [] = []"
| "widget_names prefix (f # fs) = field_names prefix f @ widget_names prefix fs"
| "field_names prefix (Field n rep has (TYPE_MESSAGE t sub)) =
     (if rep then []
      else if t \<in> set special_types then [scoped prefix n]
      else if widget_names (scoped prefix n) sub = [] then []
      else scoped prefix n # widget_names (scoped prefix n) sub)"
| "field_names prefix (Field n rep has v) =
     (if rep \<or> \<not> typed_widget v then [] else [scoped prefix n])"

text \<open>
  A message with a repeated field, a field of a type without a case in the switch
  (\<^verbatim>\<open>bytes\<close>), and a field of type \<^verbatim>\<open>Vector3d\<close>.
\<close>

definition Model_msg :: Message where
  "Model_msg =
     [Field ''name'' False True (TYPE_STRING ''box''),
      Field ''tags'' True False (TYPE_STRING []),
      Field ''raw'' False True TYPE_OTHER,
      Field ''scale'' False True (TYPE_MESSAGE ''Vector3d'' (Vector3d_msg 1 1 1))]"

section \<open>Showing a message by the setters\<close>

text \<open>
  What showing a message on the widgets means, by the public setters: for every
  singular field of the message that is set, in the order of the fields, the setter of
  the field's type is called with the scoped name and the value of the field. For a
  field of one of the five special message types the value is the one read from the
  sub-message (for a color, as many values as the widget has child widgets); the
  fields of any other message are shown under the scoped name. A repeated field and a
  field that is not set are passed over.
\<close>

definition show_scalar :: "Helpers \<Rightarrow> string \<Rightarrow> FieldValue \<Rightarrow> MessageWidget \<Rightarrow> MessageWidget option" where
  "show_scalar h s v st =
     (case v of
        TYPE_DOUBLE d \<Rightarrow> map_option snd (SetDoubleWidgetValue st s d)
      | TYPE_FLOAT d \<Rightarrow> map_option snd (SetDoubleWidgetValue st s d)
      | TYPE_INT64 i \<Rightarrow> map_option snd (SetIntWidgetValue st s (ucast i))
      | TYPE_UINT64 i \<Rightarrow> map_option snd (SetUIntWidgetValue st s (ucast i))
      | TYPE_INT32 i \<Rightarrow> map_option snd (SetIntWidgetValue st s i)
      | TYPE_UINT32 i \<Rightarrow> map_option snd (SetUIntWidgetValue st s i)
      | TYPE_BOOL b \<Rightarrow> map_option snd (SetBoolWidgetValue st s b)
      | TYPE_STRING t \<Rightarrow> map_option snd (SetStringWidgetValue st s t)
      | TYPE_ENUM names i \<Rightarrow>
          (if i < length names then map_option snd (SetEnumWidgetValue st s (names ! i))
           else Some st)
      | _ \<Rightarrow> Some st)"







text \<open>
  The widget \<^verbatim>\<open>Parse\<close> makes for a field of scalar, string or enum type, without the
  value it shows: its class and its child widgets with their ranges, their number of
  decimals and their items. The integer spin boxes range to 1e8, the double spin box has
  the range of the key at 8 decimals, and the items of the combo box are the names of the
  enum values.
\<close>

definition double_range :: "Helpers \<Rightarrow> string \<Rightarrow> double \<times> double" where
  "double_range h n =
     (let lo = round_dec 8 (fst (rangeFromKey h n))
      in (lo, max lo (round_dec 8 (snd (rangeFromKey h n)))))"

definition scalar_shape :: "Helpers \<Rightarrow> string \<Rightarrow> FieldValue \<Rightarrow> WidgetClass \<times> QWidget list" where
  "scalar_shape h n v =
     (case v of
        TYPE_DOUBLE _ \<Rightarrow>
          (PropertyWidgetC, [QDoubleSpinBox (fst (double_range h n)) (snd (double_range h n)) 8 0])
      | TYPE_FLOAT _ \<Rightarrow>
          (PropertyWidgetC, [QDoubleSpinBox (fst (double_range h n)) (snd (double_range h n)) 8 0])
      | TYPE_INT64 _ \<Rightarrow> (PropertyWidgetC, [QSpinBox (-100000000) 100000000 0])
      | TYPE_UINT64 _ \<Rightarrow> (PropertyWidgetC, [QSpinBox 0 100000000 0])
      | TYPE_INT32 _ \<Rightarrow> (PropertyWidgetC, [QSpinBox (-100000000) 100000000 0])
      | TYPE_UINT32 _ \<Rightarrow> (PropertyWidgetC, [QSpinBox 0 100000000 0])
      | TYPE_BOOL _ \<Rightarrow> (BoolWidgetC, [QRadioButton False, QRadioButton False])
      | TYPE_STRING _ \<Rightarrow>
          (PropertyWidgetC, [if n = ''innerxml'' then QPlainTextEdit [] else QLineEdit []])
      | TYPE_ENUM names _ \<Rightarrow> (EnumWidgetC, [QComboBox (map tr_c_str names) 0])
      | _ \<Rightarrow> (PropertyWidgetC, []))"

text \<open>
  The map of widgets is typed for a message when every singular field of scalar, string
  or enum type, down the sub-messages that are walked, is bound under its scoped name
  to a widget for its type.
\<close>

definition typed_at :: "Helpers \<Rightarrow> MessageWidget \<Rightarrow> string \<Rightarrow> string \<Rightarrow> FieldValue \<Rightarrow> bool" where
  "typed_at h st s n v =
     (case find_widget st s of
        None \<Rightarrow> False
      | Some p \<Rightarrow> p < length (heap st) \<and> widget_shape (heap st ! p) = scalar_shape h n v)"

fun typed :: "Helpers \<Rightarrow> MessageWidget \<Rightarrow> string \<Rightarrow> Message \<Rightarrow> bool"
and typed_field :: "Helpers \<Rightarrow> MessageWidget \<Rightarrow> string \<Rightarrow> Field \<Rightarrow> bool" where
  "typed h st prefix [] = True"
| "typed h st prefix (f # fs) = (typed_field h st prefix f \<and> typed h st prefix fs)"
| "typed_field h st prefix (Field n rep has (TYPE_MESSAGE t sub)) =
     (rep \<or> t \<in> set special_types \<or> typed h st (scoped prefix n) sub)"
| "typed_field h st prefix (Field n rep has v) =
     (rep \<or> \<not> typed_widget v \<or> typed_at h st (scoped prefix n) n v)"

text \<open>
  What a widget shows of a value, read by the getter of its type. A spin box bounds the
  value to its range: an integer to 1e8 either way, an unsigned one, converted to
  \<^verbatim>\<open>int\<close>, to 0 and 1e8, a double to the range of its key after it is rounded to 8
  decimals. A string ends at its first NUL character, and a line edit keeps the first
  32767 characters of it. The combo box shows the name of the enum value.
\<close>

definition shows_value :: "Helpers \<Rightarrow> MessageWidget \<Rightarrow> string \<Rightarrow> string \<Rightarrow> FieldValue \<Rightarrow> bool" where
  "shows_value h st s n v =
     (case v of
        TYPE_DOUBLE d \<Rightarrow>
          DoubleWidgetValue st s
            = Some (bound (fst (double_range h n)) (snd (double_range h n)) (round_dec 8 d))
      | TYPE_FLOAT d \<Rightarrow>
          DoubleWidgetValue st s
            = Some (bound (fst (double_range h n)) (snd (double_range h n)) (round_dec 8 d))
      | TYPE_INT64 i \<Rightarrow>
          IntWidgetValue st s = Some (bound (-100000000) 100000000 (sint (ucast i :: 32 word)))
      | TYPE_UINT64 i \<Rightarrow>
          UIntWidgetValue st s = Some (word_of_int (bound 0 100000000 (sint (ucast i :: 32 word))))
      | TYPE_INT32 i \<Rightarrow> IntWidgetValue st s = Some (bound (-100000000) 100000000 (sint i))
      | TYPE_UINT32 i \<Rightarrow> UIntWidgetValue st s = Some (word_of_int (bound 0 100000000 (sint i)))
      | TYPE_BOOL b \<Rightarrow> BoolWidgetValue st s = Some b
      | TYPE_STRING t \<Rightarrow>
          StringWidgetValue st s
            = Some (if n = ''innerxml'' then tr_c_str t
                    else QString_left QLineEdit_maxLength (tr_c_str t))
      | TYPE_ENUM names i \<Rightarrow>
          i < length names \<longrightarrow> EnumWidgetValue st s = Some (tr_c_str (names ! i))
      | _ \<Rightarrow> True)"

text \<open>
  The widgets display a message: every singular field of scalar, string or enum type
  that is set, down the sub-messages that are set and walked, is shown by the widget
  bound to its scoped name.
\<close>

fun displays :: "Helpers \<Rightarrow> MessageWidget \<Rightarrow> string \<Rightarrow> Message \<Rightarrow> bool"
and displays_field :: "Helpers \<Rightarrow> MessageWidget \<Rightarrow> string \<Rightarrow> Field \<Rightarrow> bool" where
  "displays h st prefix [] = True"
| "displays h st prefix (f # fs) = (displays_field h st prefix f \<and> displays h st prefix fs)"
| "displays_field h st prefix (Field n rep has (TYPE_MESSAGE t sub)) =
     (rep \<or> \<not> has \<or> t \<in> set special_types \<or> displays h st (scoped prefix n) sub)"
| "displays_field h st prefix (Field n rep has v) =
     (rep \<or> \<not> has \<or> shows_value h st (scoped prefix n) n v)"


text \<open>A step that at most updates the widget bound to the name \<open>s\<close>.\<close>

definition touches :: "string \<Rightarrow> MessageWidget \<Rightarrow> MessageWidget \<Rightarrow> bool" where
  "touches s st st' = (st' = st \<or> (\<exists>p. find_widget st s = Some p \<and> only p st st'))"

text \<open>Steps that leave every widget alone that is bound to a name outside \<open>S\<close>.\<close>

definition unchanged_off :: "string set \<Rightarrow> MessageWidget \<Rightarrow> MessageWidget \<Rightarrow> bool" where
  "unchanged_off S st st' =
     (frame st st' \<and> grows st st'
      \<and> (\<forall>s p. find_widget st s = Some p \<longrightarrow> s \<notin> S \<longrightarrow> heap st' ! p = heap st ! p))"

section \<open>Accessors by name on unknown names\<close>

text \<open>
  C8. For a name that is not in the widget map, every \<^verbatim>\<open>Set...WidgetValue\<close> returns false
  and leaves the state as it is, every \<^verbatim>\<open>...WidgetValue\<close> returns the default value of its
  type (the geometry getter the empty type, leaving the dimensions and the uri it was
  given), and \<^verbatim>\<open>WidgetVisible\<close> and \<^verbatim>\<open>WidgetReadOnly\<close> return false. None of them fails.
\<close>

theorem unknown_name_accessors:
  assumes "find_widget st name = None"
  shows "SetIntWidgetValue st name i = Some (False, st)
       \<and> SetUIntWidgetValue st name u = Some (False, st)
       \<and> SetDoubleWidgetValue st name d = Some (False, st)
       \<and> SetBoolWidgetValue st name b = Some (False, st)
       \<and> SetStringWidgetValue st name s = Some (False, st)
       \<and> SetVector3dWidgetValue h st name v = Some (False, st)
       \<and> SetColorWidgetValue st name c = Some (False, st)
       \<and> SetPoseWidgetValue h st name p = Some (False, st)
       \<and> SetGeometryWidgetValue st name g dims uri = Some (False, st)
       \<and> SetDensityWidgetValue h st name d = Some (False, st)
       \<and> SetEnumWidgetValue st name s = Some (False, st)
       \<and> IntWidgetValue st name = Some 0
       \<and> UIntWidgetValue st name = Some 0
       \<and> DoubleWidgetValue st name = Some 0
       \<and> BoolWidgetValue st name = Some False
       \<and> StringWidgetValue st name = Some []
       \<and> Vector3dWidgetValue st name = Some Vector3d_Zero
       \<and> ColorWidgetValue st name = Some Color_Default
       \<and> PoseWidgetValue h st name = Some Pose3d_Zero
       \<and> DensityWidgetValue st name = Some 0
       \<and> GeometryWidgetValue st name dims uri = Some ([], dims, uri)
       \<and> EnumWidgetValue st name = Some []
       \<and> WidgetVisible st name = Some False
       \<and> WidgetReadOnly st name = Some False"
  using assms
  by (simp add: SetIntWidgetValue_def SetUIntWidgetValue_def SetDoubleWidgetValue_def
      SetBoolWidgetValue_def SetStringWidgetValue_def SetVector3dWidgetValue_def
      SetColorWidgetValue_def SetPoseWidgetValue_def SetGeometryWidgetValue_def
      SetDensityWidgetValue_def SetEnumWidgetValue_def IntWidgetValue_def UIntWidgetValue_def
      DoubleWidgetValue_def BoolWidgetValue_def StringWidgetValue_def Vector3dWidgetValue_def
      ColorWidgetValue_def PoseWidgetValue_def DensityWidgetValue_def GeometryWidgetValue_def
      EnumWidgetValue_def WidgetVisible_def WidgetReadOnly_def)

theorem unknown_name_accessors_witness:
  "find_widget Visual_widget ''pose'' = None
   \<and> SetIntWidgetValue Visual_widget ''pose'' 3 = Some (False, Visual_widget)
   \<and> SetGeometryWidgetValue Visual_widget ''pose'' ''box'' (Vector3d 1 2 3) []
       = Some (False, Visual_widget)
   \<and> StringWidgetValue Visual_widget ''pose'' = Some []
   \<and> WidgetReadOnly Visual_widget ''pose'' = Some False"
proof -
  have h: "find_widget Visual_widget ''pose'' = None"
    by code_simp
  show ?thesis
    using h unknown_name_accessors [OF h, of 3 _ _ _ _ _ _ _ _ "''box''" "Vector3d 1 2 3" "[]"]
    by simp
qed

section \<open>The geometry widget\<close>

lemma list8:
  assumes "length xs = 8"
  obtains a b c d e f g h where "xs = [a, b, c, d, e, f, g, h]"
proof -
  from assms have "xs = [xs!0, xs!1, xs!2, xs!3, xs!4, xs!5, xs!6, xs!7]"
    by (auto simp: list_eq_iff_nth_eq nth_Cons' numeral_eq_Suc less_Suc_eq)
  then show ?thesis using that by blast
qed

lemma dspin_cases:
  assumes "QDoubleSpinBox_value c \<noteq> None"
  obtains lo hi d v where "c = QDoubleSpinBox lo hi d v"
  using assms by (cases c) auto

lemma combo_cases:
  assumes "combo_items c = Some its"
  obtains i where "c = QComboBox its i"
  using assms by (cases c) auto

lemma lineedit_cases:
  assumes "QLineEdit_text c \<noteq> None"
  obtains t where "c = QLineEdit t"
  using assms by (cases c) auto

lemma geometry_widget_shape:
  assumes "is_geometry_widget w"
  obtains i l1 h1 d1 v1 l2 h2 d2 v2 l3 h3 d3 v3 l4 h4 d4 v4 l5 h5 d5 v5 t b where
    "widgets w = [QComboBox geometry_types i, QDoubleSpinBox l1 h1 d1 v1, QDoubleSpinBox l2 h2 d2 v2,
        QDoubleSpinBox l3 h3 d3 v3, QDoubleSpinBox l4 h4 d4 v4, QDoubleSpinBox l5 h5 d5 v5, QLineEdit t, b]"
proof -
  from assms have len: "length (widgets w) = 8" by (simp add: is_geometry_widget_def)
  then obtain c0 c1 c2 c3 c4 c5 c6 c7 where ws: "widgets w = [c0, c1, c2, c3, c4, c5, c6, c7]"
    by (rule list8)
  from assms ws have "combo_items c0 = Some geometry_types" by (simp add: is_geometry_widget_def)
  then obtain i where "c0 = QComboBox geometry_types i" by (rule combo_cases)
  moreover from assms ws have "QDoubleSpinBox_value c1 \<noteq> None" by (simp add: is_geometry_widget_def)
  then obtain l1 h1 d1 v1 where "c1 = QDoubleSpinBox l1 h1 d1 v1" by (rule dspin_cases)
  moreover from assms ws have "QDoubleSpinBox_value c2 \<noteq> None" by (simp add: is_geometry_widget_def)
  then obtain l2 h2 d2 v2 where "c2 = QDoubleSpinBox l2 h2 d2 v2" by (rule dspin_cases)
  moreover from assms ws have "QDoubleSpinBox_value c3 \<noteq> None" by (simp add: is_geometry_widget_def)
  then obtain l3 h3 d3 v3 where "c3 = QDoubleSpinBox l3 h3 d3 v3" by (rule dspin_cases)
  moreover from assms ws have "QDoubleSpinBox_value c4 \<noteq> None" by (simp add: is_geometry_widget_def)
  then obtain l4 h4 d4 v4 where "c4 = QDoubleSpinBox l4 h4 d4 v4" by (rule dspin_cases)
  moreover from assms ws have "QDoubleSpinBox_value c5 \<noteq> None" by (simp add: is_geometry_widget_def)
  then obtain l5 h5 d5 v5 where "c5 = QDoubleSpinBox l5 h5 d5 v5" by (rule dspin_cases)
  moreover from assms ws have "QLineEdit_text c6 \<noteq> None" by (simp add: is_geometry_widget_def)
  then obtain t where "c6 = QLineEdit t" by (rule lineedit_cases)
  ultimately have "widgets w = [QComboBox geometry_types i, QDoubleSpinBox l1 h1 d1 v1,
      QDoubleSpinBox l2 h2 d2 v2, QDoubleSpinBox l3 h3 d3 v3, QDoubleSpinBox l4 h4 d4 v4,
      QDoubleSpinBox l5 h5 d5 v5, QLineEdit t, c7]"
    using ws by simp
  then show ?thesis by (rule that)
qed

lemma representable_dspin:
  "representable (QDoubleSpinBox lo hi d v) x \<longleftrightarrow> bound lo hi (round_dec d x) = x"
  by (simp add: representable_def)

lemmas geom_defs = UpdateGeometryWidget_def GeometryWidgetValue_w_def get_child_def upd_child_def
  vat_def set_child_def geometry_types_def representable_dspin

lemma tr_c_str_geometry_types: "ty \<in> set geometry_types \<Longrightarrow> tr_c_str ty = ty"
  by (auto simp: geometry_types_def tr_c_str_def)

lemma tr_c_str_plain: "CHR 0x00 \<notin> set s \<Longrightarrow> tr_c_str s = s"
  by (auto simp: tr_c_str_def takeWhile_eq_all_conv)

lemma QString_left_all: "int (length s) \<le> n \<Longrightarrow> QString_left n s = s"
  by (induction s arbitrary: n) auto

lemma geometry_round_trip_widget:
  assumes gw: "is_geometry_widget w"
    and ty: "ty \<in> set geometry_types"
  shows "\<exists>w' dims' uri'. UpdateGeometryWidget w ty (Vector3d x y z) uri = Some (True, w')
          \<and> is_geometry_widget w'
          \<and> GeometryWidgetValue_w w' d0 u0 = Some (ty, dims', uri')
          \<and> ((ty = ''box'' \<or> ty = ''mesh'') \<and> representable (widgets w ! 1) x
                \<and> representable (widgets w ! 2) y \<and> representable (widgets w ! 3) z
              \<longrightarrow> dims' = Vector3d x y z)
          \<and> (ty = ''cylinder'' \<and> representable (widgets w ! 4) (x / 2)
                \<and> representable (widgets w ! 5) z
              \<longrightarrow> dims' = Vector3d x x z)
          \<and> (ty = ''sphere'' \<and> representable (widgets w ! 4) (x / 2) \<longrightarrow> dims' = Vector3d x x x)
          \<and> (ty = ''polyline'' \<longrightarrow> dims' = d0)
          \<and> uri' = (if ty = ''mesh'' then QString_left QLineEdit_maxLength (tr_c_str uri) else u0)"
proof -
  from gw obtain i l1 h1 d1 v1 l2 h2 d2 v2 l3 h3 d3 v3 l4 h4 d4 v4 l5 h5 d5 v5 t b where
    ws: "widgets w = [QComboBox geometry_types i, QDoubleSpinBox l1 h1 d1 v1, QDoubleSpinBox l2 h2 d2 v2,
        QDoubleSpinBox l3 h3 d3 v3, QDoubleSpinBox l4 h4 d4 v4, QDoubleSpinBox l5 h5 d5 v5, QLineEdit t, b]"
    by (rule geometry_widget_shape)
  from ty consider "ty = ''box''" | "ty = ''cylinder''" | "ty = ''sphere''" | "ty = ''mesh''" | "ty = ''polyline''"
    by (auto simp: geometry_types_def)
  then show ?thesis
  proof cases
    case 1
    with ws show ?thesis by (simp add: geom_defs is_geometry_widget_def tr_c_str_def)
  next
    case 2
    with ws show ?thesis by (simp add: geom_defs is_geometry_widget_def tr_c_str_def)
  next
    case 3
    with ws show ?thesis by (simp add: geom_defs is_geometry_widget_def tr_c_str_def)
  next
    case 4
    with ws have "UpdateGeometryWidget w ty (Vector3d x y z) uri
        = Some (True, w\<lparr>widgets := [QComboBox geometry_types 3,
            QDoubleSpinBox l1 h1 d1 (bound l1 h1 (round_dec d1 x)),
            QDoubleSpinBox l2 h2 d2 (bound l2 h2 (round_dec d2 y)),
            QDoubleSpinBox l3 h3 d3 (bound l3 h3 (round_dec d3 z)),
            QDoubleSpinBox l4 h4 d4 v4, QDoubleSpinBox l5 h5 d5 v5,
            QLineEdit (QString_left QLineEdit_maxLength (tr_c_str uri)), b]\<rparr>)"
      by (simp add: geom_defs tr_c_str_geometry_types [OF ty, unfolded 4])
    with ws 4 show ?thesis by (simp add: geom_defs is_geometry_widget_def)
  next
    case 5
    with ws show ?thesis by (simp add: geom_defs is_geometry_widget_def tr_c_str_def)
  qed
qed

lemma find_widget_store [simp]: "find_widget (store p w st) name = find_widget st name"
  by (simp add: find_widget_def store_def)

lemma deref_store_same: "deref st p = Some w \<Longrightarrow> deref (store p w' st) p = Some w'"
  by (auto simp: deref_def store_def vat_def split: if_splits)

lemma deref_store_other: "q \<noteq> p \<Longrightarrow> deref (store p w' st) q = deref st q"
  by (auto simp: deref_def store_def vat_def)

text \<open>
  C10, as amended. For a registered geometry widget and each of the five type strings,
  \<^verbatim>\<open>SetGeometryWidgetValue\<close> succeeds and \<^verbatim>\<open>GeometryWidgetValue\<close> then returns the same
  type string, whatever the dimensions. For \<^verbatim>\<open>box\<close> and \<^verbatim>\<open>mesh\<close> the dimensions returned
  are those set, when the size spin boxes can represent them. For \<^verbatim>\<open>cylinder\<close> they are
  (X, X, Z) and for \<^verbatim>\<open>sphere\<close> (X, X, X) when the radius spin box can represent the
  radius X/2 that is stored (and the length spin box Z). For \<^verbatim>\<open>polyline\<close> the
  dimensions given to the getter come back unchanged. For \<^verbatim>\<open>mesh\<close> the uri returned is
  the uri set up to its first NUL character and to 32767 characters, so the uri itself
  when it has no NUL character and at most 32767 characters; for the other types the
  uri given to the getter comes back unchanged.
\<close>

theorem geometry_round_trip:
  assumes reg: "find_widget st name = Some p" "deref st p = Some w"
    and gw: "is_geometry_widget w"
    and ty: "ty \<in> set geometry_types"
  shows "\<exists>st' dims' uri'.
            SetGeometryWidgetValue st name ty (Vector3d x y z) uri = Some (True, st')
          \<and> GeometryWidgetValue st' name d0 u0 = Some (ty, dims', uri')
          \<and> ((ty = ''box'' \<or> ty = ''mesh'') \<and> representable (widgets w ! 1) x
                \<and> representable (widgets w ! 2) y \<and> representable (widgets w ! 3) z
              \<longrightarrow> dims' = Vector3d x y z)
          \<and> (ty = ''cylinder'' \<and> representable (widgets w ! 4) (x / 2)
                \<and> representable (widgets w ! 5) z
              \<longrightarrow> dims' = Vector3d x x z)
          \<and> (ty = ''sphere'' \<and> representable (widgets w ! 4) (x / 2) \<longrightarrow> dims' = Vector3d x x x)
          \<and> (ty = ''polyline'' \<longrightarrow> dims' = d0)
          \<and> uri' = (if ty = ''mesh'' then QString_left QLineEdit_maxLength (tr_c_str uri) else u0)
          \<and> (ty = ''mesh'' \<and> CHR 0x00 \<notin> set uri \<and> int (length uri) \<le> QLineEdit_maxLength \<longrightarrow> uri' = uri)"
proof -
  from geometry_round_trip_widget [OF gw ty, of x y z uri d0 u0]
  obtain w' where "\<exists>dims' uri'. UpdateGeometryWidget w ty (Vector3d x y z) uri = Some (True, w')
          \<and> is_geometry_widget w'
          \<and> GeometryWidgetValue_w w' d0 u0 = Some (ty, dims', uri')
          \<and> ((ty = ''box'' \<or> ty = ''mesh'') \<and> representable (widgets w ! 1) x
                \<and> representable (widgets w ! 2) y \<and> representable (widgets w ! 3) z
              \<longrightarrow> dims' = Vector3d x y z)
          \<and> (ty = ''cylinder'' \<and> representable (widgets w ! 4) (x / 2)
                \<and> representable (widgets w ! 5) z
              \<longrightarrow> dims' = Vector3d x x z)
          \<and> (ty = ''sphere'' \<and> representable (widgets w ! 4) (x / 2) \<longrightarrow> dims' = Vector3d x x x)
          \<and> (ty = ''polyline'' \<longrightarrow> dims' = d0)
          \<and> uri' = (if ty = ''mesh'' then QString_left QLineEdit_maxLength (tr_c_str uri) else u0)" ..
  then obtain dims' where "\<exists>uri'. UpdateGeometryWidget w ty (Vector3d x y z) uri = Some (True, w')
          \<and> is_geometry_widget w'
          \<and> GeometryWidgetValue_w w' d0 u0 = Some (ty, dims', uri')
          \<and> ((ty = ''box'' \<or> ty = ''mesh'') \<and> representable (widgets w ! 1) x
                \<and> representable (widgets w ! 2) y \<and> representable (widgets w ! 3) z
              \<longrightarrow> dims' = Vector3d x y z)
          \<and> (ty = ''cylinder'' \<and> representable (widgets w ! 4) (x / 2)
                \<and> representable (widgets w ! 5) z
              \<longrightarrow> dims' = Vector3d x x z)
          \<and> (ty = ''sphere'' \<and> representable (widgets w ! 4) (x / 2) \<longrightarrow> dims' = Vector3d x x x)
          \<and> (ty = ''polyline'' \<longrightarrow> dims' = d0)
          \<and> uri' = (if ty = ''mesh'' then QString_left QLineEdit_maxLength (tr_c_str uri) else u0)" ..
  then obtain uri' where all: "UpdateGeometryWidget w ty (Vector3d x y z) uri = Some (True, w')
          \<and> is_geometry_widget w'
          \<and> GeometryWidgetValue_w w' d0 u0 = Some (ty, dims', uri')
          \<and> ((ty = ''box'' \<or> ty = ''mesh'') \<and> representable (widgets w ! 1) x
                \<and> representable (widgets w ! 2) y \<and> representable (widgets w ! 3) z
              \<longrightarrow> dims' = Vector3d x y z)
          \<and> (ty = ''cylinder'' \<and> representable (widgets w ! 4) (x / 2)
                \<and> representable (widgets w ! 5) z
              \<longrightarrow> dims' = Vector3d x x z)
          \<and> (ty = ''sphere'' \<and> representable (widgets w ! 4) (x / 2) \<longrightarrow> dims' = Vector3d x x x)
          \<and> (ty = ''polyline'' \<longrightarrow> dims' = d0)
          \<and> uri' = (if ty = ''mesh'' then QString_left QLineEdit_maxLength (tr_c_str uri) else u0)" ..
  from all have upd: "UpdateGeometryWidget w ty (Vector3d x y z) uri = Some (True, w')"
    and rd: "GeometryWidgetValue_w w' d0 u0 = Some (ty, dims', uri')"
    and u: "uri' = (if ty = ''mesh'' then QString_left QLineEdit_maxLength (tr_c_str uri) else u0)"
    by simp_all
  from all have rest: "((ty = ''box'' \<or> ty = ''mesh'') \<and> representable (widgets w ! 1) x
                \<and> representable (widgets w ! 2) y \<and> representable (widgets w ! 3) z
              \<longrightarrow> dims' = Vector3d x y z)
          \<and> (ty = ''cylinder'' \<and> representable (widgets w ! 4) (x / 2)
                \<and> representable (widgets w ! 5) z
              \<longrightarrow> dims' = Vector3d x x z)
          \<and> (ty = ''sphere'' \<and> representable (widgets w ! 4) (x / 2) \<longrightarrow> dims' = Vector3d x x x)
          \<and> (ty = ''polyline'' \<longrightarrow> dims' = d0)
          \<and> uri' = (if ty = ''mesh'' then QString_left QLineEdit_maxLength (tr_c_str uri) else u0)"
    by simp
  have set: "SetGeometryWidgetValue st name ty (Vector3d x y z) uri = Some (True, store p w' st)"
    using reg upd by (simp add: SetGeometryWidgetValue_def modify_def)
  have get: "GeometryWidgetValue (store p w' st) name d0 u0 = Some (ty, dims', uri')"
    using reg rd by (simp add: GeometryWidgetValue_def deref_store_same)
  have plain: "ty = ''mesh'' \<and> CHR 0x00 \<notin> set uri \<and> int (length uri) \<le> QLineEdit_maxLength \<longrightarrow> uri' = uri"
    using u by (simp add: tr_c_str_plain QString_left_all)
  from set get rest plain have "SetGeometryWidgetValue st name ty (Vector3d x y z) uri = Some (True, store p w' st)
          \<and> GeometryWidgetValue (store p w' st) name d0 u0 = Some (ty, dims', uri')
          \<and> ((ty = ''box'' \<or> ty = ''mesh'') \<and> representable (widgets w ! 1) x
                \<and> representable (widgets w ! 2) y \<and> representable (widgets w ! 3) z
              \<longrightarrow> dims' = Vector3d x y z)
          \<and> (ty = ''cylinder'' \<and> representable (widgets w ! 4) (x / 2)
                \<and> representable (widgets w ! 5) z
              \<longrightarrow> dims' = Vector3d x x z)
          \<and> (ty = ''sphere'' \<and> representable (widgets w ! 4) (x / 2) \<longrightarrow> dims' = Vector3d x x x)
          \<and> (ty = ''polyline'' \<longrightarrow> dims' = d0)
          \<and> uri' = (if ty = ''mesh'' then QString_left QLineEdit_maxLength (tr_c_str uri) else u0)
          \<and> (ty = ''mesh'' \<and> CHR 0x00 \<notin> set uri \<and> int (length uri) \<le> QLineEdit_maxLength \<longrightarrow> uri' = uri)"
    by simp
  then show ?thesis by (intro exI)
qed

theorem geometry_round_trip_witness:
  "find_widget Visual_widget ''geometry'' = Some 2
   \<and> is_geometry_widget (the (deref Visual_widget 2))
   \<and> representable (widgets (the (deref Visual_widget 2)) ! 4) (3 / 2)
   \<and> representable (widgets (the (deref Visual_widget 2)) ! 5) 5
   \<and> (\<exists>st'. SetGeometryWidgetValue Visual_widget ''geometry'' ''cylinder'' (Vector3d 3 4 5) ''a.dae''
              = Some (True, st')
            \<and> GeometryWidgetValue st' ''geometry'' Vector3d_Zero []
              = Some (''cylinder'', Vector3d 3 3 5, []))
   \<and> representable (widgets (the (deref Visual_widget 2)) ! 1) 3
   \<and> representable (widgets (the (deref Visual_widget 2)) ! 2) 4
   \<and> representable (widgets (the (deref Visual_widget 2)) ! 3) 5
   \<and> (\<exists>st'. SetGeometryWidgetValue Visual_widget ''geometry'' ''mesh'' (Vector3d 3 4 5) ''a.dae''
              = Some (True, st')
            \<and> GeometryWidgetValue st' ''geometry'' Vector3d_Zero []
              = Some (''mesh'', Vector3d 3 4 5, ''a.dae''))"
proof -
  have reg: "find_widget Visual_widget ''geometry'' = Some 2"
    by code_simp
  have w: "deref Visual_widget 2 = Some (the (deref Visual_widget 2))"
    by code_simp
  have gw: "is_geometry_widget (the (deref Visual_widget 2))"
    by code_simp
  have ty: "''cylinder'' \<in> set geometry_types" "''mesh'' \<in> set geometry_types"
    by (simp_all add: geometry_types_def)
  have r4: "representable (widgets (the (deref Visual_widget 2)) ! 4) (3 / 2)"
    by code_simp
  have r5: "representable (widgets (the (deref Visual_widget 2)) ! 5) 5"
    by code_simp
  have r1: "representable (widgets (the (deref Visual_widget 2)) ! 1) 3"
    by code_simp
  have r2: "representable (widgets (the (deref Visual_widget 2)) ! 2) 4"
    by code_simp
  have r3: "representable (widgets (the (deref Visual_widget 2)) ! 3) 5"
    by code_simp
  have c: "\<exists>st'. SetGeometryWidgetValue Visual_widget ''geometry'' ''cylinder'' (Vector3d 3 4 5) ''a.dae''
              = Some (True, st')
            \<and> GeometryWidgetValue st' ''geometry'' Vector3d_Zero []
              = Some (''cylinder'', Vector3d 3 3 5, [])"
    using r4 r5 geometry_round_trip [OF reg w gw ty(1), of 3 4 5 "''a.dae''" Vector3d_Zero "[]"]
    by auto
  have m: "\<exists>st'. SetGeometryWidgetValue Visual_widget ''geometry'' ''mesh'' (Vector3d 3 4 5) ''a.dae''
              = Some (True, st')
            \<and> GeometryWidgetValue st' ''geometry'' Vector3d_Zero []
              = Some (''mesh'', Vector3d 3 4 5, ''a.dae'')"
    using r1 r2 r3 geometry_round_trip [OF reg w gw ty(2), of 3 4 5 "''a.dae''" Vector3d_Zero "[]"]
    by (auto simp: QLineEdit_maxLength_def)
  from reg gw r4 r5 c r1 r2 r3 m show ?thesis by (intro conjI)
qed

text \<open>
  C10 as stated fails for a cylinder whose diameter is an odd number of millionths: the
  diameter 0.000003 is representable with six decimals, its half 0.0000015 is not, so
  the radius stored is 0.000002 and the diameter read back is 0.000004.
\<close>

theorem geometry_cylinder_counterexample:
  "is_geometry_widget (the (deref Visual_widget 2))
   \<and> representable (widgets (the (deref Visual_widget 2)) ! 1) (3 / 1000000)
   \<and> representable (widgets (the (deref Visual_widget 2)) ! 4) (3 / 1000000)
   \<and> representable (widgets (the (deref Visual_widget 2)) ! 5) 1
   \<and> GeometryWidgetValue
        (snd (the (SetGeometryWidgetValue Visual_widget ''geometry'' ''cylinder''
                     (Vector3d (3 / 1000000) (3 / 1000000) 1) [])))
        ''geometry'' Vector3d_Zero []
      = Some (''cylinder'', Vector3d (4 / 1000000) (4 / 1000000) 1, [])"
  by code_simp

section \<open>What the updates of a widget leave alone\<close>

lemma bind_eq_SomeE:
  assumes "Option.bind m f = Some y"
  obtains x where "m = Some x" "f x = Some y"
  using assms by (cases m) auto

lemma vat_SomeD: "vat xs i = Some x \<Longrightarrow> i < length xs \<and> xs ! i = x"
  by (auto simp: vat_def split: if_splits)

lemma keeps_shape_QSpinBox_setValue [simp]: "keeps_shape (QSpinBox_setValue v)"
  unfolding keeps_shape_def by (intro allI impI, case_tac c) auto

lemma keeps_shape_QDoubleSpinBox_setValue [simp]: "keeps_shape (QDoubleSpinBox_setValue v)"
  unfolding keeps_shape_def by (intro allI impI, case_tac c) auto

lemma keeps_shape_QComboBox_setCurrentIndex [simp]: "keeps_shape (QComboBox_setCurrentIndex v)"
  unfolding keeps_shape_def by (intro allI impI, case_tac c) auto

lemma keeps_shape_QLineEdit_setText [simp]: "keeps_shape (QLineEdit_setText v)"
  unfolding keeps_shape_def by (intro allI impI, case_tac c) auto

lemma keeps_shape_QRadioButton_setChecked [simp]: "keeps_shape (QRadioButton_setChecked v)"
  unfolding keeps_shape_def by (intro allI impI, case_tac c) auto

lemma same_widget_refl [simp]: "same_widget w w"
  by (simp add: same_widget_def)

lemma same_widget_trans: "same_widget a b \<Longrightarrow> same_widget b c \<Longrightarrow> same_widget a c"
  by (simp add: same_widget_def)

lemma same_widget_length: "same_widget w w' \<Longrightarrow> length (widgets w') = length (widgets w)"
  by (auto simp: same_widget_def widget_shape_def dest: map_eq_imp_length_eq)

lemma upd_child_same:
  assumes "upd_child i f w = Some w'" "keeps_shape f"
  shows "same_widget w w'"
proof -
  from assms(1) obtain c c' where c: "vat (widgets w) i = Some c" "f c = Some c'" "w' = set_child i c' w"
    by (auto simp: upd_child_def elim!: bind_eq_SomeE)
  then have i: "i < length (widgets w)" "widgets w ! i = c" by (auto dest: vat_SomeD)
  from assms(2) c have "shape c' = shape c" by (simp add: keeps_shape_def)
  with i have "map shape ((widgets w)[i := c']) = map shape (widgets w)"
    by (simp add: map_update list_update_same_conv)
  with c show ?thesis by (simp add: same_widget_def widget_shape_def set_child_def)
qed

lemma upd_child_bind_same:
  assumes "Option.bind (upd_child i f w) k = Some r" "keeps_shape f"
  obtains w1 where "same_widget w w1" "k w1 = Some r"
  using assms by (auto elim!: bind_eq_SomeE dest: upd_child_same)

lemma UpdateIntWidget_same:
  assumes "UpdateIntWidget w v = Some (b, w')" shows "same_widget w w'"
proof (cases "length (widgets w) = 1")
  case True
  with assms have "Option.bind (upd_child 0 (QSpinBox_setValue (sint v)) w) (\<lambda>w'. Some (True, w')) = Some (b, w')"
    by (simp add: UpdateIntWidget_def)
  then show ?thesis by (elim upd_child_bind_same) auto
next
  case False
  with assms show ?thesis by (simp add: UpdateIntWidget_def)
qed

lemma UpdateUIntWidget_same:
  assumes "UpdateUIntWidget w v = Some (b, w')" shows "same_widget w w'"
proof (cases "length (widgets w) = 1")
  case True
  with assms have "Option.bind (upd_child 0 (QSpinBox_setValue (sint v)) w) (\<lambda>w'. Some (True, w')) = Some (b, w')"
    by (simp add: UpdateUIntWidget_def)
  then show ?thesis by (elim upd_child_bind_same) auto
next
  case False
  with assms show ?thesis by (simp add: UpdateUIntWidget_def)
qed

lemma UpdateStringWidget_same:
  assumes "UpdateStringWidget w v = Some (b, w')" shows "same_widget w w'"
proof (cases "length (widgets w) = 1")
  case True
  then obtain c where c: "widgets w = [c]" by (cases "widgets w") auto
  with assms show ?thesis
    by (cases c) (auto simp: UpdateStringWidget_def same_widget_def widget_shape_def set_child_def)
next
  case False
  with assms show ?thesis by (simp add: UpdateStringWidget_def)
qed

lemma UpdateVector3dWidget_same:
  assumes "UpdateVector3dWidget h w v = Some (b, w')" shows "same_widget w w'"
proof (cases "length (widgets w) = 4")
  case True
  with assms have "do {
        w1 \<leftarrow> upd_child 0 (QDoubleSpinBox_setValue (vX v)) w;
        w2 \<leftarrow> upd_child 1 (QDoubleSpinBox_setValue (vY v)) w1;
        w3 \<leftarrow> upd_child 2 (QDoubleSpinBox_setValue (vZ v)) w2;
        w4 \<leftarrow> upd_child 3 (QComboBox_setCurrentIndex (Vector3d_preset h v)) w3;
        Some (True, w4) } = Some (b, w')"
    by (simp add: UpdateVector3dWidget_def)
  then obtain w1 w2 w3 where "same_widget w w1" "same_widget w1 w2" "same_widget w2 w3" "same_widget w3 w'"
    by (elim upd_child_bind_same) auto
  then show ?thesis by (simp add: same_widget_def)
next
  case False
  with assms show ?thesis by (simp add: UpdateVector3dWidget_def)
qed

lemma UpdateColorWidget_same:
  assumes "UpdateColorWidget w v = Some (b, w')" shows "same_widget w w'"
proof (cases "length (widgets w) = 4")
  case True
  with assms have "do {
        w1 \<leftarrow> upd_child 0 (QDoubleSpinBox_setValue (cR v)) w;
        w2 \<leftarrow> upd_child 1 (QDoubleSpinBox_setValue (cG v)) w1;
        w3 \<leftarrow> upd_child 2 (QDoubleSpinBox_setValue (cB v)) w2;
        w4 \<leftarrow> upd_child 3 (QDoubleSpinBox_setValue (cA v)) w3;
        Some (True, w4) } = Some (b, w')"
    by (simp add: UpdateColorWidget_def)
  then obtain w1 w2 w3 where "same_widget w w1" "same_widget w1 w2" "same_widget w2 w3" "same_widget w3 w'"
    by (elim upd_child_bind_same) auto
  then show ?thesis by (simp add: same_widget_def)
next
  case False
  with assms show ?thesis by (simp add: UpdateColorWidget_def)
qed

lemma UpdatePoseWidget_same:
  assumes "UpdatePoseWidget h w v = Some (b, w')" shows "same_widget w w'"
proof (cases "length (widgets w) = 6")
  case True
  with assms have "do {
        w1 \<leftarrow> upd_child 0 (QDoubleSpinBox_setValue (vX (Pos v))) w;
        w2 \<leftarrow> upd_child 1 (QDoubleSpinBox_setValue (vY (Pos v))) w1;
        w3 \<leftarrow> upd_child 2 (QDoubleSpinBox_setValue (vZ (Pos v))) w2;
        w4 \<leftarrow> upd_child 3 (QDoubleSpinBox_setValue (vX (Euler h (Rot v)))) w3;
        w5 \<leftarrow> upd_child 4 (QDoubleSpinBox_setValue (vY (Euler h (Rot v)))) w4;
        w6 \<leftarrow> upd_child 5 (QDoubleSpinBox_setValue (vZ (Euler h (Rot v)))) w5;
        Some (True, w6) } = Some (b, w')"
    by (simp add: UpdatePoseWidget_def Let_def)
  then obtain w1 w2 w3 w4 w5 where "same_widget w w1" "same_widget w1 w2" "same_widget w2 w3"
      "same_widget w3 w4" "same_widget w4 w5" "same_widget w5 w'"
    by (elim upd_child_bind_same) auto
  then show ?thesis by (simp add: same_widget_def)
next
  case False
  with assms show ?thesis by (simp add: UpdatePoseWidget_def)
qed

lemma UpdateEnumWidget_same:
  assumes "UpdateEnumWidget w v = Some (b, w')" shows "same_widget w w'"
proof (cases "length (widgets w) = 1")
  case True
  then obtain c where c: "widgets w = [c]" by (cases "widgets w") auto
  show ?thesis
  proof (cases c)
    case (QComboBox its i)
    show ?thesis
    proof (cases "findText_from 0 its (tr_c_str v) < 0")
      case True
      with assms c QComboBox show ?thesis by (simp add: UpdateEnumWidget_def)
    next
      case False
      with assms c QComboBox
      have "Option.bind (upd_child 0 (QComboBox_setCurrentIndex (findText_from 0 its (tr_c_str v))) w)
              (\<lambda>w'. Some (True, w')) = Some (b, w')"
        by (simp add: UpdateEnumWidget_def Let_def)
      then show ?thesis by (elim upd_child_bind_same) auto
    qed
  qed (use assms c in \<open>auto simp: UpdateEnumWidget_def\<close>)
next
  case False
  with assms show ?thesis by (simp add: UpdateEnumWidget_def)
qed

lemma SetDensity_same:
  assumes "SetDensity h w d = Some w'" shows "same_widget w w'"
proof -
  from assms obtain w1 w2 where
      w1: "(if Nearest h d \<ge> 0
            then do { _ \<leftarrow> get_child 0 QComboBox_count w; Some w }
            else do { n \<leftarrow> get_child 0 QComboBox_count w;
                      upd_child 0 (QComboBox_setCurrentIndex (n - 1)) w }) = Some w1"
      and w2: "upd_child 1 (QDoubleSpinBox_setValue d) w1 = Some w2"
      and w': "w' = w2\<lparr>density := d\<rparr>"
    unfolding SetDensity_def by (auto elim!: bind_eq_SomeE)
  from w1 have "same_widget w w1"
    by (auto split: if_splits elim!: bind_eq_SomeE dest!: upd_child_same)
  moreover from w2 have "same_widget w1 w2" by (auto dest!: upd_child_same)
  ultimately show ?thesis using w' by (simp add: same_widget_def widget_shape_def)
qed

lemma UpdateDensityWidget_same:
  "UpdateDensityWidget h w v = Some (b, w') \<Longrightarrow> same_widget w w'"
  by (auto simp: UpdateDensityWidget_def split: if_splits elim!: bind_eq_SomeE dest: SetDensity_same)

lemma BoolWidget_SetValue_same:
  assumes "BoolWidget_SetValue w v = Some (b, w')" shows "same_widget w w'"
proof -
  from assms obtain w1 where "same_widget w w1" "same_widget w1 w'"
    unfolding BoolWidget_SetValue_def by (elim upd_child_bind_same) auto
  then show ?thesis by (rule same_widget_trans)
qed

lemma UpdateGeometryWidget_same:
  assumes "UpdateGeometryWidget w t d u = Some (b, w')" shows "same_widget w w'"
proof (cases "length (widgets w) \<noteq> 8")
  case True
  with assms show ?thesis by (simp add: UpdateGeometryWidget_def)
next
  case False
  with assms have "do {
        index \<leftarrow> get_child 0 (\<lambda>c. QComboBox_findText c (tr_c_str t)) w;
        if index < 0 then Some (False, w)
        else do {
          w0 \<leftarrow> upd_child 0 (QComboBox_setCurrentIndex index) w;
          w1 \<leftarrow>
            (if t = ''box'' \<or> t = ''mesh'' then do {
               a \<leftarrow> upd_child 1 (QDoubleSpinBox_setValue (vX d)) w0;
               b \<leftarrow> upd_child 2 (QDoubleSpinBox_setValue (vY d)) a;
               upd_child 3 (QDoubleSpinBox_setValue (vZ d)) b }
             else if t = ''cylinder'' then do {
               a \<leftarrow> upd_child 4 (QDoubleSpinBox_setValue (vX d * (1 / 2))) w0;
               upd_child 5 (QDoubleSpinBox_setValue (vZ d)) a }
             else if t = ''sphere'' then
               upd_child 4 (QDoubleSpinBox_setValue (vX d * (1 / 2))) w0
             else Some w0);
          w2 \<leftarrow> (if t = ''mesh'' then upd_child 6 (QLineEdit_setText (tr_c_str u)) w1 else Some w1);
          Some (True, w2) } } = Some (b, w')"
    unfolding UpdateGeometryWidget_def Let_def by simp
  then obtain index where r: "(if index < 0 then Some (False, w)
        else do {
          w0 \<leftarrow> upd_child 0 (QComboBox_setCurrentIndex index) w;
          w1 \<leftarrow>
            (if t = ''box'' \<or> t = ''mesh'' then do {
               a \<leftarrow> upd_child 1 (QDoubleSpinBox_setValue (vX d)) w0;
               b \<leftarrow> upd_child 2 (QDoubleSpinBox_setValue (vY d)) a;
               upd_child 3 (QDoubleSpinBox_setValue (vZ d)) b }
             else if t = ''cylinder'' then do {
               a \<leftarrow> upd_child 4 (QDoubleSpinBox_setValue (vX d * (1 / 2))) w0;
               upd_child 5 (QDoubleSpinBox_setValue (vZ d)) a }
             else if t = ''sphere'' then
               upd_child 4 (QDoubleSpinBox_setValue (vX d * (1 / 2))) w0
             else Some w0);
          w2 \<leftarrow> (if t = ''mesh'' then upd_child 6 (QLineEdit_setText (tr_c_str u)) w1 else Some w1);
          Some (True, w2) }) = Some (b, w')"
    by (rule bind_eq_SomeE)
  show ?thesis
  proof (cases "index < 0")
    case True
    with r show ?thesis by simp
  next
    case False
    with r obtain w0 w1 where w0: "upd_child 0 (QComboBox_setCurrentIndex index) w = Some w0"
      and w1: "(if t = ''box'' \<or> t = ''mesh'' then do {
               a \<leftarrow> upd_child 1 (QDoubleSpinBox_setValue (vX d)) w0;
               b \<leftarrow> upd_child 2 (QDoubleSpinBox_setValue (vY d)) a;
               upd_child 3 (QDoubleSpinBox_setValue (vZ d)) b }
             else if t = ''cylinder'' then do {
               a \<leftarrow> upd_child 4 (QDoubleSpinBox_setValue (vX d * (1 / 2))) w0;
               upd_child 5 (QDoubleSpinBox_setValue (vZ d)) a }
             else if t = ''sphere'' then
               upd_child 4 (QDoubleSpinBox_setValue (vX d * (1 / 2))) w0
             else Some w0) = Some w1"
      and w2: "(if t = ''mesh'' then upd_child 6 (QLineEdit_setText (tr_c_str u)) w1 else Some w1) = Some w'"
      by (auto elim!: bind_eq_SomeE)
    from w0 have s0: "same_widget w w0" by (auto dest!: upd_child_same)
    from w1 have s1: "same_widget w0 w1"
      by (auto split: if_splits elim!: bind_eq_SomeE dest!: upd_child_same simp: same_widget_def)
    from w2 have s2: "same_widget w1 w'"
      by (auto split: if_splits dest!: upd_child_same)
    from s0 s1 s2 show ?thesis by (simp add: same_widget_def)
  qed
qed


section \<open>The steps of Parse\<close>

lemma frame_refl [simp]: "frame st st"
  by (simp add: frame_def)

lemma only_refl [simp]: "only p st st"
  by (simp add: only_def)

lemma only_trans: "only p a b \<Longrightarrow> only p b c \<Longrightarrow> only p a c"
  by (auto simp: only_def frame_def intro: same_widget_trans)

lemma frame_find_widget: "frame st st' \<Longrightarrow> find_widget st' name = find_widget st name"
  by (simp add: frame_def find_widget_def)

lemma only_find_widget: "only p st st' \<Longrightarrow> find_widget st' name = find_widget st name"
  by (simp add: only_def frame_find_widget)

lemma modify_only:
  assumes "modify st p f = Some (b, st')"
    and "\<And>w w'. f w = Some (b, w') \<Longrightarrow> same_widget w w'"
  shows "only p st st'"
proof -
  from assms(1) obtain w w' where w: "deref st p = Some w" and f: "f w = Some (b, w')"
      and st': "st' = store p w' st"
    by (auto simp: modify_def elim!: bind_eq_SomeE split: prod.splits)
  from w have p: "p < length (heap st)" "heap st ! p = w"
    by (auto simp: deref_def dest: vat_SomeD)
  from assms(2) [OF f] p st' show ?thesis
    by (simp add: only_def frame_def store_def)
qed

lemma modify_deref:
  assumes "modify st p f = Some (b, st')"
  shows "\<exists>w w'. deref st p = Some w \<and> f w = Some (b, w') \<and> deref st' p = Some w' \<and> st' = store p w' st"
proof -
  from assms obtain w w' where w: "deref st p = Some w" and f: "f w = Some (b, w')"
      and st': "st' = store p w' st"
    by (auto simp: modify_def elim!: bind_eq_SomeE split: prod.splits)
  from w st' have "deref st' p = Some w'"
    by (auto simp: deref_def store_def vat_def split: if_splits)
  with w f st' show ?thesis by blast
qed

lemma UpdateDoubleWidget_only:
  assumes "UpdateDoubleWidget st p v = Some (b, st')"
  shows "only p st st'"
proof -
  from assms obtain w where w: "deref st p = Some w"
    by (auto simp: UpdateDoubleWidget_def elim!: bind_eq_SomeE)
  then have p: "p < length (heap st)" "heap st ! p = w"
    by (auto simp: deref_def dest: vat_SomeD)
  show ?thesis
  proof (cases "length (widgets w) = 1")
    case True
    with assms w obtain w' where w': "upd_child 0 (QDoubleSpinBox_setValue v) w = Some w'"
        and st': "st' = store p w' st"
      by (auto simp: UpdateDoubleWidget_def Let_def elim!: bind_eq_SomeE split: if_splits)
    from w' have "same_widget w w'" by (auto dest!: upd_child_same)
    with p st' show ?thesis by (simp add: only_def frame_def store_def)
  next
    case False
    with assms w show ?thesis by (simp add: UpdateDoubleWidget_def)
  qed
qed

lemma alloc_facts:
  assumes "alloc w st = (p, st1)"
  shows "p = length (heap st)" "heap st1 = heap st @ [w]" "configWidgets st1 = configWidgets st"
    "messages st1 = messages st" "msg st1 = msg st"
  using assms by (auto simp: alloc_def)

lemma Parse_leaf_post:
  assumes res: "Parse_leaf st name n level grouped create update = Some (nw, st')"
    and upd: "\<And>s p b s'. update s p = Some (b, s') \<Longrightarrow> only p s s'"
  shows "leaf_post st (scoped name n) grouped create nw st'"
proof (cases "find_widget st (scoped name n)")
  case (Some p)
  with res obtain b where "update st p = Some (b, st')" "nw = None"
    by (auto simp: Parse_leaf_def elim!: bind_eq_SomeE split: prod.splits)
  with upd Some show ?thesis by (simp add: leaf_post_def)
next
  case None
  let ?p = "length (heap st)"
  let ?s = "scoped name n"
  define st1 where "st1 = st\<lparr>heap := heap st @ [the create]\<rparr>"
  from res None obtain w b st2 st3 b' where c: "create = Some w"
      and u: "update st1 ?p = Some (b, st2)"
      and g: "(if grouped then group_widget st2 ?p n level else Some st2) = Some st3"
      and a: "AddPropertyWidget st3 ?s (Some ?p) = Some (b', st')"
      and nw: "nw = Some ?p"
    by (auto simp: Parse_leaf_def alloc_def st1_def elim!: bind_eq_SomeE split: prod.splits)
  from upd [OF u] have o12: "only ?p st1 st2" .
  have h1: "heap st1 = heap st @ [w]" "configWidgets st1 = configWidgets st"
      "messages st1 = messages st" "msg st1 = msg st"
    using c by (simp_all add: st1_def)
  from o12 h1 have len2: "length (heap st2) = Suc ?p"
      and old2: "\<forall>q < ?p. heap st2 ! q = heap st ! q"
      and new2: "same_widget w (heap st2 ! ?p)"
      and cw2: "configWidgets st2 = configWidgets st" "messages st2 = messages st" "msg st2 = msg st"
    by (auto simp: only_def frame_def nth_append)
  have st3: "length (heap st3) = Suc ?p \<and> (\<forall>q < ?p. heap st3 ! q = heap st ! q)
      \<and> widget_shape (heap st3 ! ?p) = widget_shape w
      \<and> scopedName (heap st3 ! ?p) = scopedName w
      \<and> groupWidget (heap st3 ! ?p) = (if grouped then Some (True, True) else groupWidget w)
      \<and> enabled (heap st3 ! ?p) = enabled w
      \<and> configWidgets st3 = configWidgets st \<and> messages st3 = messages st \<and> msg st3 = msg st"
  proof (cases grouped)
    case True
    with g obtain w2 where "deref st2 ?p = Some w2" "st3 = store ?p (CreateGroupWidget n w2 level) st2"
      by (auto simp: group_widget_def elim!: bind_eq_SomeE)
    with len2 old2 new2 cw2 True show ?thesis
      by (auto simp: deref_def store_def CreateGroupWidget_def same_widget_def widget_shape_def
          dest!: vat_SomeD)
  next
    case False
    with g len2 old2 new2 cw2 show ?thesis by (auto simp: same_widget_def)
  qed
  have "created st ?s grouped w st'"
  proof (cases "?s = []")
    case True
    with a have "st' = st3" by (simp add: AddPropertyWidget_def)
    with st3 True show ?thesis by (auto simp: created_def)
  next
    case False
    from st3 cw2 None have "find_widget st3 ?s = None" by (simp add: find_widget_def)
    with a False obtain w3 where "deref st3 ?p = Some w3"
        and "st' = (store ?p (w3\<lparr>scopedName := ?s\<rparr>) st3)\<lparr>configWidgets := (?s, ?p) # configWidgets st3\<rparr>"
      by (auto simp: AddPropertyWidget_def elim!: bind_eq_SomeE)
    with st3 False show ?thesis
      by (auto simp: created_def deref_def store_def widget_shape_def dest!: vat_SomeD)
  qed
  with None c nw show ?thesis by (simp add: leaf_post_def)
qed


lemma Parse_scalar_post:
  assumes "Parse_scalar h st name n level v = Some (nw, st')"
  shows "if has_widget v
         then leaf_post st (scoped name n) False (scalar_widget h st n level v) nw st'
         else nw = None \<and> st' = st"
proof (cases v)
  case (TYPE_DOUBLE d)
  with assms show ?thesis
    by (auto simp: Parse_scalar_def has_widget_def scalar_widget_def
        intro!: Parse_leaf_post [where update = "\<lambda>s p. UpdateDoubleWidget s p d"]
        elim: UpdateDoubleWidget_only)
next
  case (TYPE_FLOAT d)
  with assms show ?thesis
    by (auto simp: Parse_scalar_def has_widget_def scalar_widget_def
        intro!: Parse_leaf_post [where update = "\<lambda>s p. UpdateDoubleWidget s p d"]
        elim: UpdateDoubleWidget_only)
next
  case (TYPE_INT64 i)
  with assms show ?thesis
    by (auto simp: Parse_scalar_def has_widget_def scalar_widget_def
        intro!: Parse_leaf_post [where update = "\<lambda>s p. modify s p (\<lambda>w. UpdateIntWidget w (ucast i))"]
        elim!: modify_only UpdateIntWidget_same)
next
  case (TYPE_UINT64 i)
  with assms show ?thesis
    by (auto simp: Parse_scalar_def has_widget_def scalar_widget_def
        intro!: Parse_leaf_post [where update = "\<lambda>s p. modify s p (\<lambda>w. UpdateUIntWidget w (ucast i))"]
        elim!: modify_only UpdateUIntWidget_same)
next
  case (TYPE_INT32 i)
  with assms show ?thesis
    by (auto simp: Parse_scalar_def has_widget_def scalar_widget_def
        intro!: Parse_leaf_post [where update = "\<lambda>s p. modify s p (\<lambda>w. UpdateIntWidget w i)"]
        elim!: modify_only UpdateIntWidget_same)
next
  case (TYPE_UINT32 i)
  with assms show ?thesis
    by (auto simp: Parse_scalar_def has_widget_def scalar_widget_def
        intro!: Parse_leaf_post [where update = "\<lambda>s p. modify s p (\<lambda>w. UpdateUIntWidget w i)"]
        elim!: modify_only UpdateUIntWidget_same)
next
  case (TYPE_BOOL b)
  have upd: "\<And>s p c s'. (do {
               w \<leftarrow> deref s p;
               if cls w = BoolWidgetC then modify s p (\<lambda>w. BoolWidget_SetValue w b)
               else Some (False, s) }) = Some (c, s') \<Longrightarrow> only p s s'"
    by (auto elim!: bind_eq_SomeE modify_only BoolWidget_SetValue_same split: if_splits)
  from assms TYPE_BOOL show ?thesis
    by (auto simp: Parse_scalar_def has_widget_def scalar_widget_def
        intro!: Parse_leaf_post [OF _ upd])
next
  case (TYPE_STRING t)
  with assms show ?thesis
    by (auto simp: Parse_scalar_def has_widget_def scalar_widget_def
        intro!: Parse_leaf_post [where update = "\<lambda>s p. modify s p (\<lambda>w. UpdateStringWidget w t)"]
        elim!: modify_only UpdateStringWidget_same)
next
  case (TYPE_MESSAGE t sub)
  with assms show ?thesis by (simp add: Parse_scalar_def has_widget_def)
next
  case (TYPE_ENUM names i)
  with assms show ?thesis
    by (auto simp: Parse_scalar_def has_widget_def scalar_widget_def split: if_splits
        intro!: Parse_leaf_post [where update = "\<lambda>s p. modify s p (\<lambda>w. UpdateEnumWidget w (names ! i))"]
        elim!: modify_only UpdateEnumWidget_same)
next
  case TYPE_OTHER
  with assms show ?thesis by (simp add: Parse_scalar_def has_widget_def)
qed

lemma Parse_special_post:
  assumes "Parse_special h st name n level t sub = Some (sub', nw, st')"
    and "t \<in> set special_types"
  shows "leaf_post st (scoped name n) True (Some (dedicated_widget h t n level)) nw st'"
proof -
  from assms(2) consider "t = ''Geometry''" | "t = ''Pose''" | "t = ''Vector3d''" | "t = ''Color''"
    | "t = ''Density''"
    by (auto simp: special_types_def)
  then show ?thesis
  proof cases
    case 1
    with assms obtain shown where
      "Parse_leaf st name n level True (Some (CreateGeometryWidget h n level))
            (\<lambda>s p. case shown of
                     None \<Rightarrow> Some (False, s)
                   | Some (ty, dims) \<Rightarrow> modify s p (\<lambda>w. UpdateGeometryWidget w ty dims [])) = Some (nw, st')"
      by (auto simp: Parse_special_def elim!: bind_eq_SomeE split: prod.splits)
    then have "leaf_post st (scoped name n) True (Some (CreateGeometryWidget h n level)) nw st'"
      by (rule Parse_leaf_post)
         (auto split: option.splits prod.splits elim!: modify_only UpdateGeometryWidget_same)
    with 1 show ?thesis by (simp add: dedicated_widget_def)
  next
    case 2
    with assms obtain pose where
      "Parse_leaf st name n level True (Some (CreatePoseWidget h n level))
            (\<lambda>s p. modify s p (\<lambda>w. UpdatePoseWidget h w pose)) = Some (nw, st')"
      by (auto simp: Parse_special_def elim!: bind_eq_SomeE split: prod.splits)
    then have "leaf_post st (scoped name n) True (Some (CreatePoseWidget h n level)) nw st'"
      by (rule Parse_leaf_post) (auto elim!: modify_only UpdatePoseWidget_same)
    with 2 show ?thesis by (simp add: dedicated_widget_def)
  next
    case 3
    with assms obtain vec3 where
      "Parse_leaf st name n level True (Some (CreateVector3dWidget h n level))
            (\<lambda>s p. modify s p (\<lambda>w. UpdateVector3dWidget h w vec3)) = Some (nw, st')"
      by (auto simp: Parse_special_def elim!: bind_eq_SomeE split: prod.splits)
    then have "leaf_post st (scoped name n) True (Some (CreateVector3dWidget h n level)) nw st'"
      by (rule Parse_leaf_post) (auto elim!: modify_only UpdateVector3dWidget_same)
    with 3 show ?thesis by (simp add: dedicated_widget_def)
  next
    case 4
    with assms have
      "Parse_leaf st name n level True (Some (CreateColorWidget h n level))
            (\<lambda>s p. do {
               w \<leftarrow> deref s p;
               color \<leftarrow> Parse_Color sub (length (widgets w));
               modify s p (\<lambda>w. UpdateColorWidget w color) }) = Some (nw, st')"
      by (auto simp: Parse_special_def elim!: bind_eq_SomeE split: prod.splits)
    then have "leaf_post st (scoped name n) True (Some (CreateColorWidget h n level)) nw st'"
      by (rule Parse_leaf_post) (auto elim!: bind_eq_SomeE modify_only UpdateColorWidget_same)
    with 4 show ?thesis by (simp add: dedicated_widget_def)
  next
    case 5
    with assms obtain d where
      "Parse_leaf st name n level True (Some (CreateDensityWidget h n level))
            (\<lambda>s p. modify s p (\<lambda>w. UpdateDensityWidget h w d)) = Some (nw, st')"
      by (auto simp: Parse_special_def elim!: bind_eq_SomeE split: prod.splits)
    then have "leaf_post st (scoped name n) True (Some (CreateDensityWidget h n level)) nw st'"
      by (rule Parse_leaf_post) (auto elim!: modify_only UpdateDensityWidget_same)
    with 5 show ?thesis by (simp add: dedicated_widget_def)
  qed
qed

lemma is_message_Field [simp]:
  "is_message (Field n rep has v) = (case v of TYPE_MESSAGE t sub \<Rightarrow> True | _ \<Rightarrow> False)"
  by (simp add: is_message_def)

lemma Parse_field_scalar:
  "\<not> is_message (Field n rep has v) \<Longrightarrow>
   Parse_field h u name level (Field n rep has v) st =
     (if rep \<or> (u \<and> \<not> has) then Some (Field n rep has v, None, st)
      else do {
        (nw, st') \<leftarrow> Parse_scalar h st name n level v;
        Some (Field n rep has v, nw, st') })"
  by (cases v) simp_all

lemma Parse_induct [case_names Nil Cons Message Scalar]:
  assumes "\<And>h u name level st. P h u name level [] st"
    and "\<And>h u name level f fs st.
          \<lbrakk>Q h u name level f st;
           \<And>f' nw st1. Parse_field h u name level f st = Some (f', nw, st1) \<Longrightarrow> P h u name level fs st1\<rbrakk>
          \<Longrightarrow> P h u name level (f # fs) st"
    and "\<And>h u name level n rep has t sub st.
          (\<lbrakk>\<not> (rep \<or> u \<and> \<not> has); t \<notin> set special_types\<rbrakk>
             \<Longrightarrow> P h u (scoped name n) (level + 1) sub st)
          \<Longrightarrow> Q h u name level (Field n rep has (TYPE_MESSAGE t sub)) st"
    and "\<And>h u name level n rep has v st.
          \<not> is_message (Field n rep has v) \<Longrightarrow> Q h u name level (Field n rep has v) st"
  shows "P h u name level m st" and "Q h u name level f st"
proof (induction h u name level m st and h u name level f st rule: Parse_Parse_field.induct)
  case (2 h update name level f fs st)
  then show ?case by (intro assms(2)) auto
qed (auto intro: assms)


lemma Parse_field_skip:
  "rep \<or> u \<and> \<not> has \<Longrightarrow>
   Parse_field h u name level (Field n rep has v) st = Some (Field n rep has v, None, st)"
  by (cases v) auto

lemma Parse_field_special:
  assumes "Parse_field h u name level (Field n rep has (TYPE_MESSAGE t sub)) st = Some (f', nw, st')"
    and "\<not> (rep \<or> u \<and> \<not> has)" and "t \<in> set special_types"
  obtains sub' where "Parse_special h st name n level t sub = Some (sub', nw, st')"
    and "f' = Field n rep True (TYPE_MESSAGE t sub')"
  using assms by (auto elim!: bind_eq_SomeE split: prod.splits)

lemma Parse_field_generic:
  assumes res: "Parse_field h u name level (Field n rep has (TYPE_MESSAGE t sub)) st = Some (f', nw, st')"
    and vis: "\<not> (rep \<or> u \<and> \<not> has)" and gen: "t \<notin> set special_types"
  obtains sub' nws st1 where "Parse h u (scoped name n) (level + 1) sub st = Some (sub', nws, st1)"
    and "f' = Field n rep True (TYPE_MESSAGE t sub')"
    and "wrapper_post st st1 (scoped name n) nws nw st'"
proof -
  let ?s = "scoped name n"
  let ?w = "(new_PropertyWidget PropertyWidgetC)\<lparr>widgets := [QGroupBox nws]\<rparr>"
  from res vis gen obtain sub' nws st1 where
      rec: "Parse h u ?s (level + 1) sub st = Some (sub', nws, st1)"
      and rest: "(if nws = [] then Some (Field n rep True (TYPE_MESSAGE t sub'), None, st1)
        else do {
          (p, st2) \<leftarrow>
            Some (alloc ((new_PropertyWidget PropertyWidgetC)\<lparr>widgets := [QGroupBox nws]\<rparr>) st1);
          if find_widget st ?s = None then do {
            st3 \<leftarrow> group_widget st2 p n level;
            (_, st4) \<leftarrow> AddPropertyWidget st3 ?s (Some p);
            Some (Field n rep True (TYPE_MESSAGE t sub'), Some p, st4) }
          else Some (Field n rep True (TYPE_MESSAGE t sub'), None, st2) }) = Some (f', nw, st')"
    by (auto elim!: bind_eq_SomeE split: prod.splits)
  have f': "f' = Field n rep True (TYPE_MESSAGE t sub')"
    using rest by (auto split: if_splits prod.splits elim!: bind_eq_SomeE)
  have "wrapper_post st st1 ?s nws nw st'"
  proof (cases "nws = []")
    case True
    with rest show ?thesis by (simp add: wrapper_post_def)
  next
    case ne: False
    let ?p = "length (heap st1)"
    define st2 where "st2 = st1\<lparr>heap := heap st1 @ [(new_PropertyWidget PropertyWidgetC)\<lparr>widgets := [QGroupBox nws]\<rparr>]\<rparr>"
    show ?thesis
    proof (cases "find_widget st ?s = None")
      case False
      with rest ne show ?thesis by (auto simp: wrapper_post_def alloc_def)
    next
      case True
      with rest ne obtain st3 b where g: "group_widget st2 ?p n level = Some st3"
          and a: "AddPropertyWidget st3 ?s (Some ?p) = Some (b, st')" and nw: "nw = Some ?p"
        by (auto simp: alloc_def st2_def elim!: bind_eq_SomeE split: prod.splits)
      from g have st3: "st3 = store ?p (CreateGroupWidget n ((new_PropertyWidget PropertyWidgetC)\<lparr>widgets := [QGroupBox nws]\<rparr>) level) st2"
        by (auto simp: group_widget_def st2_def deref_def vat_def elim!: bind_eq_SomeE)
      have fw: "find_widget st3 ?s = find_widget st1 ?s"
        by (simp add: st3 st2_def find_widget_def store_def)
      have "wrapped st1 ?s nws st'"
      proof (cases "?s = [] \<or> find_widget st1 ?s \<noteq> None")
        case True
        with a fw have "st' = st3" by (auto simp: AddPropertyWidget_def split: if_splits)
        with True show ?thesis
          by (auto simp: wrapped_def st3 st2_def store_def CreateGroupWidget_def new_PropertyWidget_def
              nth_append)
      next
        case False
        with a fw obtain w3 where "deref st3 ?p = Some w3"
          and "st' = (store ?p (w3\<lparr>scopedName := ?s\<rparr>) st3)\<lparr>configWidgets := (?s, ?p) # configWidgets st3\<rparr>"
          by (auto simp: AddPropertyWidget_def elim!: bind_eq_SomeE)
        with False show ?thesis
          by (auto simp: wrapped_def st3 st2_def store_def deref_def CreateGroupWidget_def
              new_PropertyWidget_def nth_append dest!: vat_SomeD)
      qed
      with True ne nw show ?thesis by (simp add: wrapper_post_def)
    qed
  qed
  with rec f' show ?thesis by (rule that)
qed

subsection \<open>Parse only adds\<close>

lemma grows_refl [simp]: "grows st st"
  by (simp add: grows_def)

lemma registered_find: "s \<in> registered st \<longleftrightarrow> find_widget st s \<noteq> None"
  by (simp add: registered_def find_widget_def map_of_eq_None_iff)

lemma grows_trans:
  assumes "grows a b" "grows b c"
  shows "grows a c"
proof -
  from assms(1) obtain e1 where e1: "configWidgets b = e1 @ configWidgets a"
      "\<forall>(s, p) \<in> set e1. s \<notin> registered a \<and> length (heap a) \<le> p \<and> p < length (heap b)"
    by (auto simp: grows_def)
  from assms(2) obtain e2 where e2: "configWidgets c = e2 @ configWidgets b"
      "\<forall>(s, p) \<in> set e2. s \<notin> registered b \<and> length (heap b) \<le> p \<and> p < length (heap c)"
    by (auto simp: grows_def)
  from assms have len: "length (heap a) \<le> length (heap b)" "length (heap b) \<le> length (heap c)"
    by (auto simp: grows_def)
  have sub: "registered a \<subseteq> registered b" using e1 by (auto simp: registered_def)
  have "configWidgets c = (e2 @ e1) @ configWidgets a" using e1 e2 by simp
  moreover have "\<forall>(s, p) \<in> set (e2 @ e1). s \<notin> registered a \<and> length (heap a) \<le> p \<and> p < length (heap c)"
    using e1(2) e2(2) len sub by fastforce
  moreover have "\<forall>q < length (heap a). same_widget (heap a ! q) (heap c ! q)"
  proof (intro allI impI)
    fix q assume q: "q < length (heap a)"
    with assms(1) have 1: "same_widget (heap a ! q) (heap b ! q)" by (simp add: grows_def)
    from q len assms(2) have 2: "same_widget (heap b ! q) (heap c ! q)" by (simp add: grows_def)
    from 1 2 show "same_widget (heap a ! q) (heap c ! q)" by (rule same_widget_trans)
  qed
  ultimately show ?thesis using assms len by (auto simp: grows_def)
qed

lemma only_grows: "only p st st' \<Longrightarrow> grows st st'"
  by (auto simp: only_def frame_def grows_def)

lemma created_grows:
  assumes "created st s grouped w st'" "find_widget st s = None"
  shows "grows st st'"
proof -
  from assms(2) have "s \<notin> registered st" by (simp add: registered_find)
  with assms(1) show ?thesis
    by (cases "s = []") (auto simp: created_def grows_def)
qed

lemma leaf_post_grows: "leaf_post st s grouped c nw st' \<Longrightarrow> grows st st'"
  by (auto simp: leaf_post_def split: option.splits intro: only_grows created_grows)


lemma grows_registered: "grows st st' \<Longrightarrow> registered st \<subseteq> registered st'"
  by (auto simp: grows_def registered_def)

lemma wrapper_post_grows:
  assumes "wrapper_post st st1 s nws nw st'"
  shows "grows st1 st'"
proof (cases "nws = []")
  case True
  with assms show ?thesis by (simp add: wrapper_post_def)
next
  case ne: False
  show ?thesis
  proof (cases "find_widget st s = None")
    case True
    with assms ne have w: "wrapped st1 s nws st'" by (simp add: wrapper_post_def)
    show ?thesis
    proof (cases "s = [] \<or> find_widget st1 s \<noteq> None")
      case True
      with w show ?thesis by (auto simp: wrapped_def grows_def)
    next
      case False
      then have "s \<notin> registered st1" by (simp add: registered_find)
      with w False show ?thesis by (auto simp: wrapped_def grows_def)
    qed
  next
    case False
    with assms ne show ?thesis by (auto simp: wrapper_post_def grows_def nth_append)
  qed
qed

lemma Parse_grows:
  "Parse h u name level m st = Some (m', nws, st') \<Longrightarrow> grows st st'"
  "Parse_field h u name level f st = Some (f', nw, st'') \<Longrightarrow> grows st st''"
proof (induction h u name level m st and h u name level f st
    arbitrary: m' nws st' and f' nw st'' rule: Parse_induct)
  case (Nil h u name level st)
  then show ?case by simp
next
  case (Cons h u name level f fs st)
  from Cons.prems obtain f1 nw1 st1 fs1 nws1 where
      1: "Parse_field h u name level f st = Some (f1, nw1, st1)"
      and 2: "Parse h u name level fs st1 = Some (fs1, nws1, st')"
    by (auto elim!: bind_eq_SomeE split: prod.splits)
  from Cons.IH(1) [OF 1] Cons.IH(2) [OF 1 2] show ?case by (rule grows_trans)
next
  case (Message h u name level n rep has t sub st)
  show ?case
  proof (cases "rep \<or> u \<and> \<not> has")
    case True
    with Message.prems show ?thesis by (simp add: Parse_field_skip)
  next
    case vis: False
    show ?thesis
    proof (cases "t \<in> set special_types")
      case True
      from Message.prems vis True obtain sub' where
        "Parse_special h st name n level t sub = Some (sub', nw, st'')"
        by (rule Parse_field_special)
      from Parse_special_post [OF this True] show ?thesis by (rule leaf_post_grows)
    next
      case False
      from Message.prems vis False obtain sub' nws st1 where
          rec: "Parse h u (scoped name n) (level + 1) sub st = Some (sub', nws, st1)"
          and wp: "wrapper_post st st1 (scoped name n) nws nw st''"
        by (rule Parse_field_generic)
      from Message.IH [OF vis False rec] wrapper_post_grows [OF wp] show ?thesis
        by (rule grows_trans)
    qed
  qed
next
  case (Scalar h u name level n rep has v st)
  show ?case
  proof (cases "rep \<or> u \<and> \<not> has")
    case True
    with Scalar.prems show ?thesis by (simp add: Parse_field_skip)
  next
    case False
    with Scalar obtain "Parse_scalar h st name n level v = Some (nw, st'')"
      by (auto simp: Parse_field_scalar elim!: bind_eq_SomeE split: prod.splits)
    from Parse_scalar_post [OF this] show ?thesis
      by (auto split: if_splits intro: leaf_post_grows)
  qed
qed


section \<open>The dispatch on the message type\<close>

lemma kind_shape [simp]: "kind (shape c) = kind c"
  by (cases c) simp_all

lemma widget_shape_layout: "widget_shape w' = widget_shape w \<Longrightarrow> layout w' = layout w"
proof -
  assume "widget_shape w' = widget_shape w"
  then have "cls w' = cls w" "map shape (widgets w') = map shape (widgets w)"
    by (simp_all add: widget_shape_def)
  from this(2) have "map kind (map shape (widgets w')) = map kind (map shape (widgets w))"
    by simp
  then have "map kind (widgets w') = map kind (widgets w)" by (simp add: o_def)
  with \<open>cls w' = cls w\<close> show ?thesis by (simp add: layout_def)
qed

lemma dedicated_widget_layout:
  "t \<in> set special_types \<Longrightarrow> layout (dedicated_widget h t n level) = composite_layout t"
  by (auto simp: special_types_def dedicated_widget_def composite_layout_def layout_def
      CreateGeometryWidget_def CreatePoseWidget_def CreateVector3dWidget_def CreateColorWidget_def
      CreateDensityWidget_def new_PropertyWidget_def QDoubleSpinBox_create_def
      QDoubleSpinBox_create_val_def QComboBox_create_def Let_def numeral_eq_Suc)

lemma wrapper_layout:
  "t \<in> set special_types \<Longrightarrow> composite_layout t \<noteq> (PropertyWidgetC, [''QGroupBox''])"
  by (auto simp: special_types_def composite_layout_def)

text \<open>
  C5, as amended. A singular field of message type is skipped in update mode when it is
  not set. Otherwise it is dispatched on the name of its message type. For \<^verbatim>\<open>Geometry\<close>,
  \<^verbatim>\<open>Pose\<close>, \<^verbatim>\<open>Vector3d\<close>, \<^verbatim>\<open>Color\<close> and \<^verbatim>\<open>Density\<close>, when the scoped name is not in the
  map, exactly one new property widget is made: it has the class and the child widgets
  of the dedicated widget of that type, it is wrapped in a group widget, it is bound to
  the scoped name, and no other name is added to the map (the sub-message is not
  walked); when the scoped name is in the map, no widget is made and the map is left as
  it is. For every other message type the fields of the sub-message are parsed with the
  scoped name as prefix, joined by \<^verbatim>\<open>::\<close>, one level deeper; the only widget made for
  the field itself is a property widget around the group box of the new widgets of that
  walk, which is none of the five dedicated widgets.
\<close>

theorem Parse_message_dispatch:
  assumes res: "Parse_field h u name level (Field n False has (TYPE_MESSAGE t sub)) st = Some (f', nw, st')"
  shows "(u \<and> \<not> has \<longrightarrow> nw = None \<and> st' = st \<and> f' = Field n False has (TYPE_MESSAGE t sub))
       \<and> (\<not> (u \<and> \<not> has) \<and> t \<in> set special_types \<longrightarrow>
            (case find_widget st (scoped name n) of
               None \<Rightarrow>
                 nw = Some (length (heap st)) \<and> length (heap st') = Suc (length (heap st))
                 \<and> layout (heap st' ! length (heap st)) = composite_layout t
                 \<and> groupWidget (heap st' ! length (heap st)) \<noteq> None
                 \<and> (n \<noteq> [] \<longrightarrow> find_widget st' (scoped name n) = Some (length (heap st))
                                \<and> scopedName (heap st' ! length (heap st)) = scoped name n)
                 \<and> registered st' \<subseteq> insert (scoped name n) (registered st)
             | Some p \<Rightarrow>
                 nw = None \<and> length (heap st') = length (heap st)
                 \<and> configWidgets st' = configWidgets st))
       \<and> (\<not> (u \<and> \<not> has) \<and> t \<notin> set special_types \<longrightarrow>
            (\<exists>sub' nws st1.
               Parse h u (if name = [] then n else name @ ''::'' @ n) (level + 1) sub st = Some (sub', nws, st1)
               \<and> f' = Field n False True (TYPE_MESSAGE t sub')
               \<and> (if nws = [] then nw = None \<and> st' = st1
                  else length (heap st') = Suc (length (heap st1))
                       \<and> widgets (heap st' ! length (heap st1)) = [QGroupBox nws]
                       \<and> layout (heap st' ! length (heap st1)) = (PropertyWidgetC, [''QGroupBox''])
                       \<and> (nw \<noteq> None \<longleftrightarrow> find_widget st (scoped name n) = None)
                       \<and> (\<forall>t' \<in> set special_types.
                             layout (heap st' ! length (heap st1)) \<noteq> composite_layout t'))))"
proof -
  have 1: "u \<and> \<not> has \<longrightarrow> nw = None \<and> st' = st \<and> f' = Field n False has (TYPE_MESSAGE t sub)"
    using res by (auto simp: Parse_field_skip)
  have 2: "\<not> (u \<and> \<not> has) \<and> t \<in> set special_types \<longrightarrow>
            (case find_widget st (scoped name n) of
               None \<Rightarrow>
                 nw = Some (length (heap st)) \<and> length (heap st') = Suc (length (heap st))
                 \<and> layout (heap st' ! length (heap st)) = composite_layout t
                 \<and> groupWidget (heap st' ! length (heap st)) \<noteq> None
                 \<and> (n \<noteq> [] \<longrightarrow> find_widget st' (scoped name n) = Some (length (heap st))
                                \<and> scopedName (heap st' ! length (heap st)) = scoped name n)
                 \<and> registered st' \<subseteq> insert (scoped name n) (registered st)
             | Some p \<Rightarrow>
                 nw = None \<and> length (heap st') = length (heap st)
                 \<and> configWidgets st' = configWidgets st)"
  proof (intro impI)
  assume a: "\<not> (u \<and> \<not> has) \<and> t \<in> set special_types"
  then have sp: "t \<in> set special_types" and v: "\<not> (False \<or> u \<and> \<not> has)" by auto
  from res v sp obtain sub' where "Parse_special h st name n level t sub = Some (sub', nw, st')"
    by (rule Parse_field_special)
  from Parse_special_post [OF this sp]
  have lp: "leaf_post st (scoped name n) True (Some (dedicated_widget h t n level)) nw st'" .
  show "case find_widget st (scoped name n) of
               None \<Rightarrow>
                 nw = Some (length (heap st)) \<and> length (heap st') = Suc (length (heap st))
                 \<and> layout (heap st' ! length (heap st)) = composite_layout t
                 \<and> groupWidget (heap st' ! length (heap st)) \<noteq> None
                 \<and> (n \<noteq> [] \<longrightarrow> find_widget st' (scoped name n) = Some (length (heap st))
                                \<and> scopedName (heap st' ! length (heap st)) = scoped name n)
                 \<and> registered st' \<subseteq> insert (scoped name n) (registered st)
             | Some p \<Rightarrow>
                 nw = None \<and> length (heap st') = length (heap st)
                 \<and> configWidgets st' = configWidgets st"
  proof (cases "find_widget st (scoped name n)")
    case None
    with lp have nw: "nw = Some (length (heap st))"
        and c: "created st (scoped name n) True (dedicated_widget h t n level) st'"
      by (auto simp: leaf_post_def)
    from c have "widget_shape (heap st' ! length (heap st)) = widget_shape (dedicated_widget h t n level)"
      by (simp add: created_def)
    then have "layout (heap st' ! length (heap st)) = layout (dedicated_widget h t n level)"
      by (rule widget_shape_layout)
    with sp have l: "layout (heap st' ! length (heap st)) = composite_layout t"
      by (simp add: dedicated_widget_layout)
    have s: "n \<noteq> [] \<Longrightarrow> scoped name n \<noteq> []" by (simp add: scoped_def)
    from c s have "n \<noteq> [] \<longrightarrow> find_widget st' (scoped name n) = Some (length (heap st))
                                \<and> scopedName (heap st' ! length (heap st)) = scoped name n"
      by (auto simp: created_def find_widget_def)
    moreover from c have "length (heap st') = Suc (length (heap st))"
        "groupWidget (heap st' ! length (heap st)) \<noteq> None"
        "registered st' \<subseteq> insert (scoped name n) (registered st)"
      by (auto simp: created_def registered_def split: if_splits)
    ultimately show ?thesis using None nw l by simp
  next
    case (Some p)
    with lp show ?thesis by (auto simp: leaf_post_def only_def frame_def)
  qed
  qed
  have 3: "\<not> (u \<and> \<not> has) \<and> t \<notin> set special_types \<longrightarrow>
            (\<exists>sub' nws st1.
               Parse h u (if name = [] then n else name @ ''::'' @ n) (level + 1) sub st = Some (sub', nws, st1)
               \<and> f' = Field n False True (TYPE_MESSAGE t sub')
               \<and> (if nws = [] then nw = None \<and> st' = st1
                  else length (heap st') = Suc (length (heap st1))
                       \<and> widgets (heap st' ! length (heap st1)) = [QGroupBox nws]
                       \<and> layout (heap st' ! length (heap st1)) = (PropertyWidgetC, [''QGroupBox''])
                       \<and> (nw \<noteq> None \<longleftrightarrow> find_widget st (scoped name n) = None)
                       \<and> (\<forall>t' \<in> set special_types.
                             layout (heap st' ! length (heap st1)) \<noteq> composite_layout t')))"
  proof (intro impI)
  assume a: "\<not> (u \<and> \<not> has) \<and> t \<notin> set special_types"
  then have gen: "t \<notin> set special_types" and v: "\<not> (False \<or> u \<and> \<not> has)" by auto
  from res v gen obtain sub' nws st1 where
      rec: "Parse h u (scoped name n) (level + 1) sub st = Some (sub', nws, st1)"
      and f': "f' = Field n False True (TYPE_MESSAGE t sub')"
      and wp: "wrapper_post st st1 (scoped name n) nws nw st'"
    by (rule Parse_field_generic)
  have post: "if nws = [] then nw = None \<and> st' = st1
        else length (heap st') = Suc (length (heap st1))
             \<and> widgets (heap st' ! length (heap st1)) = [QGroupBox nws]
             \<and> layout (heap st' ! length (heap st1)) = (PropertyWidgetC, [''QGroupBox''])
             \<and> (nw \<noteq> None \<longleftrightarrow> find_widget st (scoped name n) = None)"
    using wp by (auto simp: wrapper_post_def wrapped_def new_PropertyWidget_def nth_append layout_def
        split: if_splits)
  have nd: "nws \<noteq> [] \<Longrightarrow> \<forall>t' \<in> set special_types.
        layout (heap st' ! length (heap st1)) \<noteq> composite_layout t'"
  proof (intro ballI)
    fix t'
    assume ne: "nws \<noteq> []" and t': "t' \<in> set special_types"
    from post ne have "layout (heap st' ! length (heap st1)) = (PropertyWidgetC, [''QGroupBox''])"
      by simp
    with wrapper_layout [OF t'] show "layout (heap st' ! length (heap st1)) \<noteq> composite_layout t'"
      by simp
  qed
  from rec f' post nd
  have "Parse h u (if name = [] then n else name @ ''::'' @ n) (level + 1) sub st = Some (sub', nws, st1)
          \<and> f' = Field n False True (TYPE_MESSAGE t sub')
          \<and> (if nws = [] then nw = None \<and> st' = st1
             else length (heap st') = Suc (length (heap st1))
                  \<and> widgets (heap st' ! length (heap st1)) = [QGroupBox nws]
                  \<and> layout (heap st' ! length (heap st1)) = (PropertyWidgetC, [''QGroupBox''])
                  \<and> (nw \<noteq> None \<longleftrightarrow> find_widget st (scoped name n) = None)
                  \<and> (\<forall>t' \<in> set special_types.
                        layout (heap st' ! length (heap st1)) \<noteq> composite_layout t'))"
    unfolding scoped_def [symmetric] by (simp split: if_splits)
  then show "\<exists>sub' nws st1.
          Parse h u (if name = [] then n else name @ ''::'' @ n) (level + 1) sub st = Some (sub', nws, st1)
          \<and> f' = Field n False True (TYPE_MESSAGE t sub')
          \<and> (if nws = [] then nw = None \<and> st' = st1
             else length (heap st') = Suc (length (heap st1))
                  \<and> widgets (heap st' ! length (heap st1)) = [QGroupBox nws]
                  \<and> layout (heap st' ! length (heap st1)) = (PropertyWidgetC, [''QGroupBox''])
                  \<and> (nw \<noteq> None \<longleftrightarrow> find_widget st (scoped name n) = None)
                  \<and> (\<forall>t' \<in> set special_types.
                        layout (heap st' ! length (heap st1)) \<noteq> composite_layout t'))"
    by (intro exI)
qed
  from 1 2 3 show ?thesis by (intro conjI)
qed

theorem Parse_message_dispatch_witness:
  "''Geometry'' \<in> set special_types \<and> ''Header'' \<notin> set special_types
   \<and> find_widget (MessageWidget_new []) (scoped [] ''geometry'') = None
   \<and> (\<exists>f' st'.
         Parse_field Helpers_example False [] 0
           (Field ''geometry'' False True (TYPE_MESSAGE ''Geometry'' Geometry_msg)) (MessageWidget_new [])
           = Some (f', Some 0, st')
         \<and> layout (heap st' ! 0) = composite_layout ''Geometry''
         \<and> find_widget st' ''geometry'' = Some 0
         \<and> registered st' \<subseteq> {''geometry''})
   \<and> (\<exists>f' st' sub' nws st1.
         Parse_field Helpers_example False [] 0
           (Field ''header'' False False (TYPE_MESSAGE ''Header'' Header_msg)) (MessageWidget_new [])
           = Some (f', Some 3, st')
         \<and> Parse Helpers_example False ''header'' 1 Header_msg (MessageWidget_new []) = Some (sub', nws, st1)
         \<and> nws = [2] \<and> widgets (heap st' ! 3) = [QGroupBox [2]])"
proof -
  define g where "g = the (Parse_field Helpers_example False [] 0
           (Field ''geometry'' False True (TYPE_MESSAGE ''Geometry'' Geometry_msg)) (MessageWidget_new []))"
  define k where "k = the (Parse_field Helpers_example False [] 0
           (Field ''header'' False False (TYPE_MESSAGE ''Header'' Header_msg)) (MessageWidget_new []))"
  have sp: "''Geometry'' \<in> set special_types" "''Header'' \<notin> set special_types"
    by (simp_all add: special_types_def)
  have fw: "find_widget (MessageWidget_new []) (scoped [] ''geometry'') = None"
    by (simp add: find_widget_def MessageWidget_new_def)
  have reg0: "registered (MessageWidget_new []) = {}" "heap (MessageWidget_new []) = []"
    by (simp_all add: registered_def MessageWidget_new_def)
  have rg: "Parse_field Helpers_example False [] 0
           (Field ''geometry'' False True (TYPE_MESSAGE ''Geometry'' Geometry_msg)) (MessageWidget_new [])
           = Some (fst g, Some 0, snd (snd g))"
    unfolding g_def by code_simp
  have rk: "Parse_field Helpers_example False [] 0
           (Field ''header'' False False (TYPE_MESSAGE ''Header'' Header_msg)) (MessageWidget_new [])
           = Some (fst k, Some 3, snd (snd k))"
    unfolding k_def by code_simp
  have nws: "Parse Helpers_example False ''header'' 1 Header_msg (MessageWidget_new [])
      = Some (fst (the (Parse Helpers_example False ''header'' 1 Header_msg (MessageWidget_new []))), [2],
              snd (snd (the (Parse Helpers_example False ''header'' 1 Header_msg (MessageWidget_new [])))))"
    by code_simp
  have wk: "widgets (heap (snd (snd k)) ! 3) = [QGroupBox [2]]"
    unfolding k_def by code_simp
  from Parse_message_dispatch [OF rg] sp fw reg0
  have "layout (heap (snd (snd g)) ! 0) = composite_layout ''Geometry''
      \<and> find_widget (snd (snd g)) ''geometry'' = Some 0
      \<and> registered (snd (snd g)) \<subseteq> {''geometry''}"
    by (simp add: scoped_def)
  with rg have G: "\<exists>f' st'.
         Parse_field Helpers_example False [] 0
           (Field ''geometry'' False True (TYPE_MESSAGE ''Geometry'' Geometry_msg)) (MessageWidget_new [])
           = Some (f', Some 0, st')
         \<and> layout (heap st' ! 0) = composite_layout ''Geometry''
         \<and> find_widget st' ''geometry'' = Some 0
         \<and> registered st' \<subseteq> {''geometry''}"
    by (intro exI [of _ "fst g"] exI [of _ "snd (snd g)"]) simp
  from rk nws wk have K: "\<exists>f' st' sub' nws st1.
         Parse_field Helpers_example False [] 0
           (Field ''header'' False False (TYPE_MESSAGE ''Header'' Header_msg)) (MessageWidget_new [])
           = Some (f', Some 3, st')
         \<and> Parse Helpers_example False ''header'' 1 Header_msg (MessageWidget_new []) = Some (sub', nws, st1)
         \<and> nws = [2] \<and> widgets (heap st' ! 3) = [QGroupBox [2]]"
    by (intro exI [of _ "fst k"] exI [of _ "snd (snd k)"]
        exI [of _ "fst (the (Parse Helpers_example False ''header'' 1 Header_msg (MessageWidget_new [])))"]
        exI [of _ "[2]"]
        exI [of _ "snd (snd (the (Parse Helpers_example False ''header'' 1 Header_msg (MessageWidget_new []))))"])
       simp
  from sp fw G K show ?thesis by (intro conjI)
qed

text \<open>
  C5 as stated fails for a field that \<^verbatim>\<open>Parse\<close> skips or has a widget for already. In
  update mode a \<^verbatim>\<open>Vector3d\<close> field that is not set gets no widget; and the \<^verbatim>\<open>Geometry\<close>
  field of a loaded message, parsed again, gets no second widget.
\<close>

theorem Parse_dispatch_counterexample:
  "''Vector3d'' \<in> set special_types \<and> ''Geometry'' \<in> set special_types
   \<and> Parse_field Helpers_example True [] 0
       (Field ''scale'' False False (TYPE_MESSAGE ''Vector3d'' (Vector3d_msg 1 1 1))) (MessageWidget_new [])
     = Some (Field ''scale'' False False (TYPE_MESSAGE ''Vector3d'' (Vector3d_msg 1 1 1)), None,
             MessageWidget_new [])
   \<and> heap (MessageWidget_new []) = []
   \<and> (\<exists>f' st'.
         Parse_field Helpers_example False [] 0
           (Field ''geometry'' False True (TYPE_MESSAGE ''Geometry'' Geometry_msg)) Visual_widget
           = Some (f', None, st')
         \<and> length (heap st') = length (heap Visual_widget)
         \<and> configWidgets st' = configWidgets Visual_widget)"
proof -
  define g where "g = the (Parse_field Helpers_example False [] 0
           (Field ''geometry'' False True (TYPE_MESSAGE ''Geometry'' Geometry_msg)) Visual_widget)"
  have sp: "''Vector3d'' \<in> set special_types" "''Geometry'' \<in> set special_types"
    by (simp_all add: special_types_def)
  have s: "Parse_field Helpers_example True [] 0
       (Field ''scale'' False False (TYPE_MESSAGE ''Vector3d'' (Vector3d_msg 1 1 1))) (MessageWidget_new [])
     = Some (Field ''scale'' False False (TYPE_MESSAGE ''Vector3d'' (Vector3d_msg 1 1 1)), None,
             MessageWidget_new [])"
    by simp
  have h: "heap (MessageWidget_new []) = []" by (simp add: MessageWidget_new_def)
  have rg: "Parse_field Helpers_example False [] 0
           (Field ''geometry'' False True (TYPE_MESSAGE ''Geometry'' Geometry_msg)) Visual_widget
           = Some (fst g, None, snd (snd g))"
    unfolding g_def by code_simp
  have l: "length (heap (snd (snd g))) = length (heap Visual_widget)"
    unfolding g_def by code_simp
  have c: "configWidgets (snd (snd g)) = configWidgets Visual_widget"
    unfolding g_def by code_simp
  from rg l c have G: "\<exists>f' st'.
         Parse_field Helpers_example False [] 0
           (Field ''geometry'' False True (TYPE_MESSAGE ''Geometry'' Geometry_msg)) Visual_widget
           = Some (f', None, st')
         \<and> length (heap st') = length (heap Visual_widget)
         \<and> configWidgets st' = configWidgets Visual_widget"
    by (intro exI [of _ "fst g"] exI [of _ "snd (snd g)"]) simp
  from sp s h G show ?thesis by (intro conjI)
qed


section \<open>Parsing a second time adds nothing\<close>

lemma covered_field_scalar:
  "\<not> is_message (Field n rep has v) \<Longrightarrow>
   covered_field R prefix (Field n rep has v) = (rep \<or> \<not> typed_widget v \<or> scoped prefix n \<in> R)"
  by (cases v) simp_all

lemma wf_field_name: "wf_field (Field n rep has v) \<Longrightarrow> n \<noteq> []"
  by (cases v) simp_all

lemma wf_field_has_widget:
  "wf_field (Field n rep has v) \<Longrightarrow> has_widget v = typed_widget v"
  by (cases v) (simp_all add: has_widget_def typed_widget_def)

lemma scoped_nonempty: "n \<noteq> [] \<Longrightarrow> scoped prefix n \<noteq> []"
  by (simp add: scoped_def)

lemma covered_mono:
  "covered R prefix m \<Longrightarrow> R \<subseteq> R' \<Longrightarrow> covered R' prefix m"
  "covered_field R prefix f \<Longrightarrow> R \<subseteq> R' \<Longrightarrow> covered_field R' prefix f"
  by (induction R prefix m and R prefix f rule: covered_covered_field.induct)
     (auto split: if_splits simp: typed_widget_def)

lemma leaf_post_registered:
  assumes "leaf_post st s grouped c nw st'" "s \<noteq> []"
  shows "s \<in> registered st'"
proof (cases "find_widget st s")
  case None
  with assms show ?thesis by (auto simp: leaf_post_def created_def registered_def)
next
  case (Some p)
  with assms have "only p st st'" by (simp add: leaf_post_def)
  then have "registered st' = registered st" by (simp add: only_def frame_def registered_def)
  with Some show ?thesis by (simp add: registered_find)
qed

lemma Parse_covers:
  "Parse h u name level m st = Some (m', nws, st') \<Longrightarrow> \<not> u \<Longrightarrow> wf_message m
     \<Longrightarrow> covered (registered st') name m"
  "Parse_field h u name level f st = Some (f', nw, st'') \<Longrightarrow> \<not> u \<Longrightarrow> wf_field f
     \<Longrightarrow> covered_field (registered st'') name f"
proof (induction h u name level m st and h u name level f st
    arbitrary: m' nws st' and f' nw st'' rule: Parse_induct)
  case (Nil h u name level st)
  then show ?case by simp
next
  case (Cons h u name level f fs st)
  from Cons.prems obtain f1 nw1 st1 fs1 nws1 where
      1: "Parse_field h u name level f st = Some (f1, nw1, st1)"
      and 2: "Parse h u name level fs st1 = Some (fs1, nws1, st')"
    by (auto elim!: bind_eq_SomeE split: prod.splits)
  from Cons.prems have wf: "wf_field f" "wf_message fs" by simp_all
  from Cons.IH(1) [OF 1 Cons.prems(2) wf(1)] have "covered_field (registered st1) name f" .
  moreover from Parse_grows(1) [OF 2] have "registered st1 \<subseteq> registered st'"
    by (rule grows_registered)
  ultimately have "covered_field (registered st') name f" by (rule covered_mono)
  moreover from Cons.IH(2) [OF 1 2 Cons.prems(2) wf(2)] have "covered (registered st') name fs" .
  ultimately show ?case by simp
next
  case (Message h u name level n rep has t sub st)
  from Message.prems have n: "scoped name n \<noteq> []" and wfs: "wf_message sub"
    by (simp_all add: scoped_nonempty)
  show ?case
  proof (cases "rep")
    case True
    then show ?thesis by simp
  next
    case False
    with Message.prems have vis: "\<not> (rep \<or> u \<and> \<not> has)" by simp
    show ?thesis
    proof (cases "t \<in> set special_types")
      case True
      from Message.prems(1) vis True obtain sub' where
        "Parse_special h st name n level t sub = Some (sub', nw, st'')"
        by (rule Parse_field_special)
      from Parse_special_post [OF this True] n have "scoped name n \<in> registered st''"
        by (rule leaf_post_registered)
      with True show ?thesis by simp
    next
      case False
      from Message.prems(1) vis False obtain sub' nws st1 where
          rec: "Parse h u (scoped name n) (level + 1) sub st = Some (sub', nws, st1)"
          and wp: "wrapper_post st st1 (scoped name n) nws nw st''"
        by (rule Parse_field_generic)
      from Message.IH [OF vis False rec Message.prems(2) wfs]
      have "covered (registered st1) (scoped name n) sub" .
      moreover from wrapper_post_grows [OF wp] have "registered st1 \<subseteq> registered st''"
        by (rule grows_registered)
      ultimately have "covered (registered st'') (scoped name n) sub" by (rule covered_mono)
      with False show ?thesis by simp
    qed
  qed
next
  case (Scalar h u name level n rep has v st)
  from Scalar.prems have n: "scoped name n \<noteq> []"
    by (auto dest: wf_field_name simp: scoped_nonempty)
  show ?case
  proof (cases "rep \<or> \<not> typed_widget v")
    case True
    with Scalar.hyps show ?thesis by (auto simp: covered_field_scalar)
  next
    case False
    with Scalar.prems have hw: "has_widget v" by (simp add: wf_field_has_widget)
    from False Scalar obtain "Parse_scalar h st name n level v = Some (nw, st'')"
      by (auto simp: Parse_field_scalar elim!: bind_eq_SomeE split: prod.splits)
    from Parse_scalar_post [OF this] hw
    have "leaf_post st (scoped name n) False (scalar_widget h st n level v) nw st''" by simp
    then have "scoped name n \<in> registered st''" using n by (rule leaf_post_registered)
    with Scalar.hyps show ?thesis by (simp add: covered_field_scalar)
  qed
qed

lemma frame_trans: "frame a b \<Longrightarrow> frame b c \<Longrightarrow> frame a c"
  by (simp add: frame_def)

lemma frame_registered: "frame st st' \<Longrightarrow> registered st' = registered st"
  by (simp add: frame_def registered_def)

lemma Parse_covered:
  "Parse h u name level m st = Some (m', nws, st') \<Longrightarrow> covered (registered st) name m
     \<Longrightarrow> nws = [] \<and> frame st st'"
  "Parse_field h u name level f st = Some (f', nw, st'') \<Longrightarrow> covered_field (registered st) name f
     \<Longrightarrow> nw = None \<and> frame st st''"
proof (induction h u name level m st and h u name level f st
    arbitrary: m' nws st' and f' nw st'' rule: Parse_induct)
  case (Nil h u name level st)
  then show ?case by simp
next
  case (Cons h u name level f fs st)
  from Cons.prems obtain f1 nw1 st1 fs1 nws1 where
      1: "Parse_field h u name level f st = Some (f1, nw1, st1)"
      and 2: "Parse h u name level fs st1 = Some (fs1, nws1, st')"
      and nws: "nws = (case nw1 of Some p \<Rightarrow> p # nws1 | None \<Rightarrow> nws1)"
    by (auto elim!: bind_eq_SomeE split: prod.splits)
  from Cons.prems have c: "covered_field (registered st) name f" "covered (registered st) name fs"
    by simp_all
  from Cons.IH(1) [OF 1 c(1)] have f: "nw1 = None" "frame st st1" by simp_all
  from f(2) c(2) have "covered (registered st1) name fs" by (simp add: frame_registered)
  from Cons.IH(2) [OF 1 2 this] have "nws1 = []" "frame st1 st'" by simp_all
  with f nws show ?case by (auto intro: frame_trans)
next
  case (Message h u name level n rep has t sub st)
  show ?case
  proof (cases "rep \<or> u \<and> \<not> has")
    case True
    with Message.prems show ?thesis by (simp add: Parse_field_skip)
  next
    case vis: False
    show ?thesis
    proof (cases "t \<in> set special_types")
      case True
      from Message.prems(1) vis True obtain sub' where
        "Parse_special h st name n level t sub = Some (sub', nw, st'')"
        by (rule Parse_field_special)
      from Parse_special_post [OF this True]
      have lp: "leaf_post st (scoped name n) True (Some (dedicated_widget h t n level)) nw st''" .
      from Message.prems(2) vis True have "find_widget st (scoped name n) \<noteq> None"
        by (simp add: registered_find)
      with lp show ?thesis by (auto simp: leaf_post_def only_def)
    next
      case False
      from Message.prems(1) vis False obtain sub' nws st1 where
          rec: "Parse h u (scoped name n) (level + 1) sub st = Some (sub', nws, st1)"
          and wp: "wrapper_post st st1 (scoped name n) nws nw st''"
        by (rule Parse_field_generic)
      from Message.prems(2) vis False have "covered (registered st) (scoped name n) sub" by simp
      from Message.IH [OF vis False rec this] have "nws = []" "frame st st1" by simp_all
      with wp show ?thesis by (simp add: wrapper_post_def)
    qed
  qed
next
  case (Scalar h u name level n rep has v st)
  show ?case
  proof (cases "rep \<or> u \<and> \<not> has")
    case True
    with Scalar.prems show ?thesis by (simp add: Parse_field_skip)
  next
    case False
    with Scalar obtain ps: "Parse_scalar h st name n level v = Some (nw, st'')"
      by (auto simp: Parse_field_scalar elim!: bind_eq_SomeE split: prod.splits)
    show ?thesis
    proof (cases "has_widget v")
      case True
      then have "typed_widget v" by (cases v) (simp_all add: has_widget_def typed_widget_def)
      with Scalar False have "find_widget st (scoped name n) \<noteq> None"
        by (simp add: covered_field_scalar registered_find)
      with Parse_scalar_post [OF ps] True show ?thesis
        by (auto simp: leaf_post_def only_def)
    next
      case False
      with Parse_scalar_post [OF ps] show ?thesis by simp
    qed
  qed
qed


subsection \<open>Parse writes has-bits only\<close>

lemma strip_field_sel:
  "strip_field f = Field (fname f) (is_repeated f) False (strip_value (fval f))"
  by (cases f) simp

lemma strip_value_scalar: "\<not> is_message (Field n rep has v) \<Longrightarrow> strip_value v = v"
  by (cases v) simp_all

lemma MutableMessage_with_sub:
  assumes "MutableMessage f = Some sub" "map strip_field sub' = map strip_field sub"
  shows "strip_field (with_sub f sub') = strip_field f"
  using assms
  by (cases f; cases "fval f")
     (auto simp: MutableMessage_def with_sub_def message_type_def split: if_splits)

lemma list_update_strip:
  assumes "vat m i = Some f" "strip_field f' = strip_field f"
  shows "map strip_field (m[i := f']) = map strip_field m"
proof -
  from assms(1) have "i < length m" "m ! i = f" by (auto dest: vat_SomeD)
  with assms(2) show ?thesis
    by (metis list_update_id map_update)
qed

lemma geometry_dimensions_strip:
  "geometry_dimensions gs = Some (d, gs') \<Longrightarrow> map strip_field gs' = map strip_field gs"
proof (induction gs arbitrary: d gs')
  case Nil
  then show ?case by simp
next
  case (Cons g gs)
  show ?case
  proof (cases "is_repeated g \<or> \<not> is_message g \<or> \<not> HasField g")
    case True
    with Cons.prems obtain d1 gs1 where "geometry_dimensions gs = Some (d1, gs1)" "gs' = g # gs1"
      by (auto elim!: bind_eq_SomeE split: prod.splits)
    with Cons.IH show ?thesis by simp
  next
    case False
    with Cons.prems obtain gvm where gvm: "MutableMessage g = Some gvm"
      by (auto elim!: bind_eq_SomeE)
    have same: "strip_field (with_sub g gvm) = strip_field g"
      using gvm by (rule MutableMessage_with_sub) simp
    consider (box) "message_type g = ''BoxGeom'' \<or> message_type g = ''MeshGeom''"
      | (cyl) "message_type g = ''CylinderGeom''" | (sph) "message_type g = ''SphereGeom''"
      | (other) "message_type g \<notin> {''BoxGeom'', ''MeshGeom'', ''CylinderGeom'', ''SphereGeom''}"
      by auto
    then show ?thesis
    proof cases
      case box
      let ?i = "if message_type g = ''BoxGeom'' then 0 else 1"
      from Cons.prems False gvm box obtain sf dm where sf: "vat gvm ?i = Some sf"
          and dm: "MutableMessage sf = Some dm"
          and gs': "gs' = with_sub g (gvm[?i := with_sub sf dm]) # gs"
        by (auto simp: Let_def elim!: bind_eq_SomeE split: if_splits)
      have "strip_field (with_sub sf dm) = strip_field sf"
        using dm by (rule MutableMessage_with_sub) simp
      with sf have "map strip_field (gvm[?i := with_sub sf dm]) = map strip_field gvm"
        by (rule list_update_strip)
      with gvm have "strip_field (with_sub g (gvm[?i := with_sub sf dm])) = strip_field g"
        by (rule MutableMessage_with_sub)
      with gs' show ?thesis by simp
    next
      case cyl
      with Cons.prems False gvm have "gs' = with_sub g gvm # gs"
        by (auto simp: Let_def elim!: bind_eq_SomeE)
      with same show ?thesis by simp
    next
      case sph
      with Cons.prems False gvm have "gs' = with_sub g gvm # gs"
        by (auto simp: Let_def elim!: bind_eq_SomeE)
      with same show ?thesis by simp
    next
      case other
      with Cons.prems False gvm obtain d1 gs1 where "geometry_dimensions gs = Some (d1, gs1)"
          "gs' = with_sub g gvm # gs1"
        by (auto simp: Let_def elim!: bind_eq_SomeE split: prod.splits)
      with Cons.IH same show ?thesis by simp
    qed
  qed
qed

lemma Parse_Geometry_strip:
  "Parse_Geometry m = Some (shown, m') \<Longrightarrow> map strip_field m' = map strip_field m"
  by (auto simp: Parse_Geometry_def Let_def elim!: bind_eq_SomeE split: if_splits prod.splits
      dest: geometry_dimensions_strip)

lemma Parse_Pose_strip:
  "Parse_Pose m v = Some (v', m') \<Longrightarrow> map strip_field m' = map strip_field m"
proof (induction m arbitrary: v v' m')
  case Nil
  then show ?case by simp
next
  case (Cons f fs)
  consider (skip) "\<not> is_message f \<or> message_type f \<notin> {''Vector3d'', ''Quaternion''}"
    | (vec) "is_message f" "message_type f = ''Vector3d''"
    | (quat) "is_message f" "message_type f = ''Quaternion''"
    by auto
  then show ?case
  proof cases
    case skip
    with Cons.prems obtain v1 fs1 where "Parse_Pose fs v = Some (v1, fs1)" "m' = f # fs1"
      by (auto elim!: bind_eq_SomeE split: prod.splits if_splits)
    with Cons.IH show ?thesis by simp
  next
    case vec
    with Cons.prems obtain sub v0 v1 fs1 where sub: "MutableMessage f = Some sub"
        and "Parse_Pose fs v0 = Some (v1, fs1)" "m' = with_sub f sub # fs1"
      by (auto elim!: bind_eq_SomeE split: prod.splits)
    moreover have "strip_field (with_sub f sub) = strip_field f"
      using sub by (rule MutableMessage_with_sub) simp
    ultimately show ?thesis using Cons.IH by simp
  next
    case quat
    with Cons.prems obtain sub v0 v1 fs1 where sub: "MutableMessage f = Some sub"
        and "Parse_Pose fs v0 = Some (v1, fs1)" "m' = with_sub f sub # fs1"
      by (auto elim!: bind_eq_SomeE split: prod.splits)
    moreover have "strip_field (with_sub f sub) = strip_field f"
      using sub by (rule MutableMessage_with_sub) simp
    ultimately show ?thesis using Cons.IH by simp
  qed
qed

lemma Parse_special_strip:
  assumes "Parse_special h st name n level t sub = Some (sub', nw, st')"
  shows "map strip_field sub' = map strip_field sub"
proof -
  consider "t = ''Geometry''" | "t \<noteq> ''Geometry''" "t = ''Pose''"
    | "t \<noteq> ''Geometry''" "t \<noteq> ''Pose''"
    by auto
  then show ?thesis
  proof cases
    case 1
    with assms show ?thesis
      by (auto simp: Parse_special_def elim!: bind_eq_SomeE split: prod.splits
          dest: Parse_Geometry_strip)
  next
    case 2
    with assms show ?thesis
      by (auto simp: Parse_special_def elim!: bind_eq_SomeE split: prod.splits
          dest: Parse_Pose_strip)
  next
    case 3
    with assms have "sub' = sub"
      by (auto simp: Parse_special_def elim!: bind_eq_SomeE split: prod.splits if_splits)
    then show ?thesis by simp
  qed
qed

lemma Parse_strip:
  "Parse h u name level m st = Some (m', nws, st') \<Longrightarrow> map strip_field m' = map strip_field m"
  "Parse_field h u name level f st = Some (f', nw, st'') \<Longrightarrow> strip_field f' = strip_field f"
proof (induction h u name level m st and h u name level f st
    arbitrary: m' nws st' and f' nw st'' rule: Parse_induct)
  case (Nil h u name level st)
  then show ?case by simp
next
  case (Cons h u name level f fs st)
  from Cons.prems obtain f1 nw1 st1 fs1 nws1 where
      1: "Parse_field h u name level f st = Some (f1, nw1, st1)"
      and 2: "Parse h u name level fs st1 = Some (fs1, nws1, st')"
      and m': "m' = f1 # fs1"
    by (auto elim!: bind_eq_SomeE split: prod.splits)
  from Cons.IH(1) [OF 1] Cons.IH(2) [OF 1 2] m' show ?case by simp
next
  case (Message h u name level n rep has t sub st)
  show ?case
  proof (cases "rep \<or> u \<and> \<not> has")
    case True
    with Message.prems show ?thesis by (simp add: Parse_field_skip)
  next
    case vis: False
    show ?thesis
    proof (cases "t \<in> set special_types")
      case True
      from Message.prems vis True obtain sub' where
        "Parse_special h st name n level t sub = Some (sub', nw, st'')"
        "f' = Field n rep True (TYPE_MESSAGE t sub')"
        by (rule Parse_field_special)
      then show ?thesis by (auto dest: Parse_special_strip)
    next
      case False
      from Message.prems vis False obtain sub' nws st1 where
          rec: "Parse h u (scoped name n) (level + 1) sub st = Some (sub', nws, st1)"
          and f': "f' = Field n rep True (TYPE_MESSAGE t sub')"
        by (rule Parse_field_generic)
      from Message.IH [OF vis False rec] f' show ?thesis by simp
    qed
  qed
next
  case (Scalar h u name level n rep has v st)
  then have "f' = Field n rep has v"
    by (auto simp: Parse_field_scalar elim!: bind_eq_SomeE split: prod.splits if_splits)
  then show ?case by simp
qed

subsection \<open>The descriptor decides what is covered\<close>

lemma erase_strip:
  "erase_value (strip_value v) = erase_value v"
  "erase_field (strip_field f) = erase_field f"
  by (induction v and f rule: erase_value_erase_field.induct) simp_all


lemma erase_value_message:
  "erase_value v' = TYPE_MESSAGE t e \<Longrightarrow> \<exists>sub'. v' = TYPE_MESSAGE t sub' \<and> e = map erase_field sub'"
  by (cases v') auto

lemma covered_field_descriptor_scalar:
  "\<not> is_message f \<Longrightarrow> erase_field f = erase_field f'
     \<Longrightarrow> covered_field R prefix f = covered_field R prefix f'"
  by (cases f; cases f'; cases "fval f"; cases "fval f'")
     (auto simp: typed_widget_def is_message_def)

lemma covered_descriptor:
  "map erase_field m = map erase_field m' \<Longrightarrow> covered R prefix m = covered R prefix m'"
  "erase_field f = erase_field f' \<Longrightarrow> covered_field R prefix f = covered_field R prefix f'"
proof (induction R prefix m and R prefix f arbitrary: m' and f'
    rule: covered_covered_field.induct)
  case (1 R prefix)
  then show ?case by simp
next
  case (2 R prefix f fs)
  then obtain g gs where "m' = g # gs" "erase_field f = erase_field g"
      "map erase_field fs = map erase_field gs"
    by (cases m') auto
  with "2.IH" show ?case by simp
next
  case (3 R prefix n rep has t sub)
  obtain n' rep' has' v' where f': "f' = Field n' rep' has' v'" by (cases f')
  with "3.prems" have eq: "n' = n" "rep' = rep"
      and "erase_value v' = TYPE_MESSAGE t (map erase_field sub)"
    by simp_all
  then obtain sub' where v': "v' = TYPE_MESSAGE t sub'"
      and sub: "map erase_field sub = map erase_field sub'"
    by (auto dest: erase_value_message)
  show ?case
  proof (cases "rep \<or> t \<in> set special_types")
    case True
    with f' eq v' show ?thesis by auto
  next
    case False
    with "3.IH" [of sub'] sub f' eq v' show ?thesis by simp
  qed
qed (rule covered_field_descriptor_scalar; simp add: is_message_def)+

lemma Parse_descriptor:
  assumes "Parse h u name level m st = Some (m', nws, st')"
  shows "GetDescriptor m' = GetDescriptor m"
proof -
  have "map erase_field (map strip_field m') = map erase_field (map strip_field m)"
    using Parse_strip(1) [OF assms] by simp
  then show ?thesis by (simp add: GetDescriptor_def erase_strip o_def)
qed

section \<open>\<^verbatim>\<open>UpdateFromMsg\<close> keeps the registry\<close>

lemma Load_covered:
  assumes "Load h st0 a = Some st" "wf_message (messages st0 ! a)"
  shows "\<exists>b m1. msg st = Some b \<and> vat (messages st) b = Some m1
          \<and> length (messages st) = Suc (length (messages st0)) \<and> b = length (messages st0)
          \<and> GetDescriptor m1 = GetDescriptor (messages st0 ! a)
          \<and> covered (registered st) [] (messages st0 ! a)"
proof -
  let ?m = "messages st0 ! a"
  let ?b = "length (messages st0)"
  let ?pre = "st0\<lparr>messages := messages st0 @ [?m], msg := Some ?b\<rparr>"
  from assms(1) obtain m1 nws st1 where m: "vat (messages st0) a = Some ?m"
      and P: "Parse h False [] 0 ?m ?pre = Some (m1, nws, st1)"
      and st: "st = st1\<lparr>messages := (messages st1)[?b := m1]\<rparr>"
    by (auto simp: Load_def Let_def elim!: bind_eq_SomeE split: prod.splits dest: vat_SomeD)
  from Parse_grows(1) [OF P] have g: "messages st1 = messages ?pre" "msg st1 = msg ?pre"
    by (simp_all add: grows_def)
  have "covered (registered st1) [] ?m"
    using P _ assms(2) by (rule Parse_covers(1)) simp
  moreover have "registered st = registered st1"
    using st by (simp add: registered_def)
  moreover have "GetDescriptor m1 = GetDescriptor ?m"
    using P by (rule Parse_descriptor)
  ultimately show ?thesis
    using st g by (simp add: vat_def)
qed

text \<open>
  C3. A widget is loaded from a message; then \<^verbatim>\<open>UpdateFromMsg\<close> is called with any message
  of the same type and returns. The call registers no property widget and discards none:
  the registry is the same list of bindings, \<^verbatim>\<open>PropertyWidgetCount\<close> is unchanged, every
  name is bound to the same widget object as before, and no widget object is created;
  each widget object keeps its children's kinds, its scoped name, its key, its
  visibility and its read-only state: it is updated in place.
\<close>

theorem UpdateFromMsg_keeps_registry:
  assumes "Load h st0 a = Some st" and "wf_message (messages st0 ! a)"
    and "UpdateFromMsg h st a' = Some st'"
  shows "configWidgets st' = configWidgets st
       \<and> PropertyWidgetCount st' = PropertyWidgetCount st
       \<and> (\<forall>name. PropertyWidgetByName st' name = PropertyWidgetByName st name)
       \<and> length (heap st') = length (heap st)
       \<and> (\<forall>p<length (heap st). same_widget (heap st ! p) (heap st' ! p))"
proof -
  from Load_covered [OF assms(1,2)] obtain b m1 where b: "msg st = Some b"
      and m1: "vat (messages st) b = Some m1"
      and d1: "GetDescriptor m1 = GetDescriptor (messages st0 ! a)"
      and cov: "covered (registered st) [] (messages st0 ! a)"
    by blast
  from assms(3) b m1 obtain m2 m' nws st2 where "same_descriptor m1 m2"
      and P: "Parse h True [] 0 m2 st = Some (m', nws, st2)"
      and st': "st' = st2\<lparr>messages := (messages st2)[b := m']\<rparr>"
    by (auto simp: UpdateFromMsg_def elim!: bind_eq_SomeE split: if_splits prod.splits)
  with d1 have "map erase_field (messages st0 ! a) = map erase_field m2"
    by (simp add: same_descriptor_def GetDescriptor_def)
  from covered_descriptor(1) [OF this] cov have "covered (registered st) [] m2"
    by simp
  with P have "frame st st2" by (auto dest: Parse_covered(1))
  moreover from Parse_grows(1) [OF P]
  have "\<forall>p<length (heap st). same_widget (heap st ! p) (heap st2 ! p)"
    by (simp add: grows_def)
  ultimately show ?thesis using st'
    by (simp add: frame_def PropertyWidgetCount_def PropertyWidgetByName_def find_widget_def)
qed

theorem UpdateFromMsg_keeps_registry_witness:
  "Load Helpers_example (MessageWidget_new [Visual_msg, Visual_msg_other]) 0 \<noteq> None
   \<and> wf_message Visual_msg
   \<and> (\<exists>st st'. Load Helpers_example (MessageWidget_new [Visual_msg, Visual_msg_other]) 0 = Some st
          \<and> UpdateFromMsg Helpers_example st 1 = Some st'
          \<and> StringWidgetValue st ''name'' = Some ''link'' \<and> StringWidgetValue st' ''name'' = Some ''wheel''
          \<and> PropertyWidgetCount st = 3 \<and> PropertyWidgetCount st' = 3
          \<and> configWidgets st' = configWidgets st
          \<and> length (heap st') = length (heap st)
          \<and> (\<forall>name. PropertyWidgetByName st' name = PropertyWidgetByName st name)
          \<and> (\<forall>p<length (heap st). same_widget (heap st ! p) (heap st' ! p)))"
proof -
  define st where "st = the (Load Helpers_example (MessageWidget_new [Visual_msg, Visual_msg_other]) 0)"
  define st' where "st' = the (UpdateFromMsg Helpers_example st 1)"
  have l: "Load Helpers_example (MessageWidget_new [Visual_msg, Visual_msg_other]) 0 = Some st"
    unfolding st_def by code_simp
  have u: "UpdateFromMsg Helpers_example st 1 = Some st'"
    unfolding st'_def st_def by code_simp
  have wf: "wf_message (messages (MessageWidget_new [Visual_msg, Visual_msg_other]) ! 0)"
    by code_simp
  have wf': "wf_message Visual_msg"
    by code_simp
  have v: "StringWidgetValue st ''name'' = Some ''link''" "StringWidgetValue st' ''name'' = Some ''wheel''"
      "PropertyWidgetCount st = 3" "PropertyWidgetCount st' = 3"
    unfolding st'_def st_def by code_simp+
  from UpdateFromMsg_keeps_registry [OF l wf u] l u wf' v show ?thesis
    by simp
qed


section \<open>Termination of the walks\<close>

lemma Parse_walk_Node:
  assumes "Parse_walk pool update t inst i = Some y"
  shows "\<not> (pool = Node_pool \<and> \<not> update \<and> t = ''Node'' \<and> i = 0)"
proof (rule Parse_walk.raw_induct
    [where P = "\<lambda>pool update t inst i y.
       \<not> (pool = Node_pool \<and> \<not> update \<and> t = ''Node'' \<and> i = 0)", OF _ assms])
  fix walk pool update t inst i and y :: unit
  assume IH: "\<And>pool update t inst i y. walk pool update t inst i = Some y
      \<Longrightarrow> \<not> (pool = Node_pool \<and> \<not> update \<and> t = ''Node'' \<and> i = 0)"
    and step: "(if length (pool t) \<le> i then Some ()
      else if fd_repeated (pool t ! i) \<or> update \<and> \<not> HasField_walk inst (pool t ! i)
      then walk pool update t inst (Suc i)
      else case fd_message_type (pool t ! i) of
             None \<Rightarrow> walk pool update t inst (Suc i)
           | Some t' \<Rightarrow>
               if t' \<in> set special_types then walk pool update t inst (Suc i)
               else walk pool update t' (MutableMessage_walk inst (pool t ! i)) 0 \<bind>
                    (\<lambda>_. walk pool update t inst (Suc i))) = Some y"
  show "\<not> (pool = Node_pool \<and> \<not> update \<and> t = ''Node'' \<and> i = 0)"
  proof
    assume "pool = Node_pool \<and> \<not> update \<and> t = ''Node'' \<and> i = 0"
    with step obtain z where "walk Node_pool False ''Node''
        (MutableMessage_walk inst (FieldDescriptor ''child'' False (Some ''Node''))) 0 = Some z"
      by (auto simp: Node_pool_def special_types_def elim!: bind_eq_SomeE split: if_splits)
    with IH show False by blast
  qed
qed

lemma nests_field:
  assumes "nests pool (Suc d) t" "i < length (pool t)" "\<not> fd_repeated (pool t ! i)"
    and "fd_message_type (pool t ! i) = Some t'" "t' \<notin> set special_types"
  shows "nests pool d t'"
proof -
  from assms(1,2) have "fd_repeated (pool t ! i)
      \<or> (case fd_message_type (pool t ! i) of
            None \<Rightarrow> True
          | Some t' \<Rightarrow> t' \<in> set special_types \<or> nests pool d t')"
    by (simp add: list_all_length)
  with assms(3,4,5) show ?thesis by simp
qed

lemma Parse_walk_loop:
  assumes n: "nests pool (Suc d) t"
    and sub: "\<And>t' inst'. nests pool d t' \<Longrightarrow> Parse_walk pool update t' inst' 0 = Some ()"
  shows "Parse_walk pool update t inst i = Some ()"
proof (induction k \<equiv> "length (pool t) - i" arbitrary: i)
  case 0
  then show ?case by (subst Parse_walk.simps) auto
next
  case (Suc k)
  then have i: "i < length (pool t)" and k: "k = length (pool t) - Suc i" by simp_all
  note nxt = Suc.hyps(1) [OF k]
  show ?case
  proof (cases "fd_repeated (pool t ! i) \<or> update \<and> \<not> HasField_walk inst (pool t ! i)")
    case True
    with i nxt show ?thesis by (subst Parse_walk.simps) auto
  next
    case visited: False
    show ?thesis
    proof (cases "fd_message_type (pool t ! i)")
      case None
      with i visited nxt show ?thesis by (subst Parse_walk.simps) auto
    next
      case (Some t')
      show ?thesis
      proof (cases "t' \<in> set special_types")
        case True
        with i visited Some nxt show ?thesis by (subst Parse_walk.simps) auto
      next
        case False
        from visited have "\<not> fd_repeated (pool t ! i)" by simp
        with n i have "nests pool d t'" using Some False by (rule nests_field)
        then have "Parse_walk pool update t' (MutableMessage_walk inst (pool t ! i)) 0 = Some ()"
          by (rule sub)
        with i visited Some False nxt show ?thesis by (subst Parse_walk.simps) auto
      qed
    qed
  qed
qed

lemma Parse_walk_nests:
  "nests pool d t \<Longrightarrow> Parse_walk pool update t inst i = Some ()"
proof (induction d arbitrary: t inst i)
  case 0
  then show ?case by simp
next
  case (Suc d)
  from Suc.prems show ?case by (rule Parse_walk_loop) (rule Suc.IH)
qed

lemma UpdateMsg_walk_loop:
  assumes n: "nests pool (Suc d) t"
    and sub: "\<And>t' name'. nests pool d t' \<Longrightarrow> UpdateMsg_walk pool names readOnly name' t' 0 = Some ()"
  shows "UpdateMsg_walk pool names readOnly name t i = Some ()"
proof (induction k \<equiv> "length (pool t) - i" arbitrary: i)
  case 0
  then show ?case by (subst UpdateMsg_walk.simps) auto
next
  case (Suc k)
  then have i: "i < length (pool t)" and k: "k = length (pool t) - Suc i" by simp_all
  note nxt = Suc.hyps(1) [OF k]
  let ?s = "scoped name (fd_name (pool t ! i))"
  show ?case
  proof (cases "fd_repeated (pool t ! i) \<or> ?s \<notin> set names \<or> ?s \<in> set readOnly")
    case True
    with i nxt show ?thesis by (subst UpdateMsg_walk.simps) auto
  next
    case visited: False
    show ?thesis
    proof (cases "fd_message_type (pool t ! i)")
      case None
      with i visited nxt show ?thesis by (subst UpdateMsg_walk.simps) auto
    next
      case (Some t')
      show ?thesis
      proof (cases "t' \<in> set special_types")
        case True
        with i visited Some nxt show ?thesis by (subst UpdateMsg_walk.simps) auto
      next
        case False
        from visited have "\<not> fd_repeated (pool t ! i)" by simp
        with n i have "nests pool d t'" using Some False by (rule nests_field)
        then have "UpdateMsg_walk pool names readOnly ?s t' 0 = Some ()"
          by (rule sub)
        with i visited Some False nxt show ?thesis by (subst UpdateMsg_walk.simps) auto
      qed
    qed
  qed
qed

lemma UpdateMsg_walk_nests:
  "nests pool d t \<Longrightarrow> UpdateMsg_walk pool names readOnly name t i = Some ()"
proof (induction d arbitrary: t name i)
  case 0
  then show ?case by simp
next
  case (Suc d)
  from Suc.prems show ?case by (rule UpdateMsg_walk_loop) (rule Suc.IH)
qed

lemma Node_pool_nests: "\<not> nests Node_pool d ''Node''"
  by (induction d) (simp_all add: Node_pool_def special_types_def)

text \<open>
  C7, as amended. When the message type nests singular message fields, other than those
  of the five special types, to a finite depth, the walk of \<^verbatim>\<open>Parse\<close> returns on every
  instance of the type, in both modes, and so does the walk of \<^verbatim>\<open>UpdateMsg\<close>, whatever
  the names in the map: every recursive call is made on the sub-message of a singular
  message field, whose type nests less deep, and every call goes through the fields of
  its descriptor once.
\<close>

theorem walks_return:
  assumes "nests pool d t"
  shows "Parse_walk pool update t inst i = Some ()
       \<and> UpdateMsg_walk pool names readOnly name t i = Some ()"
  using assms by (simp add: Parse_walk_nests UpdateMsg_walk_nests)

theorem walks_return_witness:
  "nests Header_pool 2 ''Header''
   \<and> Parse_walk Header_pool False ''Header'' (Instance []) 0 = Some ()
   \<and> Parse_walk Header_pool True ''Header'' (Instance [(''stamp'', Instance [])]) 0 = Some ()
   \<and> UpdateMsg_walk Header_pool [''stamp'', ''stamp::sec'', ''stamp::nsec''] [''stamp::nsec''] []
       ''Header'' 0 = Some ()"
proof -
  have n: "nests Header_pool 2 ''Header''"
    by (simp add: numeral_2_eq_2 Header_pool_def special_types_def)
  from n walks_return [OF n, of False "Instance []" 0 "[''stamp'', ''stamp::sec'', ''stamp::nsec'']"
      "[''stamp::nsec'']" "[]"]
    walks_return [OF n, of True "Instance [(''stamp'', Instance [])]" 0 "[]" "[]" "[]"]
  show ?thesis by simp
qed

text \<open>
  The walk of \<^verbatim>\<open>Load\<close> does not return on a message type that contains itself, whose
  nesting has no finite depth: with \<open>update\<close> false a field that is not set is walked
  too, in the sub-message that \<^verbatim>\<open>MutableMessage\<close> creates for it, whose type has the
  same field again. The instance walked is finite: it has no field set.
\<close>

theorem Parse_walk_recursive_type:
  "Parse_walk Node_pool False ''Node'' (Instance []) 0 = None
   \<and> (\<forall>d. \<not> nests Node_pool d ''Node'')"
  using Parse_walk_Node [of Node_pool False "''Node''" "Instance []" 0] Node_pool_nests
  by (cases "Parse_walk Node_pool False ''Node'' (Instance []) 0") auto


section \<open>The registry at every reachable state\<close>

lemma keeps_inv_refl [simp]: "keeps_inv st st"
  by (simp add: keeps_inv_def)

lemma keeps_inv_trans: "keeps_inv a b \<Longrightarrow> keeps_inv b c \<Longrightarrow> keeps_inv a c"
  by (auto simp: keeps_inv_def)

lemma edits_refl [simp]: "edits st st"
  by (simp add: edits_def)

lemma edits_keeps_inv:
  assumes "edits st st'"
  shows "keeps_inv st st'"
proof -
  from assms have "configWidgets st' = configWidgets st" "length (heap st') = length (heap st)"
      "\<And>q. scopedName (heap st' ! q) = scopedName (heap st ! q)"
      "\<And>s. find_widget st' s = find_widget st s"
    by (simp_all add: edits_def frame_def find_widget_def)
  then show ?thesis
    by (simp add: keeps_inv_def registry_inv_def registry_inj_def)
qed

lemma only_edits: "only p st st' \<Longrightarrow> edits st st'"
  by (auto simp: only_def edits_def same_widget_def)

lemma insert_inv:
  assumes inv: "registry_inv st"
    and cw: "configWidgets st' = (s, p) # configWidgets st"
    and new: "find_widget st s = None"
    and len: "length (heap st) \<le> length (heap st')" "p < length (heap st')"
    and sn: "scopedName (heap st' ! p) = s"
    and old: "\<forall>q < length (heap st). q \<noteq> p \<longrightarrow> scopedName (heap st' ! q) = scopedName (heap st ! q)"
  shows "registry_inv st'"
proof -
  from new have fresh: "s \<notin> fst ` set (configWidgets st)"
    by (simp add: find_widget_def map_of_eq_None_iff)
  have fw: "\<And>n. find_widget st' n = (if n = s then Some p else find_widget st n)"
    using cw by (simp add: find_widget_def)
  have "distinct (map fst (configWidgets st'))"
    using inv cw fresh by (simp add: registry_inv_def)
  moreover have "\<forall>(s0, p0) \<in> set (configWidgets st').
      p0 < length (heap st') \<and> find_widget st' (scopedName (heap st' ! p0)) = Some p0"
  proof (intro ballI, clarify)
    fix s0 p0 assume m: "(s0, p0) \<in> set (configWidgets st')"
    show "p0 < length (heap st') \<and> find_widget st' (scopedName (heap st' ! p0)) = Some p0"
    proof (cases "p0 = p")
      case True
      with len sn fw show ?thesis by simp
    next
      case False
      with m cw have m0: "(s0, p0) \<in> set (configWidgets st)" by auto
      with inv have p0: "p0 < length (heap st)"
          and f0: "find_widget st (scopedName (heap st ! p0)) = Some p0"
        by (auto simp: registry_inv_def)
      from old p0 False have "scopedName (heap st' ! p0) = scopedName (heap st ! p0)" by simp
      moreover from f0 new have "scopedName (heap st ! p0) \<noteq> s" by auto
      ultimately show ?thesis using p0 len f0 fw by simp
    qed
  qed
  ultimately show ?thesis by (simp add: registry_inv_def)
qed

lemma insert_inj:
  assumes "registry_inv st" "registry_inj st"
    and "configWidgets st' = (s, p) # configWidgets st" and "length (heap st) \<le> p"
  shows "registry_inj st'"
proof -
  from assms(1) have "\<forall>p0 \<in> snd ` set (configWidgets st). p0 < length (heap st)"
    by (auto simp: registry_inv_def)
  with assms(4) have "p \<notin> snd ` set (configWidgets st)" by auto
  with assms(2,3) show ?thesis by (simp add: registry_inj_def)
qed

lemma append_keeps_inv:
  assumes "configWidgets st' = configWidgets st" "heap st' = heap st @ ws"
  shows "keeps_inv st st'"
proof -
  from assms(1) have "\<And>s. find_widget st' s = find_widget st s" by (simp add: find_widget_def)
  with assms show ?thesis
    by (auto simp: keeps_inv_def registry_inv_def registry_inj_def nth_append)
qed

lemma created_keeps_inv:
  assumes c: "created st s grouped w st'" and new: "find_widget st s = None"
  shows "keeps_inv st st'"
proof (cases "s = []")
  case True
  with c have "configWidgets st' = configWidgets st" "heap st' = heap st @ [heap st' ! length (heap st)]"
    by (auto simp: created_def intro!: nth_equalityI simp: nth_append less_Suc_eq)
  then show ?thesis by (rule append_keeps_inv)
next
  case False
  with c have cw: "configWidgets st' = (s, length (heap st)) # configWidgets st"
      and len: "length (heap st') = Suc (length (heap st))"
      and sn: "scopedName (heap st' ! length (heap st)) = s"
      and old: "\<forall>q < length (heap st). heap st' ! q = heap st ! q"
    by (simp_all add: created_def)
  have "registry_inv st'" if "registry_inv st"
    using that cw new _ _ sn by (rule insert_inv) (use len old in simp_all)
  moreover have "registry_inj st'" if "registry_inv st" "registry_inj st"
    using that cw by (rule insert_inj) simp
  ultimately show ?thesis by (simp add: keeps_inv_def)
qed

lemma leaf_post_keeps_inv: "leaf_post st s grouped c nw st' \<Longrightarrow> keeps_inv st st'"
  by (auto simp: leaf_post_def split: option.splits
      intro: edits_keeps_inv only_edits created_keeps_inv)

lemma wrapper_post_keeps_inv:
  assumes "wrapper_post st st1 s nws nw st'"
  shows "keeps_inv st1 st'"
proof (cases "nws = []")
  case True
  with assms show ?thesis by (simp add: wrapper_post_def)
next
  case ne: False
  show ?thesis
  proof (cases "find_widget st s = None")
    case False
    with assms ne have "configWidgets st' = configWidgets st1"
        "heap st' = heap st1 @ [(new_PropertyWidget PropertyWidgetC)\<lparr>widgets := [QGroupBox nws]\<rparr>]"
      by (simp_all add: wrapper_post_def)
    then show ?thesis by (rule append_keeps_inv)
  next
    case True
    with assms ne have w: "wrapped st1 s nws st'" by (simp add: wrapper_post_def)
    show ?thesis
    proof (cases "s = [] \<or> find_widget st1 s \<noteq> None")
      case True
      with w have "configWidgets st' = configWidgets st1"
          "heap st' = heap st1 @ [heap st' ! length (heap st1)]"
        by (auto simp: wrapped_def intro!: nth_equalityI simp: nth_append less_Suc_eq)
      then show ?thesis by (rule append_keeps_inv)
    next
      case False
      with w have cw: "configWidgets st' = (s, length (heap st1)) # configWidgets st1"
          and len: "length (heap st') = Suc (length (heap st1))"
          and sn: "scopedName (heap st' ! length (heap st1)) = s"
          and old: "\<forall>q < length (heap st1). heap st' ! q = heap st1 ! q"
          and new: "find_widget st1 s = None"
        by (simp_all add: wrapped_def)
      have "registry_inv st'" if "registry_inv st1"
        using that cw new _ _ sn by (rule insert_inv) (use len old in simp_all)
      moreover have "registry_inj st'" if "registry_inv st1" "registry_inj st1"
        using that cw by (rule insert_inj) simp
      ultimately show ?thesis by (simp add: keeps_inv_def)
    qed
  qed
qed

lemma Parse_keeps_inv:
  "Parse h u name level m st = Some (m', nws, st') \<Longrightarrow> keeps_inv st st'"
  "Parse_field h u name level f st = Some (f', nw, st'') \<Longrightarrow> keeps_inv st st''"
proof (induction h u name level m st and h u name level f st
    arbitrary: m' nws st' and f' nw st'' rule: Parse_induct)
  case (Nil h u name level st)
  then show ?case by simp
next
  case (Cons h u name level f fs st)
  from Cons.prems obtain f1 nw1 st1 fs1 nws1 where
      1: "Parse_field h u name level f st = Some (f1, nw1, st1)"
      and 2: "Parse h u name level fs st1 = Some (fs1, nws1, st')"
    by (auto elim!: bind_eq_SomeE split: prod.splits)
  from Cons.IH(1) [OF 1] Cons.IH(2) [OF 1 2] show ?case by (rule keeps_inv_trans)
next
  case (Message h u name level n rep has t sub st)
  show ?case
  proof (cases "rep \<or> u \<and> \<not> has")
    case True
    with Message.prems show ?thesis by (simp add: Parse_field_skip)
  next
    case vis: False
    show ?thesis
    proof (cases "t \<in> set special_types")
      case True
      from Message.prems vis True obtain sub' where
        "Parse_special h st name n level t sub = Some (sub', nw, st'')"
        by (rule Parse_field_special)
      from Parse_special_post [OF this True] show ?thesis by (rule leaf_post_keeps_inv)
    next
      case False
      from Message.prems vis False obtain sub' nws st1 where
          rec: "Parse h u (scoped name n) (level + 1) sub st = Some (sub', nws, st1)"
          and wp: "wrapper_post st st1 (scoped name n) nws nw st''"
        by (rule Parse_field_generic)
      from Message.IH [OF vis False rec] wrapper_post_keeps_inv [OF wp] show ?thesis
        by (rule keeps_inv_trans)
    qed
  qed
next
  case (Scalar h u name level n rep has v st)
  show ?case
  proof (cases "rep \<or> u \<and> \<not> has")
    case True
    with Scalar.prems show ?thesis by (simp add: Parse_field_skip)
  next
    case False
    with Scalar obtain "Parse_scalar h st name n level v = Some (nw, st'')"
      by (auto simp: Parse_field_scalar elim!: bind_eq_SomeE split: prod.splits)
    from Parse_scalar_post [OF this] show ?thesis
      by (auto split: if_splits intro: leaf_post_keeps_inv)
  qed
qed


subsection \<open>The calls\<close>

lemma modify_edits:
  assumes "modify st p f = Some (b, st')"
    and "\<And>w w'. f w = Some (b, w') \<Longrightarrow> same_widget w w'"
  shows "edits st st'"
  using assms by (blast intro: only_edits modify_only)

lemma store_edits:
  assumes "deref st p = Some w" "scopedName w' = scopedName w"
  shows "edits st (store p w' st)"
proof -
  from assms(1) have "p < length (heap st)" "heap st ! p = w"
    by (auto simp: deref_def dest: vat_SomeD)
  with assms(2) show ?thesis
    by (auto simp: edits_def frame_def store_def nth_list_update)
qed

lemma SetWidgetVisible_edits:
  "SetWidgetVisible st name v = Some st' \<Longrightarrow> edits st st'"
  by (auto simp: SetWidgetVisible_def split: option.splits prod.splits elim!: bind_eq_SomeE
      intro!: store_edits)

lemma setEnabled_all_scopedName:
  "length (setEnabled_all e ps hp) = length hp"
  "q < length hp \<Longrightarrow> scopedName (setEnabled_all e ps hp ! q) = scopedName (hp ! q)"
  by (simp_all add: setEnabled_all_def setEnabled_def)

lemma setEnabled_all_nth:
  "scopedName (setEnabled_all e ps hp ! q) = scopedName (hp ! q)"
proof (cases "q < length hp")
  case True
  then show ?thesis by (rule setEnabled_all_scopedName(2))
next
  case False
  then have "setEnabled_all e ps hp ! q = [] ! (q - length hp)" "hp ! q = [] ! (q - length hp)"
    using setEnabled_all_scopedName(1) [of e ps hp]
    by (metis append_Nil2 not_less nth_append)+
  then show ?thesis by simp
qed

lemma SetWidgetReadOnly_edits:
  "SetWidgetReadOnly st name v = Some st' \<Longrightarrow> edits st st'"
  by (auto simp: SetWidgetReadOnly_def edits_def frame_def setEnabled_all_nth
      setEnabled_all_scopedName(1)
      split: option.splits prod.splits elim!: bind_eq_SomeE dest!: store_edits [where w' = "w\<lparr>enabled := e\<rparr>" for w e])

lemma setter_edits:
  "SetIntWidgetValue st name i = Some (b, st') \<Longrightarrow> edits st st'"
  "SetUIntWidgetValue st name i = Some (b, st') \<Longrightarrow> edits st st'"
  "SetDoubleWidgetValue st name d = Some (b, st') \<Longrightarrow> edits st st'"
  "SetStringWidgetValue st name s = Some (b, st') \<Longrightarrow> edits st st'"
  "SetVector3dWidgetValue h st name v = Some (b, st') \<Longrightarrow> edits st st'"
  "SetColorWidgetValue st name c = Some (b, st') \<Longrightarrow> edits st st'"
  "SetPoseWidgetValue h st name p = Some (b, st') \<Longrightarrow> edits st st'"
  "SetGeometryWidgetValue st name t dims u = Some (b, st') \<Longrightarrow> edits st st'"
  "SetDensityWidgetValue h st name d = Some (b, st') \<Longrightarrow> edits st st'"
  "SetEnumWidgetValue st name s = Some (b, st') \<Longrightarrow> edits st st'"
  by (auto simp: SetIntWidgetValue_def SetUIntWidgetValue_def SetDoubleWidgetValue_def
      SetStringWidgetValue_def SetVector3dWidgetValue_def SetColorWidgetValue_def
      SetPoseWidgetValue_def SetGeometryWidgetValue_def SetDensityWidgetValue_def
      SetEnumWidgetValue_def split: option.splits
      elim!: modify_edits
      dest: UpdateIntWidget_same UpdateUIntWidget_same UpdateStringWidget_same
        UpdateVector3dWidget_same UpdateColorWidget_same UpdatePoseWidget_same
        UpdateGeometryWidget_same UpdateDensityWidget_same UpdateEnumWidget_same
        only_edits [OF UpdateDoubleWidget_only])

lemma SetBoolWidgetValue_edits:
  "SetBoolWidgetValue st name v = Some (b, st') \<Longrightarrow> edits st st'"
  by (auto simp: SetBoolWidgetValue_def split: option.splits if_splits
      elim!: bind_eq_SomeE modify_edits dest: BoolWidget_SetValue_same)

lemma messages_keeps_inv [simp]:
  "keeps_inv st (st'\<lparr>messages := ms\<rparr>) = keeps_inv st st'"
  "keeps_inv (st\<lparr>messages := ms, msg := b\<rparr>) st' = keeps_inv st st'"
  by (simp_all add: keeps_inv_def registry_inv_def registry_inj_def find_widget_def)

lemma Load_keeps_inv: "Load h st a = Some st' \<Longrightarrow> keeps_inv st st'"
  by (auto simp: Load_def Let_def elim!: bind_eq_SomeE split: prod.splits
      dest!: Parse_keeps_inv(1))

lemma UpdateFromMsg_keeps_inv: "UpdateFromMsg h st a = Some st' \<Longrightarrow> keeps_inv st st'"
  by (auto simp: UpdateFromMsg_def elim!: bind_eq_SomeE split: prod.splits if_splits
      dest!: Parse_keeps_inv(1))

lemma Msg_keeps_inv: "Msg h st = Some (b, st') \<Longrightarrow> keeps_inv st st'"
  by (auto simp: Msg_def elim!: bind_eq_SomeE)

lemma AddPropertyWidget_inv:
  assumes "AddPropertyWidget st name child = Some (b, st')" "registry_inv st"
  shows "registry_inv st'"
proof (cases b)
  case False
  with assms show ?thesis
    by (auto simp: AddPropertyWidget_def split: if_splits elim!: bind_eq_SomeE)
next
  case True
  with assms(1) obtain p w where child: "child = Some p" and new: "find_widget st name = None"
      and w: "deref st p = Some w"
      and st': "st' = (store p (w\<lparr>scopedName := name\<rparr>) st)\<lparr>configWidgets := (name, p) # configWidgets st\<rparr>"
    by (auto simp: AddPropertyWidget_def split: if_splits elim!: bind_eq_SomeE)
  from w have p: "p < length (heap st)" by (auto simp: deref_def dest: vat_SomeD)
  show ?thesis
    using assms(2) _ new
  proof (rule insert_inv)
    show "configWidgets st' = (name, p) # configWidgets st" by (simp add: st' store_def)
  qed (use p in \<open>simp_all add: st' store_def\<close>)
qed

lemma call_keeps_inv:
  assumes "call h c st = Some st'" "\<forall>name child. c \<noteq> Call_AddPropertyWidget name child"
  shows "keeps_inv st st'"
proof (cases c)
  case (Call_Load a)
  with assms(1) show ?thesis by (auto dest: Load_keeps_inv)
next
  case (Call_UpdateFromMsg a)
  with assms(1) show ?thesis by (auto dest: UpdateFromMsg_keeps_inv)
next
  case Call_Msg
  with assms(1) show ?thesis by (auto dest: Msg_keeps_inv)
next
  case (Call_AddPropertyWidget name child)
  with assms(2) show ?thesis by simp
next
  case (Call_new_PropertyWidget w)
  with assms(1) show ?thesis by (auto simp: alloc_def intro: append_keeps_inv)
qed (use assms(1) in \<open>auto intro!: edits_keeps_inv
      dest: SetWidgetVisible_edits SetWidgetReadOnly_edits setter_edits SetBoolWidgetValue_edits\<close>)

lemma call_inv:
  assumes "call h c st = Some st'" "registry_inv st"
  shows "registry_inv st'"
proof (cases "\<exists>name child. c = Call_AddPropertyWidget name child")
  case True
  with assms show ?thesis by (auto dest: AddPropertyWidget_inv)
next
  case False
  with assms(1) have "keeps_inv st st'" by (auto intro: call_keeps_inv)
  with assms(2) show ?thesis by (simp add: keeps_inv_def)
qed

lemma call_inj:
  assumes "call h c st = Some st'" "registry_inv st" "registry_inj st"
    and "\<forall>name child. c \<noteq> Call_AddPropertyWidget name child"
  shows "registry_inj st'"
  using call_keeps_inv [OF assms(1,4)] assms(2,3) by (simp add: keeps_inv_def)

lemma calls_inv:
  "calls h cs st = Some st' \<Longrightarrow> registry_inv st \<Longrightarrow> registry_inv st'"
  by (induction cs arbitrary: st) (auto elim!: bind_eq_SomeE dest: call_inv)

lemma calls_inj:
  "calls h cs st = Some st' \<Longrightarrow> registry_inv st \<Longrightarrow> registry_inj st
     \<Longrightarrow> \<forall>name child. Call_AddPropertyWidget name child \<notin> set cs \<Longrightarrow> registry_inj st'"
proof (induction cs arbitrary: st)
  case Nil
  then show ?case by simp
next
  case (Cons c cs)
  from Cons.prems(1) obtain st1 where 1: "call h c st = Some st1" and 2: "calls h cs st1 = Some st'"
    by (auto elim!: bind_eq_SomeE)
  from Cons.prems(4) have c: "\<forall>name child. c \<noteq> Call_AddPropertyWidget name child"
      and cs: "\<forall>name child. Call_AddPropertyWidget name child \<notin> set cs"
    by auto
  from 1 Cons.prems(2) have "registry_inv st1" by (rule call_inv)
  moreover from 1 Cons.prems(2,3) c have "registry_inj st1" by (rule call_inj)
  ultimately show ?case using 2 cs by (auto intro: Cons.IH)
qed

lemma registry_inv_new: "registry_inv (MessageWidget_new ms)" "registry_inj (MessageWidget_new ms)"
  by (simp_all add: registry_inv_def registry_inj_def MessageWidget_new_def)

lemma distinct_snd_unique:
  "distinct (map snd xs) \<Longrightarrow> (s, p) \<in> set xs \<Longrightarrow> (s', p) \<in> set xs \<Longrightarrow> s' = s"
  by (induction xs) force+

lemma registry_inv_single:
  assumes "registry_inv st" "(s, p) \<in> set (configWidgets st)"
    and "\<forall>s'. (s', p) \<in> set (configWidgets st) \<longrightarrow> s' = s"
  shows "scopedName (heap st ! p) = s"
proof -
  from assms(1,2) have "find_widget st (scopedName (heap st ! p)) = Some p"
    by (auto simp: registry_inv_def)
  then have "(scopedName (heap st ! p), p) \<in> set (configWidgets st)"
    by (auto simp: find_widget_def dest: map_of_SomeD)
  with assms(3) show ?thesis by blast
qed


text \<open>
  C9. \<^verbatim>\<open>AddPropertyWidget\<close> returns false and changes nothing when the name is empty,
  the widget is null or the name is registered. At every state reached by calls from
  the new message widget, every name is bound once, to a widget object that exists and
  whose stored scoped name is a name bound to that object; the stored scoped name is the
  key itself for a widget object bound to one name only, and for every registered
  widget when no call of \<^verbatim>\<open>AddPropertyWidget\<close> was made by the client.
\<close>

theorem registry_invariant:
  assumes "calls h cs (MessageWidget_new ms) = Some st"
  shows "(name = [] \<or> child = None \<or> find_widget st name \<noteq> None
            \<longrightarrow> AddPropertyWidget st name child = Some (False, st))
       \<and> distinct (map fst (configWidgets st))
       \<and> (\<forall>(s, p) \<in> set (configWidgets st).
             PropertyWidgetByName st s = Some p \<and> p < length (heap st)
             \<and> PropertyWidgetByName st (scopedName (heap st ! p)) = Some p
             \<and> ((\<forall>s'. (s', p) \<in> set (configWidgets st) \<longrightarrow> s' = s)
                  \<longrightarrow> scopedName (heap st ! p) = s))
       \<and> ((\<forall>name child. Call_AddPropertyWidget name child \<notin> set cs)
            \<longrightarrow> (\<forall>(s, p) \<in> set (configWidgets st). scopedName (heap st ! p) = s))"
proof -
  from assms have inv: "registry_inv st"
    by (rule calls_inv) (rule registry_inv_new)
  have add: "name = [] \<or> child = None \<or> find_widget st name \<noteq> None
      \<longrightarrow> AddPropertyWidget st name child = Some (False, st)"
    by (auto simp: AddPropertyWidget_def)
  have d: "distinct (map fst (configWidgets st))"
    using inv by (simp add: registry_inv_def)
  have each: "\<forall>(s, p) \<in> set (configWidgets st).
             PropertyWidgetByName st s = Some p \<and> p < length (heap st)
             \<and> PropertyWidgetByName st (scopedName (heap st ! p)) = Some p
             \<and> ((\<forall>s'. (s', p) \<in> set (configWidgets st) \<longrightarrow> s' = s)
                  \<longrightarrow> scopedName (heap st ! p) = s)"
  proof (intro ballI, clarify, intro conjI impI)
    fix s p assume m: "(s, p) \<in> set (configWidgets st)"
    from d m show "PropertyWidgetByName st s = Some p"
      by (simp add: PropertyWidgetByName_def find_widget_def)
    from inv m show "p < length (heap st)"
      and "PropertyWidgetByName st (scopedName (heap st ! p)) = Some p"
      by (auto simp: registry_inv_def PropertyWidgetByName_def)
    assume "\<forall>s'. (s', p) \<in> set (configWidgets st) \<longrightarrow> s' = s"
    with inv m show "scopedName (heap st ! p) = s" by (rule registry_inv_single)
  qed
  have own: "\<forall>(s, p) \<in> set (configWidgets st). scopedName (heap st ! p) = s"
    if "\<forall>name child. Call_AddPropertyWidget name child \<notin> set cs"
  proof (intro ballI, clarify)
    fix s p assume m: "(s, p) \<in> set (configWidgets st)"
    from assms registry_inv_new that have "registry_inj st" by (rule calls_inj)
    then have "\<forall>s'. (s', p) \<in> set (configWidgets st) \<longrightarrow> s' = s"
      using m by (auto simp: registry_inj_def dest: distinct_snd_unique)
    with inv m show "scopedName (heap st ! p) = s" by (rule registry_inv_single)
  qed
  from add d each own show ?thesis by blast
qed

theorem registry_invariant_witness:
  "\<exists>st. calls Helpers_example
          [Call_Load 0, Call_SetStringWidgetValue ''name'' ''wheel'', Call_SetWidgetReadOnly ''id'' True,
           Call_Msg, Call_UpdateFromMsg 0] (MessageWidget_new [Visual_msg]) = Some st
        \<and> map fst (configWidgets st) = [''geometry'', ''id'', ''name'']
        \<and> find_widget st ''name'' \<noteq> None
        \<and> AddPropertyWidget st ''name'' (Some 1) = Some (False, st)
        \<and> distinct (map fst (configWidgets st))
        \<and> (\<forall>(s, p) \<in> set (configWidgets st).
              PropertyWidgetByName st s = Some p \<and> scopedName (heap st ! p) = s)"
proof -
  define cs where "cs = [Call_Load 0, Call_SetStringWidgetValue ''name'' ''wheel'',
    Call_SetWidgetReadOnly ''id'' True, Call_Msg, Call_UpdateFromMsg 0]"
  define st where "st = the (calls Helpers_example cs (MessageWidget_new [Visual_msg]))"
  have r: "calls Helpers_example cs (MessageWidget_new [Visual_msg]) = Some st"
    unfolding st_def cs_def by code_simp
  have n: "map fst (configWidgets st) = [''geometry'', ''id'', ''name'']"
    unfolding st_def cs_def by code_simp
  have f: "find_widget st ''name'' \<noteq> None"
    unfolding st_def cs_def by code_simp
  have no: "\<forall>name child. Call_AddPropertyWidget name child \<notin> set cs"
    by (simp add: cs_def)
  from registry_invariant [OF r, of "''name''" "Some 1"] f no n r
  show ?thesis
    unfolding cs_def by (intro exI [of _ st]) auto
qed

text \<open>
  A widget object that is registered a second time, under another name, takes the new
  name: the key \<^verbatim>\<open>name\<close> is then bound to a widget whose stored scoped name is
  \<^verbatim>\<open>alias\<close>.
\<close>

theorem registry_scopedName_counterexample:
  "\<exists>st p. calls Helpers_example [Call_Load 0, Call_AddPropertyWidget ''alias'' (Some 0)]
            (MessageWidget_new [Visual_msg]) = Some st
      \<and> PropertyWidgetByName st ''name'' = Some p
      \<and> scopedName (heap st ! p) = ''alias''"
proof -
  define st where "st = the (calls Helpers_example [Call_Load 0, Call_AddPropertyWidget ''alias'' (Some 0)]
            (MessageWidget_new [Visual_msg]))"
  have "calls Helpers_example [Call_Load 0, Call_AddPropertyWidget ''alias'' (Some 0)]
            (MessageWidget_new [Visual_msg]) = Some st"
    unfolding st_def by code_simp
  moreover have "PropertyWidgetByName st ''name'' = Some 0"
    unfolding st_def by code_simp
  moreover have "scopedName (heap st ! 0) = ''alias''"
    unfolding st_def by code_simp
  ultimately show ?thesis by blast
qed


section \<open>The caller's messages\<close>

lemma keeps_messages_refl [simp]: "keeps_messages n st st"
  by (simp add: keeps_messages_def)

lemma keeps_messages_trans:
  "keeps_messages n a b \<Longrightarrow> keeps_messages n b c \<Longrightarrow> keeps_messages n a c"
  by (auto simp: keeps_messages_def)

lemma frame_keeps_messages: "frame st st' \<Longrightarrow> keeps_messages n st st'"
  by (simp add: frame_def keeps_messages_def internal_from_def)

lemma edits_keeps_messages: "edits st st' \<Longrightarrow> keeps_messages n st st'"
  by (simp add: edits_def frame_keeps_messages)

lemma Load_messages:
  assumes "Load h st a = Some st'"
  shows "a < length (messages st)" "msg st' = Some (length (messages st))"
    "length (messages st') = Suc (length (messages st))"
    "\<forall>c < length (messages st). messages st' ! c = messages st ! c"
    "ignoring_has (messages st' ! length (messages st)) = ignoring_has (messages st ! a)"
proof -
  let ?m = "messages st ! a"
  let ?b = "length (messages st)"
  let ?pre = "st\<lparr>messages := messages st @ [?m], msg := Some ?b\<rparr>"
  from assms obtain m1 nws st1 where a: "a < length (messages st)"
      and P: "Parse h False [] 0 ?m ?pre = Some (m1, nws, st1)"
      and st': "st' = st1\<lparr>messages := (messages st1)[?b := m1]\<rparr>"
    by (auto simp: Load_def Let_def elim!: bind_eq_SomeE split: prod.splits dest: vat_SomeD)
  from Parse_grows(1) [OF P] have g: "messages st1 = messages st @ [?m]" "msg st1 = Some ?b"
    by (simp_all add: grows_def)
  from Parse_strip(1) [OF P] have s: "ignoring_has m1 = ignoring_has ?m"
    by (simp add: ignoring_has_def)
  show "a < length (messages st)" by (rule a)
  show "msg st' = Some ?b" using st' g by simp
  show "length (messages st') = Suc ?b" using st' g by simp
  show "\<forall>c < ?b. messages st' ! c = messages st ! c" using st' g by (simp add: nth_append)
  show "ignoring_has (messages st' ! ?b) = ignoring_has ?m" using st' g s by simp
qed

lemma Load_keeps_messages: "Load h st a = Some st' \<Longrightarrow> keeps_messages n st st'"
  using Load_messages(2,3,4) [of h st a st']
  by (auto simp: keeps_messages_def internal_from_def)

lemma UpdateFromMsg_keeps_messages:
  assumes "UpdateFromMsg h st a = Some st'"
  shows "keeps_messages n st st'"
proof -
  from assms obtain b m m' nws st1 where b: "msg st = Some b"
      and P: "Parse h True [] 0 m st = Some (m', nws, st1)"
      and st': "st' = st1\<lparr>messages := (messages st1)[b := m']\<rparr>"
    by (auto simp: UpdateFromMsg_def elim!: bind_eq_SomeE split: if_splits prod.splits)
  from Parse_grows(1) [OF P] have "messages st1 = messages st" "msg st1 = msg st"
    by (simp_all add: grows_def)
  with b st' show ?thesis
    by (auto simp: keeps_messages_def internal_from_def)
qed

lemma Msg_messages:
  assumes "Msg h st = Some (b, st')"
  shows "msg st = Some b" "msg st' = Some b" "length (messages st') = length (messages st)"
    "\<forall>c. c \<noteq> b \<longrightarrow> messages st' ! c = messages st ! c"
  using assms by (auto simp: Msg_def elim!: bind_eq_SomeE)

lemma Msg_keeps_messages: "Msg h st = Some (b, st') \<Longrightarrow> keeps_messages n st st'"
  using Msg_messages [of h st b st']
  by (auto simp: keeps_messages_def internal_from_def)

lemma AddPropertyWidget_frame_messages:
  "AddPropertyWidget st name child = Some (b, st') \<Longrightarrow> keeps_messages n st st'"
  by (auto simp: AddPropertyWidget_def keeps_messages_def internal_from_def store_def
      split: if_splits elim!: bind_eq_SomeE)

lemma call_keeps_messages:
  assumes "call h c st = Some st'"
  shows "keeps_messages n st st'"
proof (cases c)
  case (Call_Load a)
  with assms show ?thesis by (auto dest: Load_keeps_messages)
next
  case (Call_UpdateFromMsg a)
  with assms show ?thesis by (auto dest: UpdateFromMsg_keeps_messages)
next
  case Call_Msg
  with assms show ?thesis by (auto dest: Msg_keeps_messages)
next
  case (Call_AddPropertyWidget name child)
  with assms show ?thesis by (auto dest: AddPropertyWidget_frame_messages)
next
  case (Call_new_PropertyWidget w)
  with assms show ?thesis by (auto simp: alloc_def keeps_messages_def internal_from_def)
qed (use assms in \<open>auto intro!: edits_keeps_messages
      dest: SetWidgetVisible_edits SetWidgetReadOnly_edits setter_edits SetBoolWidgetValue_edits\<close>)

lemma calls_keeps_messages:
  "calls h cs st = Some st' \<Longrightarrow> keeps_messages n st st'"
proof (induction cs arbitrary: st)
  case Nil
  then show ?case by simp
next
  case (Cons c cs)
  then obtain st1 where "call h c st = Some st1" "calls h cs st1 = Some st'"
    by (auto elim!: bind_eq_SomeE)
  with Cons.IH show ?case by (blast intro: keeps_messages_trans call_keeps_messages)
qed

text \<open>
  C6. \<^verbatim>\<open>Load\<close> of the message at address \<open>a\<close> allocates a message object at a new address
  and makes it the internal copy; its contents are those of the message passed, the
  has-bits apart (which \<^verbatim>\<open>Parse\<close> sets through \<^verbatim>\<open>MutableMessage\<close>). No message object
  that existed before the call, the one passed to \<^verbatim>\<open>Load\<close> among them, is changed by
  \<^verbatim>\<open>Load\<close>, by any sequence of later calls (widget setters, \<^verbatim>\<open>Msg\<close>, \<^verbatim>\<open>UpdateFromMsg\<close>,
  \<^verbatim>\<open>Load\<close> again, ...), or by a final \<^verbatim>\<open>Msg\<close>; and \<^verbatim>\<open>Msg\<close> returns the address of the
  internal copy, which is none of those.
\<close>

theorem Load_copy_semantics:
  assumes "Load h st0 a = Some st" and "calls h cs st = Some st'"
  shows "a < length (messages st0)
       \<and> msg st = Some (length (messages st0))
       \<and> ignoring_has (messages st ! length (messages st0)) = ignoring_has (messages st0 ! a)
       \<and> (\<forall>c < length (messages st0).
             messages st ! c = messages st0 ! c \<and> messages st' ! c = messages st0 ! c)
       \<and> (\<forall>b st''. Msg h st' = Some (b, st'') \<longrightarrow>
             msg st' = Some b \<and> length (messages st0) \<le> b \<and> b \<noteq> a
             \<and> (\<forall>c < length (messages st0). messages st'' ! c = messages st0 ! c))"
proof -
  let ?n = "length (messages st0)"
  note L = Load_messages [OF assms(1)]
  from L have i: "internal_from ?n st" by (simp add: internal_from_def)
  from calls_keeps_messages [OF assms(2), of ?n] i
  have i': "internal_from ?n st'" and k: "\<forall>c < ?n. messages st' ! c = messages st ! c"
    by (simp_all add: keeps_messages_def)
  have m: "msg st' = Some b \<and> ?n \<le> b \<and> b \<noteq> a
      \<and> (\<forall>c < ?n. messages st'' ! c = messages st0 ! c)"
    if "Msg h st' = Some (b, st'')" for b st''
  proof -
    from Msg_messages [OF that] have b: "msg st' = Some b"
        and o: "\<forall>c. c \<noteq> b \<longrightarrow> messages st'' ! c = messages st' ! c"
      by simp_all
    from b i' have "?n \<le> b" by (simp add: internal_from_def)
    with b o k L(1,4) show ?thesis by auto
  qed
  from L k m show ?thesis by auto
qed

theorem Load_copy_semantics_witness:
  "\<exists>st st' st''.
      Load Helpers_example (MessageWidget_new [Visual_msg]) 0 = Some st
    \<and> calls Helpers_example [Call_SetStringWidgetValue ''name'' ''wheel'', Call_SetUIntWidgetValue ''id'' 9] st
        = Some st'
    \<and> Msg Helpers_example st' = Some (1, st'')
    \<and> msg st = Some 1
    \<and> messages st ! 0 = Visual_msg \<and> messages st' ! 0 = Visual_msg \<and> messages st'' ! 0 = Visual_msg
    \<and> ignoring_has (messages st ! 1) = ignoring_has Visual_msg
    \<and> map fval (take 2 (messages st'' ! 1)) = [TYPE_STRING ''wheel'', TYPE_UINT32 9]"
proof -
  define cs where "cs = [Call_SetStringWidgetValue ''name'' ''wheel'', Call_SetUIntWidgetValue ''id'' 9]"
  define st where "st = the (Load Helpers_example (MessageWidget_new [Visual_msg]) 0)"
  define st' where "st' = the (calls Helpers_example cs st)"
  define st'' where "st'' = snd (the (Msg Helpers_example st'))"
  have l: "Load Helpers_example (MessageWidget_new [Visual_msg]) 0 = Some st"
    unfolding st_def by code_simp
  have c: "calls Helpers_example cs st = Some st'"
    unfolding st'_def st_def cs_def by code_simp
  have m: "Msg Helpers_example st' = Some (1, st'')"
    unfolding st''_def st'_def st_def cs_def by code_simp
  have v: "map fval (take 2 (messages st'' ! 1)) = [TYPE_STRING ''wheel'', TYPE_UINT32 9]"
    unfolding st''_def st'_def st_def cs_def by code_simp
  have n: "messages (MessageWidget_new [Visual_msg]) = [Visual_msg]"
    by (simp add: MessageWidget_new_def)
  from Load_copy_semantics [OF l c] m n
  have "msg st = Some 1" "messages st ! 0 = Visual_msg" "messages st' ! 0 = Visual_msg"
      "messages st'' ! 0 = Visual_msg" "ignoring_has (messages st ! 1) = ignoring_has Visual_msg"
    by auto
  with l c m v have "Load Helpers_example (MessageWidget_new [Visual_msg]) 0 = Some st
    \<and> calls Helpers_example [Call_SetStringWidgetValue ''name'' ''wheel'', Call_SetUIntWidgetValue ''id'' 9] st
        = Some st'
    \<and> Msg Helpers_example st' = Some (1, st'')
    \<and> msg st = Some 1
    \<and> messages st ! 0 = Visual_msg \<and> messages st' ! 0 = Visual_msg \<and> messages st'' ! 0 = Visual_msg
    \<and> ignoring_has (messages st ! 1) = ignoring_has Visual_msg
    \<and> map fval (take 2 (messages st'' ! 1)) = [TYPE_STRING ''wheel'', TYPE_UINT32 9]"
    unfolding cs_def by simp
  then show ?thesis by (intro exI)
qed


section \<open>The names registered by \<^verbatim>\<open>Load\<close>\<close>

lemma field_names_scalar:
  "\<not> is_message (Field n rep has v) \<Longrightarrow>
   field_names prefix (Field n rep has v) = (if rep \<or> \<not> typed_widget v then [] else [scoped prefix n])"
  by (cases v) simp_all

lemma leaf_post_new:
  assumes "leaf_post st s grouped c nw st'" "s \<noteq> []" "s \<notin> registered st"
  shows "registered st' = insert s (registered st) \<and> nw \<noteq> None"
proof -
  from assms(3) have "find_widget st s = None" by (simp add: registered_find)
  with assms(1,2) show ?thesis
    by (auto simp: leaf_post_def created_def registered_def)
qed

lemma wrapper_post_new:
  assumes "wrapper_post st st1 s nws nw st'" "s \<noteq> []" "s \<notin> registered st" "s \<notin> registered st1"
  shows "if nws = [] then registered st' = registered st1 \<and> nw = None
         else registered st' = insert s (registered st1) \<and> nw \<noteq> None"
proof -
  from assms(3,4) have "find_widget st s = None" "find_widget st1 s = None"
    by (simp_all add: registered_find)
  with assms(1,2) show ?thesis
    by (auto simp: wrapper_post_def wrapped_def registered_def)
qed

lemma Parse_names:
  "Parse h u name level m st = Some (m', nws, st') \<Longrightarrow> \<not> u \<Longrightarrow> wf_message m
     \<Longrightarrow> distinct (widget_names name m) \<Longrightarrow> set (widget_names name m) \<inter> registered st = {}
     \<Longrightarrow> registered st' = registered st \<union> set (widget_names name m)
         \<and> (nws = [] \<longleftrightarrow> widget_names name m = [])"
  "Parse_field h u name level f st = Some (f', nw, st'') \<Longrightarrow> \<not> u \<Longrightarrow> wf_field f
     \<Longrightarrow> distinct (field_names name f) \<Longrightarrow> set (field_names name f) \<inter> registered st = {}
     \<Longrightarrow> registered st'' = registered st \<union> set (field_names name f)
         \<and> (nw = None \<longleftrightarrow> field_names name f = [])"
proof (induction h u name level m st and h u name level f st
    arbitrary: m' nws st' and f' nw st'' rule: Parse_induct)
  case (Nil h u name level st)
  then show ?case by simp
next
  case (Cons h u name level f fs st)
  from Cons.prems(1) obtain f1 nw1 st1 fs1 nws1 where
      1: "Parse_field h u name level f st = Some (f1, nw1, st1)"
      and 2: "Parse h u name level fs st1 = Some (fs1, nws1, st')"
      and nws: "nws = (case nw1 of None \<Rightarrow> nws1 | Some p \<Rightarrow> p # nws1)"
    by (auto elim!: bind_eq_SomeE split: prod.splits)
  from Cons.prems have wf: "wf_field f" "wf_message fs"
      and d: "distinct (field_names name f)" "distinct (widget_names name fs)"
        "set (field_names name f) \<inter> set (widget_names name fs) = {}"
      and r: "set (field_names name f) \<inter> registered st = {}"
        "set (widget_names name fs) \<inter> registered st = {}"
    by auto
  from Cons.IH(1) [OF 1 Cons.prems(2) wf(1) d(1) r(1)]
  have f: "registered st1 = registered st \<union> set (field_names name f)"
      "nw1 = None \<longleftrightarrow> field_names name f = []"
    by simp_all
  from f(1) d(3) r(2) have "set (widget_names name fs) \<inter> registered st1 = {}" by auto
  from Cons.IH(2) [OF 1 2 Cons.prems(2) wf(2) d(2) this]
  have "registered st' = registered st1 \<union> set (widget_names name fs)"
      "nws1 = [] \<longleftrightarrow> widget_names name fs = []"
    by simp_all
  with f nws show ?case by (auto split: option.splits)
next
  case (Message h u name level n rep has t sub st)
  let ?s = "scoped name n"
  from Message.prems have n: "?s \<noteq> []" and wfs: "wf_message sub"
    by (simp_all add: scoped_nonempty)
  show ?case
  proof (cases "rep")
    case True
    then have "field_names name (Field n rep has (TYPE_MESSAGE t sub)) = []" by simp
    moreover from True Message.prems(1) have "nw = None" "st'' = st"
      by (simp_all add: Parse_field_skip)
    ultimately show ?thesis by simp
  next
    case False
    with Message.prems have vis: "\<not> (rep \<or> u \<and> \<not> has)" by simp
    show ?thesis
    proof (cases "t \<in> set special_types")
      case True
      from Message.prems(1) vis True obtain sub' where
        "Parse_special h st name n level t sub = Some (sub', nw, st'')"
        by (rule Parse_field_special)
      from Parse_special_post [OF this True] n have "registered st'' = insert ?s (registered st) \<and> nw \<noteq> None"
        by (rule leaf_post_new) (use Message.prems(5) True \<open>\<not> rep\<close> in simp)
      with True \<open>\<not> rep\<close> show ?thesis by simp
    next
      case gen: False
      from Message.prems(1) vis gen obtain sub' nws st1 where
          rec: "Parse h u ?s (level + 1) sub st = Some (sub', nws, st1)"
          and wp: "wrapper_post st st1 ?s nws nw st''"
        by (rule Parse_field_generic)
      show ?thesis
      proof (cases "widget_names ?s sub = []")
        case True
        with Message.IH [OF vis gen rec Message.prems(2) wfs]
        have 1: "registered st1 = registered st" "nws = []" by simp_all
        with wp have "nw = None" "st'' = st1" by (simp_all add: wrapper_post_def)
        with 1 True gen \<open>\<not> rep\<close> show ?thesis by simp
      next
        case ne: False
        with Message.prems(4,5) gen \<open>\<not> rep\<close> have d: "distinct (widget_names ?s sub)"
            "?s \<notin> set (widget_names ?s sub)"
            and r: "set (widget_names ?s sub) \<inter> registered st = {}" "?s \<notin> registered st"
          by auto
        from Message.IH [OF vis gen rec Message.prems(2) wfs d(1) r(1)] ne
        have 1: "registered st1 = registered st \<union> set (widget_names ?s sub)" "nws \<noteq> []"
          by simp_all
        with d(2) r(2) have "?s \<notin> registered st1" by simp
        from wrapper_post_new [OF wp n r(2) this] 1(2)
        have "registered st'' = insert ?s (registered st1)" "nw \<noteq> None" by simp_all
        with 1 ne gen \<open>\<not> rep\<close> show ?thesis by auto
      qed
    qed
  qed
next
  case (Scalar h u name level n rep has v st)
  let ?s = "scoped name n"
  from Scalar.prems have n: "?s \<noteq> []"
    by (auto dest: wf_field_name simp: scoped_nonempty)
  note fn = field_names_scalar [OF Scalar.hyps]
  show ?case
  proof (cases "rep")
    case True
    with fn have "field_names name (Field n rep has v) = []" by simp
    moreover from True Scalar.prems(1) have "nw = None" "st'' = st"
      by (simp_all add: Parse_field_skip)
    ultimately show ?thesis by simp
  next
    case False
    with Scalar obtain res: "Parse_scalar h st name n level v = Some (nw, st'')"
      by (auto simp: Parse_field_scalar elim!: bind_eq_SomeE split: prod.splits)
    show ?thesis
    proof (cases "typed_widget v")
      case True
      with Scalar.prems have hw: "has_widget v" by (simp add: wf_field_has_widget)
      from Parse_scalar_post [OF res] hw
      have "leaf_post st ?s False (scalar_widget h st n level v) nw st''" by simp
      moreover from fn True False have fnF: "field_names name (Field n rep has v) = [?s]" by simp
      with Scalar.prems(5) have "?s \<notin> registered st" by simp
      ultimately have "registered st'' = insert ?s (registered st) \<and> nw \<noteq> None" using n
        by (simp add: leaf_post_new)
      with fnF show ?thesis by simp
    next
      case nt: False
      with Scalar.prems have "\<not> has_widget v" by (simp add: wf_field_has_widget)
      with Parse_scalar_post [OF res] have "nw = None" "st'' = st" by simp_all
      moreover from fn nt have "field_names name (Field n rep has v) = []" by simp
      ultimately show ?thesis by simp
    qed
  qed
qed

text \<open>
  C4. \<^verbatim>\<open>Load\<close> on a new message widget, of a message whose scoped names are distinct
  (as those of a message of the library are): the names registered are exactly the
  scoped names of the singular fields of a type with a case in the switch, at the nesting
  levels reached through singular message fields other than Geometry, Pose, Vector3d,
  Color and Density, together with those message fields themselves (the five special
  ones always, another one when a field below it has a widget). Each is bound to one
  widget, and \<^verbatim>\<open>PropertyWidgetCount\<close> is their number. A repeated field, a field of
  another type and a field inside one of the five special types has no widget of its own.
\<close>

theorem Load_widget_names:
  assumes "Load h (MessageWidget_new ms) a = Some st"
    and "wf_message (ms ! a)" and "distinct (widget_names [] (ms ! a))"
  shows "registered st = set (widget_names [] (ms ! a))
       \<and> PropertyWidgetCount st = length (widget_names [] (ms ! a))
       \<and> (\<forall>s \<in> set (widget_names [] (ms ! a)).
             \<exists>p. PropertyWidgetByName st s = Some p \<and> p < length (heap st) \<and> scopedName (heap st ! p) = s)"
proof -
  let ?m = "ms ! a"
  let ?pre = "(MessageWidget_new ms)\<lparr>messages := ms @ [?m], msg := Some (length ms)\<rparr>"
  from assms(1) obtain m1 nws st1 where
      P: "Parse h False [] 0 ?m ?pre = Some (m1, nws, st1)"
      and st: "st = st1\<lparr>messages := (messages st1)[length ms := m1]\<rparr>"
    by (auto simp: Load_def Let_def MessageWidget_new_def elim!: bind_eq_SomeE split: prod.splits
        dest: vat_SomeD)
  have e: "registered ?pre = {}" by (simp add: registered_def MessageWidget_new_def)
  from Parse_names(1) [OF P _ assms(2,3)] e have "registered st1 = set (widget_names [] ?m)"
    by simp
  with st have reg: "registered st = set (widget_names [] ?m)" by (simp add: registered_def)
  from assms(1) have "keeps_inv (MessageWidget_new ms) st" by (rule Load_keeps_inv)
  with registry_inv_new [of ms] have inv: "registry_inv st" "registry_inj st"
    by (simp_all add: keeps_inv_def)
  then have d: "distinct (map fst (configWidgets st))" by (simp add: registry_inv_def)
  have "length (configWidgets st) = card (registered st)"
    using distinct_card [OF d] by (simp add: registered_def)
  also have "\<dots> = length (widget_names [] ?m)"
    using reg distinct_card [OF assms(3)] by simp
  finally have cnt: "PropertyWidgetCount st = length (widget_names [] ?m)"
    by (simp add: PropertyWidgetCount_def)
  have each: "\<exists>p. PropertyWidgetByName st s = Some p \<and> p < length (heap st) \<and> scopedName (heap st ! p) = s"
    if "s \<in> set (widget_names [] ?m)" for s
  proof -
    from that reg have "s \<in> fst ` set (configWidgets st)" by (simp add: registered_def)
    then obtain p where m: "(s, p) \<in> set (configWidgets st)" by force
    with d have f: "PropertyWidgetByName st s = Some p"
      by (simp add: PropertyWidgetByName_def find_widget_def)
    from inv(1) m have p: "p < length (heap st)" by (auto simp: registry_inv_def)
    from inv(2) m have "\<forall>s'. (s', p) \<in> set (configWidgets st) \<longrightarrow> s' = s"
      by (auto simp: registry_inj_def dest: distinct_snd_unique)
    with inv(1) m have "scopedName (heap st ! p) = s" by (rule registry_inv_single)
    with f p show ?thesis by blast
  qed
  from reg cnt each show ?thesis by blast
qed


theorem Load_widget_names_witness:
  "\<exists>st. Load Helpers_example (MessageWidget_new [Visual_msg, Header_msg]) 1 = Some st
     \<and> wf_message Header_msg
     \<and> widget_names [] Header_msg = [''stamp'', ''stamp::sec'', ''stamp::nsec'']
     \<and> registered st = {''stamp'', ''stamp::sec'', ''stamp::nsec''}
     \<and> PropertyWidgetCount st = 3
     \<and> (\<exists>p. PropertyWidgetByName st ''stamp::nsec'' = Some p \<and> scopedName (heap st ! p) = ''stamp::nsec'')"
proof -
  define st where "st = the (Load Helpers_example (MessageWidget_new [Visual_msg, Header_msg]) 1)"
  have l: "Load Helpers_example (MessageWidget_new [Visual_msg, Header_msg]) 1 = Some st"
    unfolding st_def by code_simp
  have wf: "wf_message Header_msg" by code_simp
  have n: "widget_names [] Header_msg = [''stamp'', ''stamp::sec'', ''stamp::nsec'']"
    by code_simp
  have i: "[Visual_msg, Header_msg] ! 1 = Header_msg" by simp
  have d: "distinct (widget_names [] Header_msg)" unfolding n by simp
  note t = Load_widget_names [OF l, unfolded i, OF wf d, unfolded n]
  from t have 1: "registered st = {''stamp'', ''stamp::sec'', ''stamp::nsec''}" by simp
  from t have 2: "PropertyWidgetCount st = 3" by simp
  from t have 3: "\<exists>p. PropertyWidgetByName st ''stamp::nsec'' = Some p \<and> scopedName (heap st ! p) = ''stamp::nsec''"
    by auto
  from l wf n 1 2 3 have r: "Load Helpers_example (MessageWidget_new [Visual_msg, Header_msg]) 1 = Some st
     \<and> wf_message Header_msg
     \<and> widget_names [] Header_msg = [''stamp'', ''stamp::sec'', ''stamp::nsec'']
     \<and> registered st = {''stamp'', ''stamp::sec'', ''stamp::nsec''}
     \<and> PropertyWidgetCount st = 3
     \<and> (\<exists>p. PropertyWidgetByName st ''stamp::nsec'' = Some p \<and> scopedName (heap st ! p) = ''stamp::nsec'')"
    by (intro conjI)
  show ?thesis by (rule exI [where x = st]) (rule r)
qed

text \<open>
  The repeated field \<^verbatim>\<open>tags\<close>, the field \<^verbatim>\<open>raw\<close> of a type without a case in the switch,
  and the field \<^verbatim>\<open>x\<close> inside the \<^verbatim>\<open>Vector3d\<close> field \<^verbatim>\<open>scale\<close> have no property widget.
\<close>

theorem repeated_field_counterexample:
  "\<exists>st. Load Helpers_example (MessageWidget_new [Model_msg]) 0 = Some st
     \<and> is_repeated (Model_msg ! 1) \<and> fname (Model_msg ! 1) = ''tags''
     \<and> PropertyWidgetByName st ''tags'' = None
     \<and> PropertyWidgetByName st ''raw'' = None
     \<and> PropertyWidgetByName st ''scale::x'' = None
     \<and> map fst (configWidgets st) = [''scale'', ''name'']"
proof -
  define st where "st = the (Load Helpers_example (MessageWidget_new [Model_msg]) 0)"
  have "Load Helpers_example (MessageWidget_new [Model_msg]) 0 = Some st"
    unfolding st_def by code_simp
  moreover have "is_repeated (Model_msg ! 1)" "fname (Model_msg ! 1) = ''tags''"
    by (simp_all add: Model_msg_def)
  moreover have "PropertyWidgetByName st ''tags'' = None" "PropertyWidgetByName st ''raw'' = None"
      "PropertyWidgetByName st ''scale::x'' = None"
      "map fst (configWidgets st) = [''scale'', ''name'']"
    unfolding st_def by code_simp+
  ultimately have "Load Helpers_example (MessageWidget_new [Model_msg]) 0 = Some st
     \<and> is_repeated (Model_msg ! 1) \<and> fname (Model_msg ! 1) = ''tags''
     \<and> PropertyWidgetByName st ''tags'' = None
     \<and> PropertyWidgetByName st ''raw'' = None
     \<and> PropertyWidgetByName st ''scale::x'' = None
     \<and> map fst (configWidgets st) = [''scale'', ''name'']"
    by simp
  then show ?thesis by (intro exI)
qed


section \<open>\<^verbatim>\<open>UpdateFromMsg\<close> shows the message\<close>









subsection \<open>The widgets made by \<^verbatim>\<open>Load\<close> are typed\<close>







subsection \<open>What depends on the descriptor only\<close>






subsection \<open>A setter updates the widget bound to its name\<close>

lemma touches_refl [simp]: "touches s st st"
  by (simp add: touches_def)

lemma modify_touches:
  assumes "modify st p f = Some (b, st')" "find_widget st s = Some p"
    and "\<And>w w'. f w = Some (b, w') \<Longrightarrow> same_widget w w'"
  shows "touches s st st'"
  using modify_only [OF assms(1,3)] assms(2) by (auto simp: touches_def)

lemma touchesI:
  assumes "find_widget st s = None \<Longrightarrow> st' = st"
    and "\<And>p. find_widget st s = Some p \<Longrightarrow> only p st st'"
  shows "touches s st st'"
  using assms by (cases "find_widget st s") (auto simp: touches_def)

lemma setter_touches:
  "SetIntWidgetValue st name i = Some (b, st') \<Longrightarrow> touches name st st'"
  "SetUIntWidgetValue st name i = Some (b, st') \<Longrightarrow> touches name st st'"
  "SetDoubleWidgetValue st name d = Some (b, st') \<Longrightarrow> touches name st st'"
  "SetStringWidgetValue st name s = Some (b, st') \<Longrightarrow> touches name st st'"
  "SetVector3dWidgetValue h st name v = Some (b, st') \<Longrightarrow> touches name st st'"
  "SetColorWidgetValue st name c = Some (b, st') \<Longrightarrow> touches name st st'"
  "SetPoseWidgetValue h st name p = Some (b, st') \<Longrightarrow> touches name st st'"
  "SetGeometryWidgetValue st name t dims u = Some (b, st') \<Longrightarrow> touches name st st'"
  "SetDensityWidgetValue h st name dn = Some (b, st') \<Longrightarrow> touches name st st'"
  "SetEnumWidgetValue st name s = Some (b, st') \<Longrightarrow> touches name st st'"
  by (rule touchesI;
      auto simp: SetIntWidgetValue_def SetUIntWidgetValue_def SetDoubleWidgetValue_def
        SetStringWidgetValue_def SetVector3dWidgetValue_def SetColorWidgetValue_def
        SetPoseWidgetValue_def SetGeometryWidgetValue_def SetDensityWidgetValue_def
        SetEnumWidgetValue_def
      elim!: modify_only
      dest: UpdateIntWidget_same UpdateUIntWidget_same UpdateStringWidget_same
        UpdateVector3dWidget_same UpdateColorWidget_same UpdatePoseWidget_same
        UpdateGeometryWidget_same UpdateDensityWidget_same UpdateEnumWidget_same
        UpdateDoubleWidget_only)+

lemma SetBoolWidgetValue_touches:
  "SetBoolWidgetValue st name v = Some (b, st') \<Longrightarrow> touches name st st'"
  by (rule touchesI;
      auto simp: SetBoolWidgetValue_def split: if_splits
      elim!: bind_eq_SomeE modify_only dest: BoolWidget_SetValue_same)

lemma show_scalar_touches:
  assumes "show_scalar h s v st = Some st'"
  shows "touches s st st'"
  using assms
  by (cases v)
     (auto simp: show_scalar_def split: if_splits
        dest: setter_touches SetBoolWidgetValue_touches)



subsection \<open>Showing a message updates the widgets of its set fields only\<close>



lemma unchanged_off_refl [simp]: "unchanged_off S st st"
  by (simp add: unchanged_off_def)






subsection \<open>What a widget shows after its setter\<close>






lemma deref_store [simp]:
  "deref st p = Some w \<Longrightarrow> deref (store p w' st) p = Some w'"
  by (auto simp: deref_def store_def vat_def split: if_splits)











subsection \<open>Showing a message displays it\<close>



lemma displays_field_scalar:
  "\<not> is_message (Field n rep has v) \<Longrightarrow>
   displays_field h st prefix (Field n rep has v) = (rep \<or> \<not> has \<or> shows_value h st (scoped prefix n) n v)"
  by (cases v) simp_all





lemma typed_at_messages [simp]: "typed_at h (st\<lparr>messages := ms\<rparr>) s n v = typed_at h st s n v"
  by (simp add: typed_at_def find_widget_def cong: option.case_cong)

lemma typed_messages [simp]:
  "typed h (st\<lparr>messages := ms\<rparr>) prefix m = typed h st prefix m"
  "typed_field h (st\<lparr>messages := ms\<rparr>) prefix f = typed_field h st prefix f"
  by (induction h st prefix m and h st prefix f rule: typed_typed_field.induct) simp_all

lemma getter_messages [simp]:
  "IntWidgetValue (st\<lparr>messages := ms\<rparr>) s = IntWidgetValue st s"
  "UIntWidgetValue (st\<lparr>messages := ms\<rparr>) s = UIntWidgetValue st s"
  "DoubleWidgetValue (st\<lparr>messages := ms\<rparr>) s = DoubleWidgetValue st s"
  "BoolWidgetValue (st\<lparr>messages := ms\<rparr>) s = BoolWidgetValue st s"
  "StringWidgetValue (st\<lparr>messages := ms\<rparr>) s = StringWidgetValue st s"
  "EnumWidgetValue (st\<lparr>messages := ms\<rparr>) s = EnumWidgetValue st s"
  by (simp_all add: IntWidgetValue_def UIntWidgetValue_def DoubleWidgetValue_def
      BoolWidgetValue_def StringWidgetValue_def EnumWidgetValue_def find_widget_def deref_def
      cong: option.case_cong)

lemma shown_messages [simp]: "shows_value h (st\<lparr>messages := ms\<rparr>) s n v = shows_value h st s n v"
  by (cases v) (simp_all add: shows_value_def)

lemma displays_messages [simp]:
  "displays h (st\<lparr>messages := ms\<rparr>) prefix m = displays h st prefix m"
  "displays_field h (st\<lparr>messages := ms\<rparr>) prefix f = displays_field h st prefix f"
  by (induction h st prefix m and h st prefix f rule: displays_displays_field.induct) simp_all






end
